theory Spec2Isabelle
  imports Complex_Main "HOL-Library.AList"
begin

section \<open>Python values used by the exchange-rate module\<close>

text \<open>
  Exceptions are values. Only the exception classes that the modelled code can meet are
  listed: \<open>ValueError\<close> (raised by \<^verbatim>\<open>int()\<close>, by tuple unpacking and by the explicit
  \<^verbatim>\<open>raise ValueError\<close> of the hour parser), \<open>DivisionByZero\<close> and \<open>InvalidOperation\<close>
  (signals of the \<^verbatim>\<open>decimal\<close> module, trapped in the default context and in its
  copies) and \<open>IntegrityError\<close> (a violated \<^verbatim>\<open>unique_together\<close> constraint).
\<close>

datatype py_error = ValueError | DivisionByZero | InvalidOperation | IntegrityError

subsection \<open>Strings\<close>

text \<open>
  A \<open>char\<close> stands for a code point below 256; text with other code points is not
  covered. \<^verbatim>\<open>str.strip()\<close> removes the characters for which \<^verbatim>\<open>str.isspace()\<close>
  holds: 9 to 13, 28 to 32, 133 and 160 in that range. \<^verbatim>\<open>int()\<close> skips 9 to 13 and
  32, and the two non-ASCII spaces 133 and 160, but not 28 to 31.
\<close>

definition is_space_strip :: "char \<Rightarrow> bool" where
  "is_space_strip c =
     (let n = (of_char c :: nat)
      in (9 \<le> n \<and> n \<le> 13) \<or> (28 \<le> n \<and> n \<le> 32) \<or> n = 133 \<or> n = 160)"

definition is_space_int :: "char \<Rightarrow> bool" where
  "is_space_int c =
     (let n = (of_char c :: nat)
      in (9 \<le> n \<and> n \<le> 13) \<or> n = 32 \<or> n = 133 \<or> n = 160)"

definition py_strip :: "string \<Rightarrow> string" where
  "py_strip s = rev (dropWhile is_space_strip (rev (dropWhile is_space_strip s)))"

text \<open>\<^verbatim>\<open>s.split(sep)\<close> for a one-character separator: never the empty list.\<close>

fun py_split :: "char \<Rightarrow> string \<Rightarrow> string list" where
  "py_split sep [] = [[]]"
| "py_split sep (c # cs) =
     (if c = sep then [] # py_split sep cs
      else (case py_split sep cs of
              [] \<Rightarrow> [[c]]
            | w # ws \<Rightarrow> (c # w) # ws))"

definition is_digit :: "char \<Rightarrow> bool" where
  "is_digit c = (let n = (of_char c :: nat) in 48 \<le> n \<and> n \<le> 57)"

definition digit_value :: "char \<Rightarrow> nat" where
  "digit_value c = of_char c - 48"

text \<open>
  The digits of a base-10 literal: one digit, then digits each optionally preceded by a
  single underscore. The accumulator holds the value read so far.
\<close>

fun int_digits :: "nat \<Rightarrow> string \<Rightarrow> nat option" where
  "int_digits acc [] = None"
| "int_digits acc [c] = (if is_digit c then Some (10 * acc + digit_value c) else None)"
| "int_digits acc (c # d # cs) =
     (if is_digit c then
        (if d = CHR ''_'' then int_digits (10 * acc + digit_value c) cs
         else int_digits (10 * acc + digit_value c) (d # cs))
      else None)"

text \<open>
  \<^verbatim>\<open>int(s)\<close> for a string: leading whitespace, an optional sign, the digits, trailing
  whitespace; anything else is a \<^verbatim>\<open>ValueError\<close>. The limit of the interpreter on the
  number of digits (4300) is out of reach: \<^verbatim>\<open>fetch_interval\<close> holds at most 1000
  characters.
\<close>

definition py_int :: "string \<Rightarrow> py_error + int" where
  "py_int s =
     (let t = dropWhile is_space_int s;
          neg = (case t of [] \<Rightarrow> False | c # cs \<Rightarrow> c = CHR ''-'');
          u = (case t of [] \<Rightarrow> [] | c # cs \<Rightarrow> if c = CHR ''-'' \<or> c = CHR ''+'' then cs else t);
          v = rev (dropWhile is_space_int (rev u))
      in case int_digits 0 v of
           None \<Rightarrow> Inl ValueError
         | Some n \<Rightarrow> Inr (if neg then - int n else int n))"

subsection \<open>Decimal\<close>

text \<open>
  A finite \<^verbatim>\<open>decimal.Decimal\<close>: sign, coefficient (never negative) and exponent, with
  the value \<open>(-1)^sign * coefficient * 10^exponent\<close>. Arithmetic runs in the default
  context, which the code never changes: 28 significant digits, rounding half to even,
  division by zero trapped. The exponent limits of the context (\<open>Emax = 999999\<close>) are
  not modelled; the rate column holds 42 digits with 30 decimal places, far inside them.
\<close>

record decimal =
  dsign :: bool
  dint :: int
  dexp :: int

definition prec :: nat where
  "prec = 28"

function ndigits :: "int \<Rightarrow> nat" where
  "ndigits n = (if n < 10 then 1 else Suc (ndigits (n div 10)))"
  by pat_completeness auto
termination
  by (relation "measure nat") auto

declare ndigits.simps [simp del]

text \<open>Rounding a result to the precision of the context (\<^verbatim>\<open>Decimal._fix\<close>).\<close>

definition dec_fix :: "decimal \<Rightarrow> decimal" where
  "dec_fix d =
     (let n = ndigits (dint d)
      in if n \<le> prec then d
         else
           (let k = n - prec;
                q = dint d div 10 ^ k;
                r = dint d mod 10 ^ k;
                half = 5 * 10 ^ (k - 1);
                q' = (if half < r \<or> (r = half \<and> odd q) then q + 1 else q)
            in if prec < ndigits q'
               then d\<lparr>dint := q' div 10, dexp := dexp d + int k + 1\<rparr>
               else d\<lparr>dint := q', dexp := dexp d + int k\<rparr>))"

definition dec_mul :: "decimal \<Rightarrow> decimal \<Rightarrow> decimal" where
  "dec_mul a b =
     dec_fix \<lparr>dsign = (dsign a \<noteq> dsign b), dint = dint a * dint b, dexp = dexp a + dexp b\<rparr>"

text \<open>
  An exact quotient is brought as close to the ideal exponent as its trailing zeros allow
  (the \<^verbatim>\<open>while exp < ideal_exp and coeff % 10 == 0\<close> loop of \<^verbatim>\<open>__truediv__\<close>).
\<close>

function strip_exact :: "int \<Rightarrow> int \<Rightarrow> int \<Rightarrow> int \<times> int" where
  "strip_exact coeff e ideal =
     (if e < ideal \<and> coeff mod 10 = 0 then strip_exact (coeff div 10) (e + 1) ideal
      else (coeff, e))"
  by pat_completeness auto
termination
  by (relation "measure (\<lambda>(coeff, e, ideal). nat (ideal - e))") auto

declare strip_exact.simps [simp del]

definition dec_truediv :: "decimal \<Rightarrow> decimal \<Rightarrow> py_error + decimal" where
  "dec_truediv a b =
     (if dint b = 0 then Inl (if dint a = 0 then InvalidOperation else DivisionByZero)
      else if dint a = 0
      then Inr (dec_fix \<lparr>dsign = (dsign a \<noteq> dsign b), dint = 0, dexp = dexp a - dexp b\<rparr>)
      else
        (let shift = int (ndigits (dint b)) - int (ndigits (dint a)) + int prec + 1;
             e = dexp a - dexp b - shift;
             num = (if 0 \<le> shift then dint a * 10 ^ nat shift else dint a);
             den = (if 0 \<le> shift then dint b else dint b * 10 ^ nat (- shift));
             coeff = num div den;
             remainder = num mod den;
             ce = (if remainder \<noteq> 0
                   then (if coeff mod 5 = 0 then coeff + 1 else coeff, e)
                   else strip_exact coeff e (dexp a - dexp b))
         in Inr (dec_fix \<lparr>dsign = (dsign a \<noteq> dsign b), dint = fst ce, dexp = snd ce\<rparr>)))"

text \<open>\<^verbatim>\<open>Decimal("1")\<close> and the rational number a decimal denotes.\<close>

definition dec_one :: decimal where
  "dec_one = \<lparr>dsign = False, dint = 1, dexp = 0\<rparr>"

definition dec_val :: "decimal \<Rightarrow> rat" where
  "dec_val d = (if dsign d then - 1 else 1) * of_int (dint d) * 10 powi dexp d"

text \<open>
  The quotient of \<open>n\<close> by \<open>10^k\<close>, rounded to the nearest integer and to the even one
  of two that are equally near (\<^verbatim>\<open>ROUND_HALF_EVEN\<close>).
\<close>

definition round_half_even :: "int \<Rightarrow> nat \<Rightarrow> int" where
  "round_half_even n k =
     (let q = n div 10 ^ k;
          r = n mod 10 ^ k
      in if 10 ^ k < 2 * r \<or> (2 * r = 10 ^ k \<and> odd q) then q + 1 else q)"

text \<open>
  \<^verbatim>\<open>d.quantize(Decimal(1).scaleb(-places), context)\<close> in a copy of the default context
  whose precision is \<open>digits\<close>: the number with exactly \<open>places\<close> decimal places that is
  nearest to \<open>d\<close>, and \<^verbatim>\<open>InvalidOperation\<close> when that number has more than \<open>digits\<close>
  digits. The first test is the one \<^verbatim>\<open>quantize\<close> makes before it rounds, the second the
  one it makes after.
\<close>

definition dec_quantize :: "decimal \<Rightarrow> nat \<Rightarrow> nat \<Rightarrow> py_error + decimal" where
  "dec_quantize d places digits =
     (if dint d = 0 then Inr (d\<lparr>dexp := - int places\<rparr>)
      else if int digits < dexp d + int (ndigits (dint d)) + int places then Inl InvalidOperation
      else
        (let coeff = (if - int places \<le> dexp d then dint d * 10 ^ nat (dexp d + int places)
                      else round_half_even (dint d) (nat (- int places - dexp d)))
         in if digits < ndigits coeff then Inl InvalidOperation
            else Inr (d\<lparr>dint := coeff, dexp := - int places\<rparr>)))"

subsection \<open>Date and time\<close>

text \<open>
  A \<^verbatim>\<open>datetime\<close> in one fixed time zone: the date as its day number and the four
  time fields. \<^verbatim>\<open>a - b\<close> is a \<^verbatim>\<open>timedelta\<close>, kept here as its length in microseconds.
\<close>

record datetime =
  ordinal :: int
  hour :: nat
  minute :: nat
  second :: nat
  microsecond :: nat

definition to_microseconds :: "datetime \<Rightarrow> int" where
  "to_microseconds t =
     (((ordinal t * 24 + int (hour t)) * 60 + int (minute t)) * 60 + int (second t)) * 1000000
       + int (microsecond t)"

definition dt_sub :: "datetime \<Rightarrow> datetime \<Rightarrow> int" where
  "dt_sub a b = to_microseconds a - to_microseconds b"

definition total_seconds :: "int \<Rightarrow> rat" where
  "total_seconds delta = of_int delta / 1000000"

section \<open>models.py\<close>

record Currency =
  cid :: nat
  code :: string
  exchange_currency :: "nat option"

record ExchangeRate =
  from_currency_id :: nat
  to_currency_id :: nat
  rate :: decimal
  date :: datetime
  automatic :: bool

text \<open>
  The column of the rate is \<^verbatim>\<open>DecimalField(max_digits=42, decimal_places=30)\<close>. When a
  row is written, the field prepares its value for the database with
  \<^verbatim>\<open>format_number(value, max_digits, decimal_places)\<close>, which quantizes the value to the
  decimal places of the field in a context with the digits of the field as its precision.
  The row then holds the rate rounded to 30 decimal places; a rate that would need more
  than 42 digits, 12 of them before the point, is not written: \<^verbatim>\<open>InvalidOperation\<close>.
  The database is taken to keep the number that it is given.
\<close>

definition rate_max_digits :: nat where
  "rate_max_digits = 42"

definition rate_decimal_places :: nat where
  "rate_decimal_places = 30"

definition format_number :: "decimal \<Rightarrow> nat \<Rightarrow> nat \<Rightarrow> py_error + decimal" where
  "format_number d max_digits decimal_places = dec_quantize d decimal_places max_digits"

definition rate_get_db_prep_save :: "decimal \<Rightarrow> py_error + decimal" where
  "rate_get_db_prep_save d = format_number d rate_max_digits rate_decimal_places"

text \<open>The values of \<^verbatim>\<open>ExchangeRateService.IntervalType\<close>; the field is a plain string.\<close>

definition IntervalType_ON :: string where
  "IntervalType_ON = ''on''"

definition IntervalType_EVERY :: string where
  "IntervalType_EVERY = ''every''"

definition IntervalType_NOT_ON :: string where
  "IntervalType_NOT_ON = ''not_on''"

record ExchangeRateService =
  name :: string
  service_type :: string
  is_active :: bool
  api_key :: "string option"
  interval_type :: string
  fetch_interval :: string
  last_fetch :: "datetime option"
  singleton :: bool

subsection \<open>\<^verbatim>\<open>ExchangeRateService._parse_hour_ranges\<close>\<close>

text \<open>One round of the loop over the comma-separated parts, from the set built so far.\<close>

definition parse_hour_part :: "int set \<Rightarrow> string \<Rightarrow> py_error + int set" where
  "parse_hour_part hours part0 =
     (let part = py_strip part0
      in if CHR ''-'' \<in> set part then
           (case py_split CHR ''-'' part of
              [start_s, end_s] \<Rightarrow>
                (case py_int start_s of
                   Inl e \<Rightarrow> Inl e
                 | Inr start_h \<Rightarrow>
                     (case py_int end_s of
                        Inl e \<Rightarrow> Inl e
                      | Inr end_h \<Rightarrow>
                          if \<not> (0 \<le> start_h \<and> start_h \<le> 23 \<and> 0 \<le> end_h \<and> end_h \<le> 23)
                          then Inl ValueError
                          else if end_h < start_h then Inl ValueError
                          else Inr (hours \<union> {start_h..end_h})))
            | _ \<Rightarrow> Inl ValueError)
         else
           (case py_int part of
              Inl e \<Rightarrow> Inl e
            | Inr hour_h \<Rightarrow>
                if \<not> (0 \<le> hour_h \<and> hour_h \<le> 23) then Inl ValueError
                else Inr (insert hour_h hours)))"

fun parse_hour_parts :: "int set \<Rightarrow> string list \<Rightarrow> py_error + int set" where
  "parse_hour_parts hours [] = Inr hours"
| "parse_hour_parts hours (p # ps) =
     (case parse_hour_part hours p of
        Inl e \<Rightarrow> Inl e
      | Inr hours' \<Rightarrow> parse_hour_parts hours' ps)"

definition parse_hour_ranges :: "string \<Rightarrow> py_error + int set" where
  "parse_hour_ranges interval_str =
     parse_hour_parts {} (py_split CHR '','' (py_strip interval_str))"

section \<open>fetcher.py\<close>

subsection \<open>\<^verbatim>\<open>ExchangeRateFetcher._should_fetch_at_hour\<close>\<close>

text \<open>\<^verbatim>\<open>try: body except ValueError: return handler\<close>; other exceptions pass through.\<close>

definition except_ValueError :: "py_error + 'a \<Rightarrow> 'a \<Rightarrow> py_error + 'a" where
  "except_ValueError body handler =
     (case body of
        Inl e \<Rightarrow> if e = ValueError then Inr handler else Inl e
      | Inr v \<Rightarrow> Inr v)"

text \<open>\<^verbatim>\<open>t.replace(minute=0, second=0, microsecond=0)\<close>\<close>

definition replace_to_hour :: "datetime \<Rightarrow> datetime" where
  "replace_to_hour t = t\<lparr>minute := 0, second := 0, microsecond := 0\<rparr>"

text \<open>
  The reading of \<^verbatim>\<open>timezone.now()\<close> is the first argument. The quotient
  \<^verbatim>\<open>total_seconds() / 3600\<close> is a float in the source; both operands are whole
  multiples of 3600 after the truncation, so the float is exact and a rational stands
  for it.
\<close>

definition should_fetch_at_hour ::
  "datetime \<Rightarrow> ExchangeRateService \<Rightarrow> int \<Rightarrow> py_error + bool" where
  "should_fetch_at_hour timezone_now service current_hour =
     except_ValueError
       (if interval_type service = IntervalType_NOT_ON then
          (case parse_hour_ranges (fetch_interval service) of
             Inl e \<Rightarrow> Inl e
           | Inr blocked_hours \<Rightarrow> Inr (current_hour \<notin> blocked_hours))
        else if interval_type service = IntervalType_ON then
          (case parse_hour_ranges (fetch_interval service) of
             Inl e \<Rightarrow> Inl e
           | Inr allowed_hours \<Rightarrow> Inr (current_hour \<in> allowed_hours))
        else if interval_type service = IntervalType_EVERY then
          except_ValueError
            (case py_int (fetch_interval service) of
               Inl e \<Rightarrow> Inl e
             | Inr interval_hours \<Rightarrow>
                 (case last_fetch service of
                    None \<Rightarrow> Inr True
                  | Some fetched \<Rightarrow>
                      (let now = replace_to_hour timezone_now;
                           last_fetch_h = replace_to_hour fetched;
                           hours_since_last = total_seconds (dt_sub now last_fetch_h) / 3600
                       in Inr (of_int interval_hours \<le> hours_since_last))))
            False
        else Inr False)
       False"

subsection \<open>The rate-storing loop of \<^verbatim>\<open>ExchangeRateFetcher._fetch_service_rates\<close>\<close>

text \<open>
  The \<^verbatim>\<open>ExchangeRate\<close> table is the list of its rows in primary-key order; a row is
  named by its position. \<^verbatim>\<open>objects.create\<close> and \<^verbatim>\<open>save\<close> first prepare the rate for
  its column, which may raise \<open>InvalidOperation\<close>, and then write the row with the
  prepared rate. Two rows may not agree on \<^verbatim>\<open>(from_currency, to_currency, date)\<close>
  (\<^verbatim>\<open>unique_together\<close>): the database raises \<open>IntegrityError\<close> instead of writing such
  a row.
\<close>

definition same_key :: "ExchangeRate \<Rightarrow> ExchangeRate \<Rightarrow> bool" where
  "same_key x y =
     (from_currency_id x = from_currency_id y \<and> to_currency_id x = to_currency_id y \<and>
      to_microseconds (date x) = to_microseconds (date y))"

definition objects_create :: "ExchangeRate list \<Rightarrow> ExchangeRate \<Rightarrow> py_error + ExchangeRate list" where
  "objects_create table r =
     (case rate_get_db_prep_save (rate r) of
        Inl e \<Rightarrow> Inl e
      | Inr db_rate \<Rightarrow>
          if \<exists>x \<in> set table. same_key x r then Inl IntegrityError
          else Inr (table @ [r\<lparr>rate := db_rate\<rparr>]))"

definition save_row :: "ExchangeRate list \<Rightarrow> nat \<Rightarrow> ExchangeRate \<Rightarrow> py_error + ExchangeRate list" where
  "save_row table i r =
     (case rate_get_db_prep_save (rate r) of
        Inl e \<Rightarrow> Inl e
      | Inr db_rate \<Rightarrow>
          if \<exists>j \<in> set [0..<length table]. j \<noteq> i \<and> same_key (table ! j) r
          then Inl IntegrityError
          else Inr (table[i := r\<lparr>rate := db_rate\<rparr>]))"

text \<open>
  \<^verbatim>\<open>ExchangeRate.objects.filter(automatic=True, from_currency=f, to_currency=t)\<close> as the
  list of matching row numbers, and \<^verbatim>\<open>.order_by("-date").first()\<close> over such a list:
  the row with the latest date (the earliest row among equal dates, which the uniqueness
  of the key excludes for rows of one pair).
\<close>

definition filter_automatic :: "ExchangeRate list \<Rightarrow> nat \<Rightarrow> nat \<Rightarrow> nat list" where
  "filter_automatic table f t =
     filter (\<lambda>i. automatic (table ! i) \<and> from_currency_id (table ! i) = f \<and>
                 to_currency_id (table ! i) = t) [0..<length table]"

fun latest_of :: "ExchangeRate list \<Rightarrow> nat \<Rightarrow> nat list \<Rightarrow> nat" where
  "latest_of table best [] = best"
| "latest_of table best (i # is) =
     latest_of table
       (if to_microseconds (date (table ! best)) < to_microseconds (date (table ! i))
        then i else best) is"

definition order_by_date_desc_first :: "ExchangeRate list \<Rightarrow> nat list \<Rightarrow> nat option" where
  "order_by_date_desc_first table is =
     (case is of [] \<Rightarrow> None | i # rest \<Rightarrow> Some (latest_of table i rest))"

text \<open>
  The state of one run: the table, the set \<^verbatim>\<open>processed_pairs\<close>, and the number of
  readings of \<^verbatim>\<open>timezone.now()\<close> taken so far; the \<open>n\<close>-th reading is \<open>clock n\<close>.
\<close>

record fetch_state =
  table :: "ExchangeRate list"
  processed_pairs :: "(nat \<times> nat) set"
  ticks :: nat

text \<open>
  Creating or overwriting the row for the pair \<open>(f, t)\<close>: the part that the two branches
  of the loop body share, once they have chosen \<open>f\<close> and \<open>t\<close>.
\<close>

definition store_rate ::
  "(nat \<Rightarrow> datetime) \<Rightarrow> bool \<Rightarrow> fetch_state \<Rightarrow> nat \<Rightarrow> nat \<Rightarrow> decimal \<Rightarrow> py_error + fetch_state" where
  "store_rate clock service_singleton st f t r =
     (let exchange_rate =
            (if service_singleton
             then order_by_date_desc_first (table st) (filter_automatic (table st) f t)
             else None);
          now = clock (ticks st);
          written =
            (case exchange_rate of
               None \<Rightarrow>
                 objects_create (table st)
                   \<lparr>from_currency_id = f, to_currency_id = t, rate = r, date = now,
                    automatic = True\<rparr>
             | Some i \<Rightarrow> save_row (table st) i ((table st ! i)\<lparr>rate := r, date := now\<rparr>))
      in case written of
           Inl e \<Rightarrow> Inl e
         | Inr table' \<Rightarrow>
             Inr (st\<lparr>table := table', processed_pairs := insert (f, t) (processed_pairs st),
                     ticks := Suc (ticks st)\<rparr>))"

text \<open>One round of \<^verbatim>\<open>for from_currency, to_currency, rate in rates\<close>.\<close>

definition process_rate ::
  "(nat \<Rightarrow> datetime) \<Rightarrow> bool \<Rightarrow> bool \<Rightarrow> fetch_state \<Rightarrow> Currency \<times> Currency \<times> decimal
     \<Rightarrow> py_error + fetch_state" where
  "process_rate clock rates_inverted service_singleton st tup =
     (case tup of
        (from_currency, to_currency, r) \<Rightarrow>
          (let pair_key = (cid from_currency, cid to_currency)
           in if pair_key \<in> processed_pairs st then Inr st
              else if rates_inverted
              then store_rate clock service_singleton st (cid to_currency) (cid from_currency) r
              else store_rate clock service_singleton st (cid from_currency) (cid to_currency) r))"

text \<open>
  The loop. An exception leaves it at once; the rows written before stay written (no
  transaction surrounds the loop), so the state reached is returned with the exception.
\<close>

fun process_rates ::
  "(nat \<Rightarrow> datetime) \<Rightarrow> bool \<Rightarrow> bool \<Rightarrow> fetch_state \<Rightarrow> (Currency \<times> Currency \<times> decimal) list
     \<Rightarrow> py_error option \<times> fetch_state" where
  "process_rates clock rates_inverted service_singleton st [] = (None, st)"
| "process_rates clock rates_inverted service_singleton st (tup # rates) =
     (case process_rate clock rates_inverted service_singleton st tup of
        Inl e \<Rightarrow> (Some e, st)
      | Inr st' \<Rightarrow> process_rates clock rates_inverted service_singleton st' rates)"

text \<open>
  \<^verbatim>\<open>_fetch_service_rates\<close> from the point where the provider has returned \<open>rates\<close>:
  the loop from an empty \<^verbatim>\<open>processed_pairs\<close>, then \<^verbatim>\<open>last_fetch\<close>. The enclosing
  \<^verbatim>\<open>except Exception\<close> logs and returns, so \<^verbatim>\<open>last_fetch\<close> keeps its value then.
\<close>

definition fetch_service_rates ::
  "(nat \<Rightarrow> datetime) \<Rightarrow> bool \<Rightarrow> ExchangeRateService \<Rightarrow> (Currency \<times> Currency \<times> decimal) list
     \<Rightarrow> ExchangeRate list \<Rightarrow> ExchangeRate list \<times> ExchangeRateService" where
  "fetch_service_rates clock rates_inverted service rates table0 =
     (case process_rates clock rates_inverted (singleton service)
             \<lparr>table = table0, processed_pairs = {}, ticks = 0\<rparr> rates of
        (Some e, st) \<Rightarrow> (table st, service)
      | (None, st) \<Rightarrow> (table st, service\<lparr>last_fetch := Some (clock (ticks st))\<rparr>))"

section \<open>providers/transitive\_rate.py\<close>

text \<open>
  A \<^verbatim>\<open>dict\<close> keeps its keys in insertion order, and the search below visits neighbours
  in that order, so the graph is an association list of association lists.
  \<^verbatim>\<open>d[k] = v\<close> is \<open>AList.update k v d\<close>: in place for a key that is there, at the end
  for a new one.
\<close>

type_synonym currency_graph = "(nat \<times> (nat \<times> decimal) list) list"

subsection \<open>\<^verbatim>\<open>TransitiveRateProvider._build_currency_graph\<close>\<close>

text \<open>\<^verbatim>\<open>if a not in graph: graph[a] = {}\<close> followed by \<^verbatim>\<open>graph[a][b] = w\<close>.\<close>

definition set_edge :: "currency_graph \<Rightarrow> nat \<Rightarrow> nat \<Rightarrow> decimal \<Rightarrow> currency_graph" where
  "set_edge graph a b w =
     (case map_of graph a of
        None \<Rightarrow> AList.update a [(b, w)] graph
      | Some adj \<Rightarrow> AList.update a (AList.update b w adj) graph)"

fun build_graph_loop :: "currency_graph \<Rightarrow> ExchangeRate list \<Rightarrow> py_error + currency_graph" where
  "build_graph_loop graph [] = Inr graph"
| "build_graph_loop graph (r # rates) =
     (let graph1 = set_edge graph (from_currency_id r) (to_currency_id r) (rate r)
      in case dec_truediv dec_one (rate r) of
           Inl e \<Rightarrow> Inl e
         | Inr inverse_rate \<Rightarrow>
             build_graph_loop
               (set_edge graph1 (to_currency_id r) (from_currency_id r) inverse_rate) rates)"

definition build_currency_graph :: "ExchangeRate list \<Rightarrow> py_error + currency_graph" where
  "build_currency_graph rates = build_graph_loop [] rates"

subsection \<open>\<^verbatim>\<open>TransitiveRateProvider._find_conversion_path\<close>\<close>

text \<open>\<^verbatim>\<open>graph.get(current, {}).items()\<close>\<close>

definition graph_items :: "currency_graph \<Rightarrow> nat \<Rightarrow> (nat \<times> decimal) list" where
  "graph_items graph current = (case map_of graph current of None \<Rightarrow> [] | Some adj \<Rightarrow> adj)"

text \<open>The inner \<^verbatim>\<open>for neighbor, rate in ...\<close> loop, on the pair of \<^verbatim>\<open>visited\<close> and \<^verbatim>\<open>queue\<close>.\<close>

fun visit_neighbors ::
  "nat list \<Rightarrow> decimal \<Rightarrow> (nat \<times> decimal) list
     \<Rightarrow> nat set \<times> (nat \<times> nat list \<times> decimal) list
     \<Rightarrow> nat set \<times> (nat \<times> nat list \<times> decimal) list" where
  "visit_neighbors path current_rate [] (visited, queue) = (visited, queue)"
| "visit_neighbors path current_rate ((neighbor, r) # items) (visited, queue) =
     (if neighbor \<notin> visited
      then visit_neighbors path current_rate items
             (insert neighbor visited,
              queue @ [(neighbor, path @ [neighbor], dec_mul current_rate r)])
      else visit_neighbors path current_rate items (visited, queue))"

text \<open>Every currency id that occurs as a neighbour somewhere in the graph.\<close>

definition neighbor_ids :: "currency_graph \<Rightarrow> nat set" where
  "neighbor_ids graph = (\<Union>adj \<in> snd ` set graph. fst ` set adj)"

text \<open>
  The \<^verbatim>\<open>while queue\<close> loop. It stops because every round either marks a neighbour
  that was not yet visited, or shortens the queue.
\<close>

function bfs_loop ::
  "currency_graph \<Rightarrow> nat \<Rightarrow> nat set \<Rightarrow> (nat \<times> nat list \<times> decimal) list
     \<Rightarrow> nat list option \<times> decimal option" where
  "bfs_loop graph to_id visited [] = (None, None)"
| "bfs_loop graph to_id visited ((current, path, current_rate) # queue) =
     (if current = to_id then (Some path, Some current_rate)
      else (case visit_neighbors path current_rate (graph_items graph current) (visited, queue) of
              (visited', queue') \<Rightarrow> bfs_loop graph to_id visited' queue'))"
  by pat_completeness auto
termination
proof (relation "measure (\<lambda>(graph, to_id, visited, queue).
                    2 * card (neighbor_ids graph - visited) + length queue)", goal_cases)
  case 1
  show ?case by simp
next
  case (2 graph to_id visited current path current_rate queue visited' queue')
  have fin: "finite (neighbor_ids graph)"
    by (simp add: neighbor_ids_def)
  have sub: "fst ` set (graph_items graph current) \<subseteq> neighbor_ids graph"
  proof (cases "map_of graph current")
    case None
    then show ?thesis by (simp add: graph_items_def)
  next
    case (Some adj)
    then have "(current, adj) \<in> set graph" by (rule map_of_SomeD)
    then have "adj \<in> snd ` set graph" by force
    with Some show ?thesis by (auto simp: graph_items_def neighbor_ids_def)
  qed
  have step: "fst ` set items \<subseteq> neighbor_ids graph \<Longrightarrow>
       visit_neighbors path current_rate items (vis, q) = (vis', q') \<Longrightarrow>
       2 * card (neighbor_ids graph - vis') + length q'
         \<le> 2 * card (neighbor_ids graph - vis) + length q" for items vis q vis' q'
  proof (induction items arbitrary: vis q)
    case Nil
    then show ?case by simp
  next
    case (Cons it items)
    obtain nb r where it: "it = (nb, r)" by (cases it)
    show ?case
    proof (cases "nb \<in> vis")
      case True
      with Cons.prems it have "visit_neighbors path current_rate items (vis, q) = (vis', q')"
        by simp
      with Cons.IH Cons.prems(1) show ?thesis by simp
    next
      case False
      with Cons.prems it have run: "visit_neighbors path current_rate items
          (insert nb vis, q @ [(nb, path @ [nb], dec_mul current_rate r)]) = (vis', q')"
        by simp
      from Cons.prems(1) it have nb: "nb \<in> neighbor_ids graph" by simp
      from Cons.prems(1) have "fst ` set items \<subseteq> neighbor_ids graph" by simp
      from Cons.IH [OF this run]
      have le: "2 * card (neighbor_ids graph - vis') + length q'
          \<le> 2 * card (neighbor_ids graph - insert nb vis) + Suc (length q)"
        by simp
      from nb False fin have "card (neighbor_ids graph - insert nb vis)
          < card (neighbor_ids graph - vis)"
        by (intro psubset_card_mono) auto
      with le show ?thesis by simp
    qed
  qed
  from 2 [symmetric] have run:
    "visit_neighbors path current_rate (graph_items graph current) (visited, queue)
      = (visited', queue')"
    by simp
  have "2 * card (neighbor_ids graph - visited') + length queue'
         \<le> 2 * card (neighbor_ids graph - visited) + length queue"
    by (rule step [OF sub run])
  then show ?case by simp
qed

declare bfs_loop.simps [simp del]

definition find_conversion_path ::
  "currency_graph \<Rightarrow> nat \<Rightarrow> nat \<Rightarrow> nat list option \<times> decimal option" where
  "find_conversion_path graph from_id to_id =
     (if from_id \<notin> fst ` set graph \<or> to_id \<notin> fst ` set graph then (None, None)
      else bfs_loop graph to_id {from_id} [(from_id, [from_id], dec_one)])"

section \<open>Notions used to state the properties\<close>

subsection \<open>Hour specifications\<close>

text \<open>
  The tokens of an interval string: the string is stripped and split at the commas, and
  each part is stripped.
\<close>

definition hour_tokens :: "string \<Rightarrow> string list" where
  "hour_tokens s = map py_strip (py_split CHR '','' (py_strip s))"

text \<open>
  How a token reads: as a single integer, as a range \<open>low-high\<close> of two integers, or
  not at all. A token with a minus sign in it is a range or nothing.
\<close>

datatype token_reading = Single int | Range int int | Unparseable

definition read_token :: "string \<Rightarrow> token_reading" where
  "read_token t =
     (if CHR ''-'' \<in> set t then
        (case py_split CHR ''-'' t of
           [a, b] \<Rightarrow>
             (case py_int a of
                Inl e \<Rightarrow> Unparseable
              | Inr lo \<Rightarrow> (case py_int b of Inl e \<Rightarrow> Unparseable | Inr hi \<Rightarrow> Range lo hi))
         | _ \<Rightarrow> Unparseable)
      else (case py_int t of Inl e \<Rightarrow> Unparseable | Inr h \<Rightarrow> Single h))"

definition in_bounds :: "int \<Rightarrow> bool" where
  "in_bounds h = (0 \<le> h \<and> h \<le> 23)"

text \<open>
  The three faults of a token: it does not parse, an integer of it lies outside 0 to 23,
  or it is a range whose start is greater than its end.
\<close>

fun token_fault :: "token_reading \<Rightarrow> bool" where
  "token_fault Unparseable = True"
| "token_fault (Single h) = (\<not> in_bounds h)"
| "token_fault (Range lo hi) = (\<not> in_bounds lo \<or> \<not> in_bounds hi \<or> hi < lo)"

fun token_hours :: "token_reading \<Rightarrow> int set" where
  "token_hours Unparseable = {}"
| "token_hours (Single h) = {h}"
| "token_hours (Range lo hi) = {lo..hi}"

subsection \<open>Elapsed hours\<close>

text \<open>The ranges of the time fields of a \<^verbatim>\<open>datetime\<close>.\<close>

definition valid_datetime :: "datetime \<Rightarrow> bool" where
  "valid_datetime t =
     (hour t < 24 \<and> minute t < 60 \<and> second t < 60 \<and> microsecond t < 1000000)"

text \<open>
  The hour in which an instant lies, counted along the time line: the number of whole
  hours that have passed at that instant. The start of the hour of an instant is this
  many hours, so the number of whole hours between two instants, both first truncated to
  the start of their hour, is the difference of their hour numbers.
\<close>

definition hour_number :: "datetime \<Rightarrow> int" where
  "hour_number t = to_microseconds t div 3600000000"

definition start_of_hour :: "datetime \<Rightarrow> int" where
  "start_of_hour t = hour_number t * 3600000000"

definition whole_hours_between :: "datetime \<Rightarrow> datetime \<Rightarrow> int" where
  "whole_hours_between a b = (start_of_hour b - start_of_hour a) div 3600000000"

subsection \<open>Rows of a currency pair\<close>

text \<open>The number of rows of the table from currency \<open>f\<close> to currency \<open>t\<close>.\<close>

definition pair_count :: "ExchangeRate list \<Rightarrow> nat \<Rightarrow> nat \<Rightarrow> nat" where
  "pair_count rows f t =
     length (filter (\<lambda>x. from_currency_id x = f \<and> to_currency_id x = t) rows)"

subsection \<open>Edges contributed by rate records\<close>

text \<open>
  The weight that one rate record gives to the edge from \<open>x\<close> to \<open>y\<close>, if it gives
  one: the rate for the edge from its source to its target, the reciprocal of the rate
  for the edge back. The edge back is written second, so for a record from a currency
  to itself it is the one that stays.
\<close>

definition record_edge :: "ExchangeRate \<Rightarrow> nat \<Rightarrow> nat \<Rightarrow> decimal option" where
  "record_edge r x y =
     (if x = to_currency_id r \<and> y = from_currency_id r
      then (case dec_truediv dec_one (rate r) of Inl e \<Rightarrow> None | Inr w \<Rightarrow> Some w)
      else if x = from_currency_id r \<and> y = to_currency_id r then Some (rate r)
      else None)"

text \<open>The weight from the last record of the list that gives the edge a weight.\<close>

definition last_edge :: "ExchangeRate list \<Rightarrow> nat \<Rightarrow> nat \<Rightarrow> decimal option" where
  "last_edge rates x y =
     (case find (\<lambda>r. record_edge r x y \<noteq> None) (rev rates) of
        None \<Rightarrow> None
      | Some r \<Rightarrow> record_edge r x y)"

subsection \<open>Paths of the currency graph\<close>

text \<open>\<^verbatim>\<open>graph[u][v]\<close> where it exists: the weight of the edge from \<open>u\<close> to \<open>v\<close>.\<close>

definition edge_weight :: "currency_graph \<Rightarrow> nat \<Rightarrow> nat \<Rightarrow> decimal option" where
  "edge_weight graph u v = map_of (graph_items graph u) v"

text \<open>
  The weights along a list of currency ids, hop by hop; \<open>None\<close> when the list is empty
  or some hop is not an edge of the graph.
\<close>

fun hop_weights :: "currency_graph \<Rightarrow> nat list \<Rightarrow> decimal list option" where
  "hop_weights graph [] = None"
| "hop_weights graph [u] = Some []"
| "hop_weights graph (u # v # rest) =
     (case edge_weight graph u v of
        None \<Rightarrow> None
      | Some w \<Rightarrow> map_option (Cons w) (hop_weights graph (v # rest)))"

definition is_conversion_path :: "currency_graph \<Rightarrow> nat \<Rightarrow> nat \<Rightarrow> nat list \<Rightarrow> bool" where
  "is_conversion_path graph a b p = (hop_weights graph p \<noteq> None \<and> hd p = a \<and> last p = b)"

text \<open>
  The order of discovery. Every hop of a path has a position: the place of its target
  among the items of its source, in the order the search visits them. Of two paths of
  one length the first to be discovered is the one with the smaller position at the
  first hop where they part.
\<close>

fun item_index :: "(nat \<times> decimal) list \<Rightarrow> nat \<Rightarrow> nat" where
  "item_index [] v = 0"
| "item_index ((neighbor, w) # items) v =
     (if neighbor = v then 0 else Suc (item_index items v))"

fun hop_indices :: "currency_graph \<Rightarrow> nat list \<Rightarrow> nat list" where
  "hop_indices graph [] = []"
| "hop_indices graph [u] = []"
| "hop_indices graph (u # v # rest) =
     item_index (graph_items graph u) v # hop_indices graph (v # rest)"

fun lex_before :: "nat list \<Rightarrow> nat list \<Rightarrow> bool" where
  "lex_before (i # is) (j # js) = (i < j \<or> (i = j \<and> lex_before is js))"
| "lex_before _ _ = False"

definition discovered_before :: "currency_graph \<Rightarrow> nat list \<Rightarrow> nat list \<Rightarrow> bool" where
  "discovered_before graph p q = lex_before (hop_indices graph p) (hop_indices graph q)"

text \<open>The rate composed along a path: the weights multiplied one after the other onto 1.\<close>

definition compose_rate :: "decimal list \<Rightarrow> decimal" where
  "compose_rate ws = foldl dec_mul dec_one ws"

text \<open>
  No product of the run needs more digits than the context keeps: the products are then
  not rounded.
\<close>

fun unrounded :: "decimal \<Rightarrow> decimal list \<Rightarrow> bool" where
  "unrounded acc [] = True"
| "unrounded acc (w # ws) =
     (ndigits (dint acc * dint w) \<le> prec \<and> unrounded (dec_mul acc w) ws)"

text \<open>The items of one round that are not yet visited, each once, in the order met.\<close>

fun unvisited_items :: "nat set \<Rightarrow> (nat \<times> decimal) list \<Rightarrow> (nat \<times> decimal) list" where
  "unvisited_items visited [] = []"
| "unvisited_items visited ((neighbor, r) # items) =
     (if neighbor \<notin> visited then (neighbor, r) # unvisited_items (insert neighbor visited) items
      else unvisited_items visited items)"

subsection \<open>The invariant of the search loop\<close>

text \<open>
  What holds of a queue entry: its node is marked visited, its path leads from the source
  to the node along edges of the graph, its rate is the one composed along the path, and
  no path from the source to the node is shorter.
\<close>

definition entry_ok :: "currency_graph \<Rightarrow> nat \<Rightarrow> nat set \<Rightarrow> nat \<times> nat list \<times> decimal \<Rightarrow> bool" where
  "entry_ok g src visited e =
     (case e of (u, p, r) \<Rightarrow>
        u \<in> visited \<and> is_conversion_path g src u p \<and>
        (\<exists>ws. hop_weights g p = Some ws \<and> r = compose_rate ws) \<and>
        (\<forall>p'. is_conversion_path g src u p' \<longrightarrow> length p \<le> length p'))"

text \<open>
  What holds of \<^verbatim>\<open>visited\<close> and \<^verbatim>\<open>queue\<close> at the head of the loop. The nodes that are
  visited and no longer queued are never the target and have all their neighbours
  visited; every path from the source that is shorter than the path at the head of the
  queue ends in such a node.
\<close>

definition bfs_inv ::
  "currency_graph \<Rightarrow> nat \<Rightarrow> nat \<Rightarrow> nat set \<Rightarrow> (nat \<times> nat list \<times> decimal) list \<Rightarrow> bool" where
  "bfs_inv g src t visited queue =
     (src \<in> visited \<and>
      distinct (map fst queue) \<and>
      sorted (map (\<lambda>e. length (fst (snd e))) queue) \<and>
      (\<forall>e \<in> set queue. length (fst (snd e)) \<le> Suc (length (fst (snd (hd queue))))) \<and>
      (\<forall>e \<in> set queue. entry_ok g src visited e) \<and>
      (\<forall>v \<in> visited - fst ` set queue.
         v \<noteq> t \<and> (\<forall>w. edge_weight g v w \<noteq> None \<longrightarrow> w \<in> visited)) \<and>
      (\<forall>p'. queue \<noteq> [] \<and> hop_weights g p' \<noteq> None \<and> hd p' = src \<and>
            length p' < length (fst (snd (hd queue)))
            \<longrightarrow> last p' \<in> visited - fst ` set queue))"

text \<open>
  What holds of the order of the queue. Entries with paths of one length stand in the
  order of discovery; the path of an entry is discovered before every other path of its
  length from the source to its node; and the entries that are one hop longer than the
  head of the queue were reached from paths discovered before the path at the head.
\<close>

definition bfs_order :: "currency_graph \<Rightarrow> nat \<Rightarrow> (nat \<times> nat list \<times> decimal) list \<Rightarrow> bool" where
  "bfs_order g src queue =
     (sorted_wrt (\<lambda>e e'. length (fst (snd e)) = length (fst (snd e'))
                    \<longrightarrow> discovered_before g (fst (snd e)) (fst (snd e'))) queue \<and>
      (\<forall>e \<in> set queue. \<forall>p'.
         is_conversion_path g src (fst e) p' \<and> length p' = length (fst (snd e)) \<and>
         p' \<noteq> fst (snd e) \<longrightarrow> discovered_before g (fst (snd e)) p') \<and>
      (\<forall>e \<in> set queue.
         length (fst (snd e)) = Suc (length (fst (snd (hd queue))))
         \<longrightarrow> discovered_before g (butlast (fst (snd e))) (fst (snd (hd queue)))))"

section \<open>Properties\<close>

subsection \<open>Decimal multiplication\<close>

text \<open>
  A product whose coefficient fits the precision is not rounded, and then denotes the
  product of the numbers its factors denote.
\<close>

lemma dec_mul_exact:
  assumes "ndigits (dint a * dint b) \<le> prec"
  shows "dec_val (dec_mul a b) = dec_val a * dec_val b"
proof -
  from assms have "dec_mul a b
      = \<lparr>dsign = (dsign a \<noteq> dsign b), dint = dint a * dint b, dexp = dexp a + dexp b\<rparr>"
    by (simp add: dec_mul_def dec_fix_def)
  moreover have "(10::rat) powi (dexp a + dexp b) = 10 powi dexp a * 10 powi dexp b"
    by (simp add: power_int_add)
  ultimately show ?thesis by (simp add: dec_val_def)
qed

lemma foldl_dec_mul_exact:
  "unrounded acc ws \<Longrightarrow> dec_val (foldl dec_mul acc ws) = dec_val acc * prod_list (map dec_val ws)"
  by (induction ws arbitrary: acc) (simp_all add: dec_mul_exact mult.assoc)

lemma compose_rate_exact:
  "unrounded dec_one ws \<Longrightarrow> dec_val (compose_rate ws) = prod_list (map dec_val ws)"
  unfolding compose_rate_def by (simp add: foldl_dec_mul_exact) (simp add: dec_val_def dec_one_def)

subsection \<open>The hour parser and the schedule check\<close>

lemma py_int_error: "py_int s = Inl e \<Longrightarrow> e = ValueError"
  by (auto simp: py_int_def Let_def split: option.splits)

lemma parse_hour_part_eq:
  "parse_hour_part hours part =
     (if token_fault (read_token (py_strip part)) then Inl ValueError
      else Inr (hours \<union> token_hours (read_token (py_strip part))))"
proof (cases "CHR ''-'' \<in> set (py_strip part)")
  case True
  show ?thesis
  proof (cases "py_split CHR ''-'' (py_strip part)")
    case Nil
    with True show ?thesis by (simp add: parse_hour_part_def read_token_def)
  next
    case (Cons a rest)
    show ?thesis
    proof (cases rest)
      case Nil
      with Cons True show ?thesis by (simp add: parse_hour_part_def read_token_def)
    next
      case (Cons b rest')
      show ?thesis
      proof (cases rest')
        case Nil
        with True \<open>py_split CHR ''-'' (py_strip part) = a # rest\<close> \<open>rest = b # rest'\<close>
        show ?thesis
          by (auto simp: parse_hour_part_def read_token_def in_bounds_def
              split: sum.splits dest: py_int_error)
      next
        case (Cons c rest'')
        with True \<open>py_split CHR ''-'' (py_strip part) = a # rest\<close> \<open>rest = b # rest'\<close>
        show ?thesis by (simp add: parse_hour_part_def read_token_def)
      qed
    qed
  qed
next
  case False
  then show ?thesis
    by (auto simp: parse_hour_part_def read_token_def in_bounds_def
        split: sum.splits dest: py_int_error)
qed

lemma parse_hour_parts_eq:
  "parse_hour_parts hours parts =
     (if \<exists>t \<in> set (map py_strip parts). token_fault (read_token t) then Inl ValueError
      else Inr (hours \<union> (\<Union>t \<in> set (map py_strip parts). token_hours (read_token t))))"
proof (induction parts arbitrary: hours)
  case Nil
  then show ?case by simp
next
  case (Cons part parts)
  show ?case
  proof (cases "token_fault (read_token (py_strip part))")
    case True
    then show ?thesis by (simp add: parse_hour_part_eq)
  next
    case False
    then show ?thesis by (auto simp: parse_hour_part_eq Cons.IH)
  qed
qed

lemma parse_hour_ranges_error: "parse_hour_ranges s = Inl e \<Longrightarrow> e = ValueError"
  by (simp add: parse_hour_ranges_def parse_hour_parts_eq split: if_splits)

lemma interval_types_distinct:
  "IntervalType_EVERY \<noteq> IntervalType_NOT_ON" "IntervalType_EVERY \<noteq> IntervalType_ON"
  "IntervalType_ON \<noteq> IntervalType_NOT_ON"
  by (simp_all add: IntervalType_EVERY_def IntervalType_NOT_ON_def IntervalType_ON_def)

text \<open>
  Setting the minute, the second and the microsecond of a \<^verbatim>\<open>datetime\<close> to zero gives the
  start of its hour on the time line.
\<close>

lemma to_microseconds_replace_to_hour:
  assumes "valid_datetime t"
  shows "to_microseconds (replace_to_hour t) = start_of_hour t"
proof -
  let ?h = "ordinal t * 24 + int (hour t)"
  let ?rest = "(int (minute t) * 60 + int (second t)) * 1000000 + int (microsecond t)"
  have split: "to_microseconds t = ?h * 3600000000 + ?rest"
    by (simp add: to_microseconds_def algebra_simps)
  from assms have "0 \<le> ?rest" and "?rest < 3600000000"
    by (simp_all add: valid_datetime_def)
  then have "(?h * 3600000000 + ?rest) div 3600000000 = ?h"
    by (simp add: div_pos_pos_trivial)
  then have "hour_number t = ?h"
    unfolding hour_number_def split .
  then show ?thesis
    by (simp add: start_of_hour_def to_microseconds_def replace_to_hour_def)
qed

lemma hours_since_last_eq:
  assumes "valid_datetime a" and "valid_datetime b"
  shows "total_seconds (dt_sub (replace_to_hour b) (replace_to_hour a)) / 3600
     = of_int (whole_hours_between a b)"
proof -
  have "start_of_hour b - start_of_hour a = (hour_number b - hour_number a) * 3600000000"
    by (simp add: start_of_hour_def algebra_simps)
  then show ?thesis
    by (simp add: total_seconds_def dt_sub_def whole_hours_between_def
        to_microseconds_replace_to_hour assms)
qed

subsection \<open>The rate as its column holds it\<close>

text \<open>
  Rounding half to even moves a number by at most half a unit, and by half a unit only
  to an even number. The rate prepared for the column has 30 decimal places and the sign
  of the rate given; it denotes the same number when the rate given has at most 30
  decimal places, and a number at most half a unit of the 30th place away otherwise, with
  an even last digit when it is exactly half a unit away.
\<close>

lemma round_half_even_near:
  "\<bar>2 * (round_half_even n k * 10 ^ k - n)\<bar> \<le> 10 ^ k"
proof -
  define m :: int where "m = 10 ^ k"
  define q where "q = n div m"
  define r where "r = n mod m"
  have m: "0 < m" by (simp add: m_def)
  have n: "n = q * m + r" unfolding q_def r_def by (rule div_mult_mod_eq [symmetric])
  have r: "0 \<le> r" "r < m" using m by (simp_all add: r_def)
  have rhe: "round_half_even n k = (if m < 2 * r \<or> (2 * r = m \<and> odd q) then q + 1 else q)"
    by (simp add: round_half_even_def Let_def m_def q_def r_def)
  have "\<bar>2 * ((if m < 2 * r \<or> (2 * r = m \<and> odd q) then q + 1 else q) * m - (q * m + r))\<bar> \<le> m"
    using r by (auto simp: algebra_simps)
  with rhe n show ?thesis
    unfolding m_def [symmetric] by simp
qed

lemma dec_quantize_exp:
  "dec_quantize d places digits = Inr q \<Longrightarrow> dexp q = - int places \<and> dsign q = dsign d"
  by (auto simp: dec_quantize_def Let_def split: if_splits)

lemma dec_quantize_exact:
  assumes "dec_quantize d places digits = Inr q" and "- int places \<le> dexp d"
  shows "dec_val q = dec_val d"
proof (cases "dint d = 0")
  case True
  with assms show ?thesis by (auto simp: dec_quantize_def dec_val_def)
next
  case False
  with assms have q: "q = d\<lparr>dint := dint d * 10 ^ nat (dexp d + int places), dexp := - int places\<rparr>"
    by (auto simp: dec_quantize_def Let_def split: if_splits)
  from assms(2) have "int (nat (dexp d + int places)) = dexp d + int places"
    by simp
  then have "(10::rat) ^ nat (dexp d + int places) = 10 powi (dexp d + int places)"
    by (metis power_int_of_nat)
  then have "(10::rat) powi dexp d = 10 ^ nat (dexp d + int places) * 10 powi (- int places)"
    by (simp add: power_int_add [symmetric])
  then show ?thesis
    by (simp add: q dec_val_def)
qed

lemma dec_quantize_near:
  assumes "dec_quantize d places digits = Inr q"
  shows "\<bar>dec_val q - dec_val d\<bar> \<le> 10 powi (- int places) / 2"
proof (cases "- int places \<le> dexp d")
  case True
  with assms have "dec_val q = dec_val d" by (rule dec_quantize_exact)
  then show ?thesis by simp
next
  case False
  show ?thesis
  proof (cases "dint d = 0")
    case True
    with assms show ?thesis by (auto simp: dec_quantize_def dec_val_def)
  next
    case nz: False
    define k where "k = nat (- int places - dexp d)"
    from nz False assms have q: "q = d\<lparr>dint := round_half_even (dint d) k, dexp := - int places\<rparr>"
      by (auto simp: dec_quantize_def Let_def k_def split: if_splits)
    from False have "int k = - int places - dexp d"
      by (simp add: k_def)
    then have "(10::rat) ^ k = 10 powi (- int places - dexp d)"
      by (metis power_int_of_nat)
    then have e: "(10::rat) powi dexp d * 10 ^ k = 10 powi (- int places)"
      by (simp add: power_int_add [symmetric])
    have "\<bar>2 * (round_half_even (dint d) k * 10 ^ k - dint d)\<bar> \<le> 10 ^ k"
      by (rule round_half_even_near)
    then have "(of_int \<bar>2 * (round_half_even (dint d) k * 10 ^ k - dint d)\<bar> :: rat) \<le> of_int (10 ^ k)"
      by (simp only: of_int_le_iff)
    then have near: "\<bar>2 * (of_int (round_half_even (dint d) k) * 10 ^ k - of_int (dint d))\<bar> \<le> (10::rat) ^ k"
      by simp
    have "dec_val q - dec_val d
        = (if dsign d then - 1 else 1) * (of_int (round_half_even (dint d) k) * 10 ^ k - of_int (dint d))
            * 10 powi dexp d"
      by (simp add: q dec_val_def e [symmetric] algebra_simps)
    then have "\<bar>dec_val q - dec_val d\<bar>
        = \<bar>of_int (round_half_even (dint d) k) * 10 ^ k - of_int (dint d)\<bar> * 10 powi dexp d"
      by (simp add: abs_mult)
    also have "\<dots> \<le> (10 ^ k / 2) * 10 powi dexp d"
    proof (intro mult_right_mono)
      from near have "2 * \<bar>of_int (round_half_even (dint d) k) * 10 ^ k - of_int (dint d)\<bar>
          \<le> (10::rat) ^ k"
        by (simp only: abs_mult)
      then show "\<bar>of_int (round_half_even (dint d) k) * 10 ^ k - of_int (dint d)\<bar>
          \<le> (10::rat) ^ k / 2"
        by simp
      show "0 \<le> (10::rat) powi dexp d" by simp
    qed
    also have "\<dots> = 10 powi (- int places) / 2"
      using e by (simp add: algebra_simps)
    finally show ?thesis .
  qed
qed

lemma round_half_even_tie:
  assumes "\<bar>2 * (round_half_even n k * 10 ^ k - n)\<bar> = 10 ^ k"
  shows "even (round_half_even n k)"
proof -
  define m :: int where "m = 10 ^ k"
  define q where "q = n div m"
  define r where "r = n mod m"
  have m: "0 < m" by (simp add: m_def)
  have n: "n = q * m + r" unfolding q_def r_def by (rule div_mult_mod_eq [symmetric])
  have r: "0 \<le> r" "r < m" using m by (simp_all add: r_def)
  have rhe: "round_half_even n k = (if m < 2 * r \<or> (2 * r = m \<and> odd q) then q + 1 else q)"
    by (simp add: round_half_even_def Let_def m_def q_def r_def)
  from assms have "\<bar>2 * ((if m < 2 * r \<or> (2 * r = m \<and> odd q) then q + 1 else q) * m - (q * m + r))\<bar> = m"
    unfolding m_def [symmetric] rhe [symmetric] using n by simp
  with r have "2 * r = m"
    by (auto simp: algebra_simps split: if_splits)
  then show ?thesis
    unfolding rhe by auto
qed

lemma dec_quantize_tie:
  assumes "dec_quantize d places digits = Inr q"
    and "2 * \<bar>dec_val q - dec_val d\<bar> = 10 powi (- int places)"
  shows "even (dint q)"
proof (cases "- int places \<le> dexp d \<or> dint d = 0")
  case True
  have "dec_val q = dec_val d"
  proof (cases "dint d = 0")
    case True
    with assms(1) show ?thesis by (auto simp: dec_quantize_def dec_val_def)
  next
    case False
    with True assms(1) have q: "q = d\<lparr>dint := dint d * 10 ^ nat (dexp d + int places), dexp := - int places\<rparr>"
      by (auto simp: dec_quantize_def Let_def split: if_splits)
    from True False have "int (nat (dexp d + int places)) = dexp d + int places"
      by simp
    then have "(10::rat) ^ nat (dexp d + int places) = 10 powi (dexp d + int places)"
      by (metis power_int_of_nat)
    then have "(10::rat) powi dexp d = 10 ^ nat (dexp d + int places) * 10 powi (- int places)"
      by (simp add: power_int_add [symmetric])
    then show ?thesis
      by (simp add: q dec_val_def)
  qed
  with assms(2) have "(10::rat) powi (- int places) = 0" by simp
  then show ?thesis by simp
next
  case False
  define k where "k = nat (- int places - dexp d)"
  from False assms(1) have q: "q = d\<lparr>dint := round_half_even (dint d) k, dexp := - int places\<rparr>"
    by (auto simp: dec_quantize_def Let_def k_def split: if_splits)
  from False have "int k = - int places - dexp d"
    by (simp add: k_def)
  then have "(10::rat) ^ k = 10 powi (- int places - dexp d)"
    by (metis power_int_of_nat)
  then have e: "(10::rat) powi dexp d * 10 ^ k = 10 powi (- int places)"
    by (simp add: power_int_add [symmetric])
  have pos: "0 < (10::rat) powi dexp d" by simp
  have "dec_val q - dec_val d
      = (if dsign d then - 1 else 1) * (of_int (round_half_even (dint d) k) * 10 ^ k - of_int (dint d))
          * 10 powi dexp d"
    by (simp add: q dec_val_def e [symmetric] algebra_simps)
  then have "\<bar>dec_val q - dec_val d\<bar>
      = \<bar>of_int (round_half_even (dint d) k) * 10 ^ k - of_int (dint d)\<bar> * 10 powi dexp d"
    by (simp add: abs_mult)
  with assms(2) have "2 * \<bar>of_int (round_half_even (dint d) k) * 10 ^ k - of_int (dint d)\<bar> * 10 powi dexp d
      = (10::rat) ^ k * 10 powi dexp d"
    using e by (simp add: algebra_simps)
  with pos have "2 * \<bar>of_int (round_half_even (dint d) k) * 10 ^ k - of_int (dint d)\<bar> = (10::rat) ^ k"
    by simp
  then have "\<bar>2 * (of_int (round_half_even (dint d) k) * 10 ^ k - of_int (dint d))\<bar> = (10::rat) ^ k"
    by (simp only: abs_mult)
  then have "(of_int \<bar>2 * (round_half_even (dint d) k * 10 ^ k - dint d)\<bar> :: rat) = of_int (10 ^ k)"
    by simp
  then have "\<bar>2 * (round_half_even (dint d) k * 10 ^ k - dint d)\<bar> = 10 ^ k"
    by (simp only: of_int_eq_iff)
  then have "even (round_half_even (dint d) k)"
    by (rule round_half_even_tie)
  then show ?thesis by (simp add: q)
qed

lemma rate_get_db_prep_save_props:
  assumes "rate_get_db_prep_save r = Inr q"
  shows "dexp q = - 30" and "dsign q = dsign r"
    and "- 30 \<le> dexp r \<Longrightarrow> dec_val q = dec_val r"
    and "\<bar>dec_val q - dec_val r\<bar> \<le> 10 powi (- 30) / 2"
    and "2 * \<bar>dec_val q - dec_val r\<bar> = 10 powi (- 30) \<Longrightarrow> even (dint q)"
proof -
  from assms have quant: "dec_quantize r 30 42 = Inr q"
    by (simp add: rate_get_db_prep_save_def format_number_def rate_max_digits_def
        rate_decimal_places_def)
  from dec_quantize_exp [OF quant] show "dexp q = - 30" and "dsign q = dsign r"
    by simp_all
  from dec_quantize_exact [OF quant] show "- 30 \<le> dexp r \<Longrightarrow> dec_val q = dec_val r"
    by simp
  from dec_quantize_near [OF quant] show "\<bar>dec_val q - dec_val r\<bar> \<le> 10 powi (- 30) / 2"
    by simp
  from dec_quantize_tie [OF quant]
  show "2 * \<bar>dec_val q - dec_val r\<bar> = 10 powi (- 30) \<Longrightarrow> even (dint q)"
    by simp
qed

lemma rate_get_db_prep_save_error: "rate_get_db_prep_save r = Inl e \<Longrightarrow> e = InvalidOperation"
  by (auto simp: rate_get_db_prep_save_def format_number_def dec_quantize_def Let_def
      split: if_splits)

subsection \<open>The rate-storing loop\<close>

lemma filter_automatic_iff:
  "i \<in> set (filter_automatic rows f t) \<longleftrightarrow>
     i < length rows \<and> automatic (rows ! i) \<and>
     from_currency_id (rows ! i) = f \<and> to_currency_id (rows ! i) = t"
  by (auto simp: filter_automatic_def)

lemma latest_of_member: "latest_of rows best is \<in> set (best # is)"
  by (induction "is" arbitrary: best) auto

lemma latest_of_latest:
  "j \<in> set (best # is) \<Longrightarrow>
     to_microseconds (date (rows ! j))
       \<le> to_microseconds (date (rows ! latest_of rows best is))"
proof (induction "is" arbitrary: best j)
  case Nil
  then show ?case by simp
next
  case (Cons i "is")
  let ?best' = "if to_microseconds (date (rows ! best)) < to_microseconds (date (rows ! i))
        then i else best"
  have step: "to_microseconds (date (rows ! k))
       \<le> to_microseconds (date (rows ! latest_of rows ?best' is))" if "k \<in> set (?best' # is)" for k
    using that by (rule Cons.IH)
  have best': "to_microseconds (date (rows ! ?best'))
       \<le> to_microseconds (date (rows ! latest_of rows ?best' is))"
    by (rule step) simp
  from Cons.prems consider "j = best" | "j = i" | "j \<in> set is" by auto
  then show ?case
  proof cases
    case 1
    with best' show ?thesis by (simp split: if_splits)
  next
    case 2
    with best' show ?thesis by (simp split: if_splits)
  next
    case 3
    with step [of j] show ?thesis by simp
  qed
qed

lemma order_by_date_desc_first_Some:
  assumes "order_by_date_desc_first rows is = Some i"
  shows "i \<in> set is"
    and "\<forall>j \<in> set is. to_microseconds (date (rows ! j)) \<le> to_microseconds (date (rows ! i))"
proof -
  from assms obtain k rest where "is": "is = k # rest" and i: "i = latest_of rows k rest"
    by (auto simp: order_by_date_desc_first_def split: list.splits)
  show "i \<in> set is"
    unfolding "is" i by (rule latest_of_member)
  show "\<forall>j \<in> set is. to_microseconds (date (rows ! j)) \<le> to_microseconds (date (rows ! i))"
    unfolding "is" i using latest_of_latest by blast
qed

lemma order_by_date_desc_first_None: "order_by_date_desc_first rows is = None \<longleftrightarrow> is = []"
  by (simp add: order_by_date_desc_first_def split: list.splits)

lemma store_rate_create:
  assumes "store_rate clock False st f t r = Inr st'"
  shows "\<exists>q. rate_get_db_prep_save r = Inr q \<and>
           table st' = table st @ [\<lparr>from_currency_id = f, to_currency_id = t, rate = q,
             date = clock (ticks st), automatic = True\<rparr>]"
  using assms
  by (auto simp: store_rate_def objects_create_def Let_def split: if_splits sum.splits)

lemma store_rate_singleton:
  assumes "store_rate clock True st f t r = Inr st'"
  shows "\<exists>q. rate_get_db_prep_save r = Inr q \<and>
         ((filter_automatic (table st) f t = [] \<and>
           table st' = table st @ [\<lparr>from_currency_id = f, to_currency_id = t, rate = q,
             date = clock (ticks st), automatic = True\<rparr>]) \<or>
          (\<exists>i \<in> set (filter_automatic (table st) f t).
             (\<forall>j \<in> set (filter_automatic (table st) f t).
                to_microseconds (date (table st ! j)) \<le> to_microseconds (date (table st ! i))) \<and>
             table st' = (table st)[i := (table st ! i)\<lparr>rate := q, date := clock (ticks st)\<rparr>]))"
proof (cases "order_by_date_desc_first (table st) (filter_automatic (table st) f t)")
  case None
  then have "filter_automatic (table st) f t = []"
    by (simp add: order_by_date_desc_first_None)
  moreover from assms None
  have "\<exists>q. rate_get_db_prep_save r = Inr q \<and>
      table st' = table st @ [\<lparr>from_currency_id = f, to_currency_id = t, rate = q,
            date = clock (ticks st), automatic = True\<rparr>]"
    by (auto simp: store_rate_def objects_create_def Let_def split: if_splits sum.splits)
  ultimately show ?thesis by blast
next
  case (Some i)
  have swap: "(table st ! i)\<lparr>date := clock (ticks st), rate := q\<rparr>
      = (table st ! i)\<lparr>rate := q, date := clock (ticks st)\<rparr>" for q
    by (cases "table st ! i") simp
  from assms Some
  have "\<exists>q. rate_get_db_prep_save r = Inr q \<and>
      table st' = (table st)[i := (table st ! i)\<lparr>date := clock (ticks st), rate := q\<rparr>]"
    by (auto simp: store_rate_def save_row_def Let_def split: if_splits sum.splits)
  then have "\<exists>q. rate_get_db_prep_save r = Inr q \<and>
      table st' = (table st)[i := (table st ! i)\<lparr>rate := q, date := clock (ticks st)\<rparr>]"
    unfolding swap .
  with order_by_date_desc_first_Some [OF Some] show ?thesis by blast
qed

text \<open>
  Storing raises the exception of the column when the rate does not fit it. It succeeds
  when the rate fits and the moment of storing is later than the date of every row that
  the table already holds for the pair: no row can then have the key of the row written.
\<close>

lemma store_rate_unfit:
  assumes "rate_get_db_prep_save r = Inl e"
  shows "store_rate clock sing st f t r = Inl e"
  using assms
  by (simp add: store_rate_def objects_create_def save_row_def Let_def split: option.splits)

lemma store_rate_succeeds:
  assumes fit: "rate_get_db_prep_save r = Inr q"
    and fresh: "\<forall>x \<in> set (table st). from_currency_id x = f \<and> to_currency_id x = t
      \<longrightarrow> to_microseconds (date x) < to_microseconds (clock (ticks st))"
  shows "\<exists>st'. store_rate clock sing st f t r = Inr st'"
proof (cases "if sing then order_by_date_desc_first (table st) (filter_automatic (table st) f t)
              else None")
  case None
  have "\<not> (\<exists>x \<in> set (table st). same_key x \<lparr>from_currency_id = f, to_currency_id = t, rate = r,
            date = clock (ticks st), automatic = True\<rparr>)"
    using fresh by (auto simp: same_key_def)
  with None fit show ?thesis
    by (simp add: store_rate_def objects_create_def Let_def)
next
  case (Some i)
  then have "order_by_date_desc_first (table st) (filter_automatic (table st) f t) = Some i"
    by (simp split: if_splits)
  from order_by_date_desc_first_Some(1) [OF this]
  have i: "from_currency_id (table st ! i) = f" "to_currency_id (table st ! i) = t"
    by (simp_all add: filter_automatic_iff)
  have "\<not> (\<exists>j \<in> set [0..<length (table st)]. j \<noteq> i \<and>
          same_key (table st ! j) ((table st ! i)\<lparr>rate := r, date := clock (ticks st)\<rparr>))"
  proof
    assume "\<exists>j \<in> set [0..<length (table st)]. j \<noteq> i \<and>
          same_key (table st ! j) ((table st ! i)\<lparr>rate := r, date := clock (ticks st)\<rparr>)"
    then obtain j where j: "j < length (table st)"
      and same: "same_key (table st ! j) ((table st ! i)\<lparr>rate := r, date := clock (ticks st)\<rparr>)"
      by auto
    from j have "table st ! j \<in> set (table st)" by simp
    with fresh same i show False by (auto simp: same_key_def)
  qed
  with Some fit show ?thesis
    by (simp add: store_rate_def save_row_def Let_def)
qed

lemma pair_count_append:
  "pair_count (rows @ [x]) f t =
     pair_count rows f t + (if from_currency_id x = f \<and> to_currency_id x = t then 1 else 0)"
  by (simp add: pair_count_def)

lemma pair_count_update:
  assumes "i < length rows"
    and "from_currency_id x = from_currency_id (rows ! i)"
    and "to_currency_id x = to_currency_id (rows ! i)"
  shows "pair_count (rows[i := x]) f t = pair_count rows f t"
proof -
  have "map (\<lambda>x. from_currency_id x = f \<and> to_currency_id x = t) (rows[i := x])
      = map (\<lambda>x. from_currency_id x = f \<and> to_currency_id x = t) rows"
    using assms by (simp add: map_update list_update_same_conv)
  then have "length (filter id (map (\<lambda>x. from_currency_id x = f \<and> to_currency_id x = t) (rows[i := x])))
      = length (filter id (map (\<lambda>x. from_currency_id x = f \<and> to_currency_id x = t) rows))"
    by simp
  then show ?thesis
    by (simp add: pair_count_def filter_map comp_def)
qed

text \<open>
  What the set \<^verbatim>\<open>processed_pairs\<close> does. A tuple whose pair is in the set is skipped.
  Without inverted rates a stored tuple puts its own pair into the set, so a later tuple
  for the same pair is skipped. With inverted rates the swapped pair goes into the set,
  and the pair of the tuple itself stays out of it.
\<close>

lemma process_rate_skip:
  "(cid a, cid b) \<in> processed_pairs st \<Longrightarrow> process_rate clock inverted sing st (a, b, r) = Inr st"
  by (simp add: process_rate_def)

lemma store_rate_processed:
  "store_rate clock sing st f t r = Inr st' \<Longrightarrow> processed_pairs st' = insert (f, t) (processed_pairs st)"
  by (auto simp: store_rate_def Let_def split: sum.splits)

lemma process_rate_processed_mono:
  "process_rate clock inverted sing st tup = Inr st' \<Longrightarrow> processed_pairs st \<subseteq> processed_pairs st'"
  by (cases tup) (auto simp: process_rate_def split: if_splits dest: store_rate_processed)

lemma process_rates_processed_mono:
  "process_rates clock inverted sing st rates = (e, st') \<Longrightarrow> processed_pairs st \<subseteq> processed_pairs st'"
proof (induction rates arbitrary: st)
  case Nil
  then show ?case by simp
next
  case (Cons tup rates)
  show ?case
  proof (cases "process_rate clock inverted sing st tup")
    case (Inl err)
    with Cons.prems show ?thesis by simp
  next
    case (Inr st1)
    with Cons.prems have "process_rates clock inverted sing st1 rates = (e, st')" by simp
    from Cons.IH [OF this] process_rate_processed_mono [OF Inr] show ?thesis by blast
  qed
qed

lemma not_inverted_duplicate_skipped:
  assumes "process_rate clock False sing st (a, b, r) = Inr st1"
    and "process_rates clock False sing st1 rates = (e, st2)"
    and "cid a' = cid a" and "cid b' = cid b"
  shows "process_rate clock False sing st2 (a', b', r') = Inr st2"
proof -
  from assms(1) have "(cid a, cid b) \<in> processed_pairs st1"
    by (auto simp: process_rate_def split: if_splits dest: store_rate_processed)
  with process_rates_processed_mono [OF assms(2)] have "(cid a', cid b') \<in> processed_pairs st2"
    using assms(3,4) by auto
  then show ?thesis by (rule process_rate_skip)
qed

lemma inverted_pair_key_not_recorded:
  assumes "process_rate clock True sing st (a, b, r) = Inr st'"
    and "(cid a, cid b) \<notin> processed_pairs st" and "cid a \<noteq> cid b"
  shows "(cid a, cid b) \<notin> processed_pairs st'"
  using assms by (auto simp: process_rate_def dest: store_rate_processed)

subsection \<open>Graph construction\<close>

lemma graph_items_update:
  "graph_items (AList.update a adj g) x = (if x = a then adj else graph_items g x)"
  by (simp add: graph_items_def update_conv')

lemma graph_items_set_edge:
  "graph_items (set_edge g a b w) x =
     (if x = a then AList.update b w (graph_items g a) else graph_items g x)"
  by (cases "map_of g a") (simp_all add: set_edge_def graph_items_update, simp_all add: graph_items_def)

lemma edge_weight_set_edge:
  "edge_weight (set_edge g a b w) x y = (if x = a \<and> y = b then Some w else edge_weight g x y)"
  by (simp add: edge_weight_def graph_items_set_edge update_conv')

lemma dec_truediv_one:
  "dec_truediv dec_one d = Inl e \<longleftrightarrow> dint d = 0 \<and> e = DivisionByZero"
  by (auto simp: dec_truediv_def dec_one_def Let_def)

lemma find_snoc:
  "find P (xs @ [x]) = (case find P xs of None \<Rightarrow> (if P x then Some x else None) | Some z \<Rightarrow> Some z)"
  by (induction xs) auto

lemma last_edge_Cons:
  "last_edge (r # rates) x y =
     (case last_edge rates x y of None \<Rightarrow> record_edge r x y | Some w \<Rightarrow> Some w)"
proof (cases "find (\<lambda>r. record_edge r x y \<noteq> None) (rev rates)")
  case None
  then show ?thesis by (auto simp: last_edge_def find_snoc)
next
  case (Some z)
  then have "record_edge z x y \<noteq> None" by (auto simp: find_Some_iff)
  with Some show ?thesis by (auto simp: last_edge_def find_snoc)
qed

lemma build_graph_loop_edges:
  "build_graph_loop g rates = Inr g' \<Longrightarrow>
     edge_weight g' x y = (case last_edge rates x y of None \<Rightarrow> edge_weight g x y | Some w \<Rightarrow> Some w)"
proof (induction rates arbitrary: g)
  case Nil
  then show ?case by (simp add: last_edge_def)
next
  case (Cons r rates)
  from Cons.prems obtain w where w: "dec_truediv dec_one (rate r) = Inr w"
    and run: "build_graph_loop
        (set_edge (set_edge g (from_currency_id r) (to_currency_id r) (rate r))
           (to_currency_id r) (from_currency_id r) w) rates = Inr g'"
    by (auto simp: Let_def split: sum.splits)
  have "edge_weight (set_edge (set_edge g (from_currency_id r) (to_currency_id r) (rate r))
           (to_currency_id r) (from_currency_id r) w) x y
      = (case record_edge r x y of None \<Rightarrow> edge_weight g x y | Some v \<Rightarrow> Some v)"
    by (simp add: edge_weight_set_edge record_edge_def w)
  with Cons.IH [OF run] show ?case
    by (simp add: last_edge_Cons split: option.splits)
qed

lemma build_graph_loop_total:
  "(\<forall>r \<in> set rates. dint (rate r) \<noteq> 0) \<Longrightarrow> \<exists>g'. build_graph_loop g rates = Inr g'"
proof (induction rates arbitrary: g)
  case Nil
  then show ?case by simp
next
  case (Cons r rates)
  then have "dint (rate r) \<noteq> 0" by simp
  then obtain w where "dec_truediv dec_one (rate r) = Inr w"
    using dec_truediv_one [of "rate r"] by (cases "dec_truediv dec_one (rate r)") auto
  with Cons show ?case by (simp add: Let_def)
qed

lemma build_graph_loop_zero:
  "\<exists>r \<in> set rates. dint (rate r) = 0 \<Longrightarrow> build_graph_loop g rates = Inl DivisionByZero"
proof (induction rates arbitrary: g)
  case Nil
  then show ?case by simp
next
  case (Cons r rates)
  show ?case
  proof (cases "dint (rate r) = 0")
    case True
    then have "dec_truediv dec_one (rate r) = Inl DivisionByZero"
      using dec_truediv_one [of "rate r" DivisionByZero] by simp
    then show ?thesis by (simp add: Let_def)
  next
    case False
    then obtain w where "dec_truediv dec_one (rate r) = Inr w"
      using dec_truediv_one [of "rate r"] by (cases "dec_truediv dec_one (rate r)") auto
    moreover from False Cons.prems have "\<exists>r \<in> set rates. dint (rate r) = 0" by simp
    ultimately show ?thesis using Cons.IH by (simp add: Let_def)
  qed
qed

lemma record_edge_own:
  "dec_truediv dec_one (rate r) = Inr w \<Longrightarrow>
     record_edge r (from_currency_id r) (to_currency_id r) \<noteq> None \<and>
     record_edge r (to_currency_id r) (from_currency_id r) = Some w"
  by (simp add: record_edge_def)

lemma last_edge_member:
  "r \<in> set rates \<Longrightarrow> record_edge r x y \<noteq> None \<Longrightarrow> last_edge rates x y \<noteq> None"
  by (induction rates) (auto simp: last_edge_Cons split: option.splits)

subsection \<open>The search loop\<close>

lemma visit_neighbors_eq:
  "visit_neighbors p r items (vis, q) =
     (vis \<union> fst ` set items,
      q @ map (\<lambda>(nb, w). (nb, p @ [nb], dec_mul r w)) (unvisited_items vis items))"
  by (induction items arbitrary: vis q) auto

lemma unvisited_items_fst: "fst ` set (unvisited_items vis items) = fst ` set items - vis"
  by (induction vis items rule: unvisited_items.induct) auto

lemma unvisited_items_distinct: "distinct (map fst (unvisited_items vis items))"
proof (induction vis items rule: unvisited_items.induct)
  case (1 visited)
  then show ?case by simp
next
  case (2 visited neighbor r items)
  have "neighbor \<notin> fst ` set (unvisited_items (insert neighbor visited) items)"
    by (simp add: unvisited_items_fst)
  with 2 show ?case by simp
qed

lemma unvisited_items_map_of:
  "(nb, w) \<in> set (unvisited_items vis items) \<Longrightarrow> map_of items nb = Some w"
proof (induction vis items rule: unvisited_items.induct)
  case (1 visited)
  then show ?case by simp
next
  case (2 visited neighbor r items)
  show ?case
  proof (cases "nb = neighbor")
    case True
    have "neighbor \<notin> fst ` set (unvisited_items (insert neighbor visited) items)"
      by (simp add: unvisited_items_fst)
    moreover have "neighbor \<in> visited \<Longrightarrow> neighbor \<notin> fst ` set (unvisited_items visited items)"
      by (simp add: unvisited_items_fst)
    ultimately show ?thesis using "2.prems" True
      by (force split: if_splits)
  next
    case False
    with 2 show ?thesis by (auto split: if_splits)
  qed
qed

lemma lex_before_trans: "lex_before xs ys \<Longrightarrow> lex_before ys zs \<Longrightarrow> lex_before xs zs"
proof (induction xs ys arbitrary: zs rule: lex_before.induct)
  case (1 i "is" j js)
  then show ?case by (cases zs) auto
qed simp_all

lemma lex_before_append: "lex_before xs ys \<Longrightarrow> lex_before (xs @ as) (ys @ bs)"
  by (induction xs ys rule: lex_before.induct) auto

lemma lex_before_snoc: "lex_before (xs @ [a]) (xs @ [b]) \<longleftrightarrow> a < b"
  by (induction xs) auto

lemma hop_indices_snoc:
  "xs \<noteq> [] \<Longrightarrow>
     hop_indices g (xs @ [v]) = hop_indices g xs @ [item_index (graph_items g (last xs)) v]"
  by (induction g xs rule: hop_indices.induct) auto

lemma discovered_before_trans:
  "discovered_before g p q \<Longrightarrow> discovered_before g q s \<Longrightarrow> discovered_before g p s"
  unfolding discovered_before_def by (rule lex_before_trans)

lemma discovered_before_snoc:
  "discovered_before g p q \<Longrightarrow> p \<noteq> [] \<Longrightarrow> q \<noteq> []
     \<Longrightarrow> discovered_before g (p @ [v]) (q @ [w])"
  unfolding discovered_before_def by (simp add: hop_indices_snoc lex_before_append)

lemma discovered_before_same_prefix:
  "p \<noteq> [] \<Longrightarrow> discovered_before g (p @ [v]) (p @ [w])
     \<longleftrightarrow> item_index (graph_items g (last p)) v < item_index (graph_items g (last p)) w"
  unfolding discovered_before_def by (simp add: hop_indices_snoc lex_before_snoc)

lemma unvisited_items_sorted:
  "sorted_wrt (\<lambda>x y. item_index items (fst x) < item_index items (fst y))
     (unvisited_items vis items)"
proof (induction vis items rule: unvisited_items.induct)
  case (1 visited)
  then show ?case by simp
next
  case (2 visited neighbor r items)
  have shift: "sorted_wrt (\<lambda>x y. item_index ((neighbor, r) # items) (fst x)
                  < item_index ((neighbor, r) # items) (fst y)) (unvisited_items vis' items)"
    if "sorted_wrt (\<lambda>x y. item_index items (fst x) < item_index items (fst y))
          (unvisited_items vis' items)" and "neighbor \<in> vis'" for vis'
  proof (rule sorted_wrt_mono_rel [OF _ that(1)])
    fix x y
    assume "x \<in> set (unvisited_items vis' items)" and "y \<in> set (unvisited_items vis' items)"
      and lt: "item_index items (fst x) < item_index items (fst y)"
    then have "fst x \<in> fst ` set (unvisited_items vis' items)"
      and "fst y \<in> fst ` set (unvisited_items vis' items)"
      by auto
    with that(2) have "fst x \<noteq> neighbor" "fst y \<noteq> neighbor"
      by (auto simp: unvisited_items_fst)
    with lt show "item_index ((neighbor, r) # items) (fst x)
        < item_index ((neighbor, r) # items) (fst y)"
      by simp
  qed
  show ?case
  proof (cases "neighbor \<in> visited")
    case True
    with 2 shift [of visited] show ?thesis by simp
  next
    case False
    have "item_index ((neighbor, r) # items) neighbor
        < item_index ((neighbor, r) # items) (fst y)"
      if "y \<in> set (unvisited_items (insert neighbor visited) items)" for y
    proof -
      from that have "fst y \<in> fst ` set (unvisited_items (insert neighbor visited) items)"
        by auto
      then have "fst y \<noteq> neighbor" by (auto simp: unvisited_items_fst)
      then show ?thesis by simp
    qed
    with False 2 shift [of "insert neighbor visited"] show ?thesis by simp
  qed
qed

lemma hop_weights_snoc:
  "hop_weights g p = Some ws \<Longrightarrow> edge_weight g (last p) v = Some w
     \<Longrightarrow> hop_weights g (p @ [v]) = Some (ws @ [w])"
proof (induction g p arbitrary: ws rule: hop_weights.induct)
  case (1 graph)
  then show ?case by simp
next
  case (2 graph u)
  then show ?case by simp
next
  case (3 graph u x rest)
  then show ?case by (auto split: option.splits)
qed

lemma hop_weights_butlast:
  "hop_weights g (p @ [v]) \<noteq> None \<Longrightarrow> p \<noteq> []
     \<Longrightarrow> hop_weights g p \<noteq> None \<and> edge_weight g (last p) v \<noteq> None"
proof (induction g p rule: hop_weights.induct)
  case (1 graph)
  then show ?case by simp
next
  case (2 graph u)
  then show ?case by (auto split: option.splits)
next
  case (3 graph u x rest)
  then show ?case by (auto split: option.splits)
qed

lemma compose_rate_snoc: "compose_rate (ws @ [w]) = dec_mul (compose_rate ws) w"
  by (simp add: compose_rate_def)

lemma edge_weight_items: "(edge_weight g u v \<noteq> None) = (v \<in> fst ` set (graph_items g u))"
  by (simp add: edge_weight_def map_of_eq_None_iff)

lemma bfs_invD:
  assumes "bfs_inv g src t visited queue"
  shows "src \<in> visited"
    and "distinct (map fst queue)"
    and "sorted (map (\<lambda>e. length (fst (snd e))) queue)"
    and "\<forall>e \<in> set queue. length (fst (snd e)) \<le> Suc (length (fst (snd (hd queue))))"
    and "\<forall>e \<in> set queue. entry_ok g src visited e"
    and "\<forall>v \<in> visited - fst ` set queue.
         v \<noteq> t \<and> (\<forall>w. edge_weight g v w \<noteq> None \<longrightarrow> w \<in> visited)"
    and "\<forall>p'. queue \<noteq> [] \<and> hop_weights g p' \<noteq> None \<and> hd p' = src \<and>
            length p' < length (fst (snd (hd queue)))
            \<longrightarrow> last p' \<in> visited - fst ` set queue"
  using assms unfolding bfs_inv_def by blast+

lemma bfs_invI:
  assumes "src \<in> visited"
    and "distinct (map fst queue)"
    and "sorted (map (\<lambda>e. length (fst (snd e))) queue)"
    and "\<forall>e \<in> set queue. length (fst (snd e)) \<le> Suc (length (fst (snd (hd queue))))"
    and "\<forall>e \<in> set queue. entry_ok g src visited e"
    and "\<forall>v \<in> visited - fst ` set queue.
         v \<noteq> t \<and> (\<forall>w. edge_weight g v w \<noteq> None \<longrightarrow> w \<in> visited)"
    and "\<forall>p'. queue \<noteq> [] \<and> hop_weights g p' \<noteq> None \<and> hd p' = src \<and>
            length p' < length (fst (snd (hd queue)))
            \<longrightarrow> last p' \<in> visited - fst ` set queue"
  shows "bfs_inv g src t visited queue"
  unfolding bfs_inv_def using assms by blast

lemma bfs_inv_ConsD:
  assumes inv: "bfs_inv g src t visited ((u, p, r) # q)"
  shows "src \<in> visited"
    and "distinct (u # map fst q)"
    and "sorted (length p # map (\<lambda>e. length (fst (snd e))) q)"
    and "\<forall>e \<in> set q. length (fst (snd e)) \<le> Suc (length p)"
    and "entry_ok g src visited (u, p, r)"
    and "\<forall>e \<in> set q. entry_ok g src visited e"
    and "\<forall>v \<in> visited - insert u (fst ` set q).
         v \<noteq> t \<and> (\<forall>w. edge_weight g v w \<noteq> None \<longrightarrow> w \<in> visited)"
    and "\<forall>p'. hop_weights g p' \<noteq> None \<and> hd p' = src \<and> length p' < length p
            \<longrightarrow> last p' \<in> visited - insert u (fst ` set q)"
proof -
  note D = bfs_invD [OF inv]
  from D(1) show "src \<in> visited" .
  from D(2) show "distinct (u # map fst q)" by simp
  from D(3) show "sorted (length p # map (\<lambda>e. length (fst (snd e))) q)" by simp
  from D(4) show "\<forall>e \<in> set q. length (fst (snd e)) \<le> Suc (length p)" by simp
  from D(5) show "entry_ok g src visited (u, p, r)"
    and "\<forall>e \<in> set q. entry_ok g src visited e" by simp_all
  have done_old: "visited - fst ` set ((u, p, r) # q) = visited - insert u (fst ` set q)"
    by simp
  from D(6) show "\<forall>v \<in> visited - insert u (fst ` set q).
         v \<noteq> t \<and> (\<forall>w. edge_weight g v w \<noteq> None \<longrightarrow> w \<in> visited)"
    unfolding done_old .
  from D(7) show "\<forall>p'. hop_weights g p' \<noteq> None \<and> hd p' = src \<and> length p' < length p
            \<longrightarrow> last p' \<in> visited - insert u (fst ` set q)" by simp
qed

text \<open>A path from the source that is no longer than the path at the head of the queue
  ends in a visited node.\<close>

lemma bfs_inv_reach:
  assumes inv: "bfs_inv g src t visited ((u, p, r) # q)"
    and hw: "hop_weights g p' \<noteq> None" and hd': "hd p' = src" and len: "length p' \<le> length p"
  shows "last p' \<in> visited"
proof (cases "length p' < length p")
  case True
  with bfs_inv_ConsD(8) [OF inv] hw hd' show ?thesis by blast
next
  case False
  note src = bfs_inv_ConsD(1) [OF inv] and closed = bfs_inv_ConsD(7) [OF inv]
    and short = bfs_inv_ConsD(8) [OF inv]
  from False len have eq: "length p' = length p" by simp
  from hw have "p' \<noteq> []" by auto
  then obtain p'' v where p': "p' = p'' @ [v]" by (metis rev_exhaust)
  show ?thesis
  proof (cases "p'' = []")
    case True
    with p' hd' src show ?thesis by simp
  next
    case False
    with hw p' have hw'': "hop_weights g p'' \<noteq> None" and e: "edge_weight g (last p'') v \<noteq> None"
      using hop_weights_butlast by blast+
    from False p' hd' have "hd p'' = src" by simp
    moreover from p' eq have "length p'' < length p" by simp
    ultimately have "last p'' \<in> visited - insert u (fst ` set q)"
      using short hw'' by blast
    with closed e have "v \<in> visited" by blast
    with p' show ?thesis by simp
  qed
qed

lemma bfs_inv_step:
  assumes inv: "bfs_inv g src t visited ((u, p, r) # q)"
    and ne: "u \<noteq> t"
    and run: "visit_neighbors p r (graph_items g u) (visited, q) = (vis', q')"
  shows "bfs_inv g src t vis' q'"
proof -
  define news where "news = unvisited_items visited (graph_items g u)"
  define new where "new = map (\<lambda>(nb, w). (nb, p @ [nb], dec_mul r w)) news"
  from run have vis': "vis' = visited \<union> fst ` set (graph_items g u)" and q': "q' = q @ new"
    by (simp_all add: visit_neighbors_eq new_def news_def)
  have new_fst: "fst ` set new = fst ` set (graph_items g u) - visited"
    unfolding new_def news_def
    by (simp add: unvisited_items_fst [symmetric] image_image case_prod_beta)
  have new_map_fst: "map fst new = map fst news"
    unfolding new_def by (simp add: case_prod_beta)
  have new_len: "length (fst (snd e)) = Suc (length p)" if "e \<in> set new" for e
    using that unfolding new_def by auto
  note D = bfs_inv_ConsD [OF inv]
  note src = D(1) and dist = D(2) and srt = D(3) and bound = D(4) and head = D(5)
    and entries = D(6) and closed = D(7) and short = D(8)
  from head obtain ws where u_vis: "u \<in> visited" and p_path: "is_conversion_path g src u p"
    and ws: "hop_weights g p = Some ws" and r: "r = compose_rate ws"
    unfolding entry_ok_def by auto
  from p_path have p_ne: "p \<noteq> []" and hd_p: "hd p = src" and last_p: "last p = u"
    unfolding is_conversion_path_def by auto
  have q_vis: "fst ` set q \<subseteq> visited"
    using entries unfolding entry_ok_def by auto
  note reach = bfs_inv_reach [OF inv]
  have 1: "src \<in> vis'"
    using src vis' by simp
  have 2: "distinct (map fst q')"
  proof -
    have "distinct (map fst new)"
      unfolding new_map_fst news_def by (rule unvisited_items_distinct)
    moreover have "fst ` set q \<inter> fst ` set new = {}"
      using q_vis new_fst by auto
    ultimately show ?thesis using dist q' by simp
  qed
  have "map (\<lambda>e. length (fst (snd e))) new = replicate (length new) (Suc (length p))"
    unfolding new_def by (simp add: map_replicate_const case_prod_beta comp_def)
  then have "sorted (map (\<lambda>e. length (fst (snd e))) new)"
    by (simp add: sorted_replicate)
  then have 3: "sorted (map (\<lambda>e. length (fst (snd e))) q')"
    using srt bound new_len unfolding q' by (auto simp: sorted_append)
  have lower: "length p \<le> length (fst (snd e))" if "e \<in> set q'" for e
  proof -
    from that consider "e \<in> set q" | "e \<in> set new" unfolding q' by auto
    then show ?thesis
    proof cases
      case 1
      with srt show ?thesis by simp
    next
      case 2
      from new_len [OF this] show ?thesis by simp
    qed
  qed
  have upper: "length (fst (snd e)) \<le> Suc (length p)" if "e \<in> set q'" for e
  proof -
    from that consider "e \<in> set q" | "e \<in> set new" unfolding q' by auto
    then show ?thesis
    proof cases
      case 1
      with bound show ?thesis by simp
    next
      case 2
      from new_len [OF this] show ?thesis by simp
    qed
  qed
  have 4: "\<forall>e \<in> set q'. length (fst (snd e)) \<le> Suc (length (fst (snd (hd q'))))"
  proof
    fix e assume e: "e \<in> set q'"
    then have "q' \<noteq> []" by auto
    then have "hd q' \<in> set q'" by simp
    from lower [OF this] upper [OF e] show "length (fst (snd e)) \<le> Suc (length (fst (snd (hd q'))))"
      by simp
  qed
  have 5: "\<forall>e \<in> set q'. entry_ok g src vis' e"
  proof
    fix e assume "e \<in> set q'"
    then consider "e \<in> set q" | "e \<in> set new" unfolding q' by auto
    then show "entry_ok g src vis' e"
    proof cases
      case 1
      with entries have "entry_ok g src visited e" by simp
      then show ?thesis unfolding entry_ok_def vis' by auto
    next
      case 2
      then obtain nb w where e: "e = (nb, p @ [nb], dec_mul r w)" and nw: "(nb, w) \<in> set news"
        unfolding new_def by auto
      from nw have w: "edge_weight g u nb = Some w"
        unfolding news_def edge_weight_def by (rule unvisited_items_map_of)
      from nw have "nb \<in> fst ` set news" by force
      then have nb_items: "nb \<in> fst ` set (graph_items g u)" and nb_new: "nb \<notin> visited"
        unfolding news_def unvisited_items_fst by auto
      from ws w last_p have hw: "hop_weights g (p @ [nb]) = Some (ws @ [w])"
        by (simp add: hop_weights_snoc)
      have "is_conversion_path g src nb (p @ [nb])"
        unfolding is_conversion_path_def using hw p_ne hd_p by simp
      moreover have "dec_mul r w = compose_rate (ws @ [w])"
        by (simp add: compose_rate_snoc r)
      moreover have "length (p @ [nb]) \<le> length p'" if "is_conversion_path g src nb p'" for p'
      proof (rule ccontr)
        assume "\<not> length (p @ [nb]) \<le> length p'"
        then have "length p' \<le> length p" by simp
        moreover from that have "hop_weights g p' \<noteq> None" "hd p' = src" "last p' = nb"
          unfolding is_conversion_path_def by auto
        ultimately have "nb \<in> visited" using reach [of p'] by simp
        with nb_new show False ..
      qed
      moreover have "nb \<in> vis'" using nb_items vis' by simp
      ultimately show ?thesis unfolding entry_ok_def e using hw by auto
    qed
  qed
  have done_eq: "vis' - fst ` set q' = visited - fst ` set q"
    using new_fst q_vis unfolding vis' q' by auto
  have 6: "\<forall>v \<in> vis' - fst ` set q'.
         v \<noteq> t \<and> (\<forall>w. edge_weight g v w \<noteq> None \<longrightarrow> w \<in> vis')"
  proof
    fix v assume "v \<in> vis' - fst ` set q'"
    then have v: "v \<in> visited - fst ` set q" by (simp only: done_eq)
    show "v \<noteq> t \<and> (\<forall>w. edge_weight g v w \<noteq> None \<longrightarrow> w \<in> vis')"
    proof (cases "v = u")
      case True
      have "w \<in> vis'" if "edge_weight g v w \<noteq> None" for w
        using that True unfolding vis' edge_weight_items by simp
      with True ne show ?thesis by blast
    next
      case False
      with v have "v \<in> visited - insert u (fst ` set q)" by simp
      with closed have "v \<noteq> t \<and> (\<forall>w. edge_weight g v w \<noteq> None \<longrightarrow> w \<in> visited)"
        by blast
      then show ?thesis unfolding vis' by blast
    qed
  qed
  have 7: "\<forall>p'. q' \<noteq> [] \<and> hop_weights g p' \<noteq> None \<and> hd p' = src \<and>
            length p' < length (fst (snd (hd q')))
            \<longrightarrow> last p' \<in> vis' - fst ` set q'"
  proof (intro allI impI, elim conjE)
    fix p'
    assume ne': "q' \<noteq> []" and hw: "hop_weights g p' \<noteq> None" and hd': "hd p' = src"
      and len: "length p' < length (fst (snd (hd q')))"
    from ne' have hq: "hd q' \<in> set q'" by simp
    from upper [OF hq] len have le: "length p' \<le> length p" by simp
    then have vis: "last p' \<in> visited" using reach [OF hw hd'] by simp
    have "last p' \<notin> fst ` set q"
    proof
      assume "last p' \<in> fst ` set q"
      then obtain e where e: "e \<in> set q" and fe: "fst e = last p'" by auto
      from e entries have "entry_ok g src visited e" by simp
      then have "length (fst (snd e)) \<le> length p'"
        using hw hd' fe unfolding entry_ok_def is_conversion_path_def
        by (cases e) auto
      moreover from e have "e \<in> set q'" unfolding q' by simp
      then have "length (fst (snd (hd q'))) \<le> length (fst (snd e))"
        using 3 ne' by (cases q') auto
      ultimately show False using len by simp
    qed
    with vis show "last p' \<in> vis' - fst ` set q'" by (simp only: done_eq) simp
  qed
  show ?thesis by (rule bfs_invI [OF 1 2 3 4 5 6 7])
qed

lemma bfs_orderD:
  assumes "bfs_order g src queue"
  shows "sorted_wrt (\<lambda>e e'. length (fst (snd e)) = length (fst (snd e'))
                    \<longrightarrow> discovered_before g (fst (snd e)) (fst (snd e'))) queue"
    and "\<forall>e \<in> set queue. \<forall>p'.
         is_conversion_path g src (fst e) p' \<and> length p' = length (fst (snd e)) \<and>
         p' \<noteq> fst (snd e) \<longrightarrow> discovered_before g (fst (snd e)) p'"
    and "\<forall>e \<in> set queue.
         length (fst (snd e)) = Suc (length (fst (snd (hd queue))))
         \<longrightarrow> discovered_before g (butlast (fst (snd e))) (fst (snd (hd queue)))"
  using assms unfolding bfs_order_def by blast+

lemma bfs_orderI:
  assumes "sorted_wrt (\<lambda>e e'. length (fst (snd e)) = length (fst (snd e'))
                    \<longrightarrow> discovered_before g (fst (snd e)) (fst (snd e'))) queue"
    and "\<forall>e \<in> set queue. \<forall>p'.
         is_conversion_path g src (fst e) p' \<and> length p' = length (fst (snd e)) \<and>
         p' \<noteq> fst (snd e) \<longrightarrow> discovered_before g (fst (snd e)) p'"
    and "\<forall>e \<in> set queue.
         length (fst (snd e)) = Suc (length (fst (snd (hd queue))))
         \<longrightarrow> discovered_before g (butlast (fst (snd e))) (fst (snd (hd queue)))"
  shows "bfs_order g src queue"
  unfolding bfs_order_def using assms by blast

lemma bfs_order_step:
  assumes inv: "bfs_inv g src t visited ((u, p, r) # q)"
    and ord: "bfs_order g src ((u, p, r) # q)"
    and run: "visit_neighbors p r (graph_items g u) (visited, q) = (vis', q')"
  shows "bfs_order g src q'"
proof -
  define news where "news = unvisited_items visited (graph_items g u)"
  define new where "new = map (\<lambda>(nb, w). (nb, p @ [nb], dec_mul r w)) news"
  let ?P = "\<lambda>e e'. length (fst (snd e)) = length (fst (snd e'))
                    \<longrightarrow> discovered_before g (fst (snd e)) (fst (snd e'))"
  from run have vis': "vis' = visited \<union> fst ` set (graph_items g u)" and q': "q' = q @ new"
    by (simp_all add: visit_neighbors_eq new_def news_def)
  note D = bfs_inv_ConsD [OF inv]
  note srt = D(3) and bound = D(4) and head = D(5) and entries = D(6) and closed = D(7)
  note reach = bfs_inv_reach [OF inv]
  note O = bfs_orderD [OF ord]
  from O(1) have o_head: "\<forall>e \<in> set q. length p = length (fst (snd e))
        \<longrightarrow> discovered_before g p (fst (snd e))"
    and o_q: "sorted_wrt ?P q"
    by simp_all
  from O(2) have best_head: "\<forall>p'. is_conversion_path g src u p' \<and> length p' = length p \<and> p' \<noteq> p
        \<longrightarrow> discovered_before g p p'"
    and best_q: "\<forall>e \<in> set q. \<forall>p'.
         is_conversion_path g src (fst e) p' \<and> length p' = length (fst (snd e)) \<and>
         p' \<noteq> fst (snd e) \<longrightarrow> discovered_before g (fst (snd e)) p'"
    by simp_all
  from O(3) have long_q: "\<forall>e \<in> set q. length (fst (snd e)) = Suc (length p)
         \<longrightarrow> discovered_before g (butlast (fst (snd e))) p"
    by simp
  from head have p_path: "is_conversion_path g src u p"
    unfolding entry_ok_def by simp
  then have p_ne: "p \<noteq> []" and hd_p: "hd p = src" and last_p: "last p = u"
    unfolding is_conversion_path_def by auto
  have lower_q: "length p \<le> length (fst (snd e))" if "e \<in> set q" for e
    using that srt by simp
  have new_cases: "\<exists>nb w. e = (nb, p @ [nb], dec_mul r w) \<and> (nb, w) \<in> set news"
    if "e \<in> set new" for e
    using that unfolding new_def by auto
  have news_fresh: "nb \<in> fst ` set (graph_items g u) \<and> nb \<notin> visited"
    if "(nb, w) \<in> set news" for nb w
  proof -
    from that have "nb \<in> fst ` set news" by force
    then show ?thesis unfolding news_def unvisited_items_fst by simp
  qed
  \<comment> \<open>the paths of one length with the head that reach a neighbour of a node still queued\<close>
  have after_head: "p'' = p \<or> discovered_before g p p''"
    if hw: "hop_weights g p'' \<noteq> None" and hd'': "hd p'' = src" and len: "length p'' = length p"
      and nd: "last p'' \<in> insert u (fst ` set q)" for p''
  proof (cases "last p'' = u")
    case True
    with hw hd'' have "is_conversion_path g src u p''"
      unfolding is_conversion_path_def by simp
    with best_head len show ?thesis by blast
  next
    case False
    with nd obtain e where e: "e \<in> set q" and fe: "fst e = last p''" by auto
    from hw hd'' fe have path: "is_conversion_path g src (fst e) p''"
      unfolding is_conversion_path_def by simp
    from e entries have "entry_ok g src visited e" by simp
    with path have "length (fst (snd e)) \<le> length p''"
      unfolding entry_ok_def by (cases e) auto
    with lower_q [OF e] len have len_e: "length (fst (snd e)) = length p" by simp
    with o_head e have 1: "discovered_before g p (fst (snd e))" by simp
    show ?thesis
    proof (cases "p'' = fst (snd e)")
      case True
      with 1 show ?thesis by simp
    next
      case False
      with best_q e path len len_e have "discovered_before g (fst (snd e)) p''" by simp
      with 1 show ?thesis by (blast intro: discovered_before_trans)
    qed
  qed
  have 1: "sorted_wrt ?P q'"
  proof -
    have "sorted_wrt ?P new"
    proof -
      have "sorted_wrt (\<lambda>x y. item_index (graph_items g u) (fst x)
                < item_index (graph_items g u) (fst y)) news"
        unfolding news_def by (rule unvisited_items_sorted)
      then have "sorted_wrt (\<lambda>x y. ?P ((\<lambda>(nb, w). (nb, p @ [nb], dec_mul r w)) x)
                ((\<lambda>(nb, w). (nb, p @ [nb], dec_mul r w)) y)) news"
        by (rule sorted_wrt_mono_rel [rotated])
          (auto simp: discovered_before_same_prefix [OF p_ne] last_p)
      then show ?thesis unfolding new_def by (simp add: sorted_wrt_map)
    qed
    moreover have "?P e e'" if e: "e \<in> set q" and e': "e' \<in> set new" for e e'
    proof
      assume len: "length (fst (snd e)) = length (fst (snd e'))"
      from new_cases [OF e'] obtain nb w where e'_eq: "e' = (nb, p @ [nb], dec_mul r w)" by blast
      with len have len_e: "length (fst (snd e)) = Suc (length p)" by simp
      with long_q e have before: "discovered_before g (butlast (fst (snd e))) p" by simp
      from len_e p_ne have "butlast (fst (snd e)) \<noteq> []"
        by (cases "fst (snd e)" rule: rev_cases) (auto simp: Suc_length_conv)
      moreover from len_e have "fst (snd e) \<noteq> []" by auto
      then have "fst (snd e) = butlast (fst (snd e)) @ [last (fst (snd e))]" by simp
      ultimately have "discovered_before g (fst (snd e)) (p @ [nb])"
        using discovered_before_snoc [OF before _ p_ne] by metis
      then show "discovered_before g (fst (snd e)) (fst (snd e'))" by (simp add: e'_eq)
    qed
    ultimately show ?thesis
      using o_q unfolding q' by (simp add: sorted_wrt_append)
  qed
  have 2: "\<forall>e \<in> set q'. \<forall>p'.
         is_conversion_path g src (fst e) p' \<and> length p' = length (fst (snd e)) \<and>
         p' \<noteq> fst (snd e) \<longrightarrow> discovered_before g (fst (snd e)) p'"
  proof (intro ballI allI impI, elim conjE)
    fix e p'
    assume e: "e \<in> set q'" and path: "is_conversion_path g src (fst e) p'"
      and len: "length p' = length (fst (snd e))" and diff: "p' \<noteq> fst (snd e)"
    from e consider "e \<in> set q" | "e \<in> set new" unfolding q' by auto
    then show "discovered_before g (fst (snd e)) p'"
    proof cases
      case 1
      with best_q path len diff show ?thesis by blast
    next
      case 2
      from new_cases [OF 2] obtain nb w where e_eq: "e = (nb, p @ [nb], dec_mul r w)"
        and nw: "(nb, w) \<in> set news" by blast
      note fresh = news_fresh [OF nw]
      from path e_eq have hw: "hop_weights g p' \<noteq> None" and hd': "hd p' = src"
        and last': "last p' = nb"
        unfolding is_conversion_path_def by simp_all
      from len e_eq have len': "length p' = Suc (length p)" by simp
      then obtain p'' v where p': "p' = p'' @ [v]"
        by (cases p' rule: rev_cases) auto
      from len' p' p_ne have ne'': "p'' \<noteq> []" by auto
      from last' p' have v: "v = nb" by simp
      from hw p' ne'' have hw'': "hop_weights g p'' \<noteq> None"
        and edge: "edge_weight g (last p'') v \<noteq> None"
        using hop_weights_butlast by blast+
      from hd' p' ne'' have hd'': "hd p'' = src" by simp
      from len' p' have len'': "length p'' = length p" by simp
      from reach [OF hw'' hd''] len'' have "last p'' \<in> visited" by simp
      moreover have "last p'' \<notin> visited - insert u (fst ` set q)"
      proof
        assume "last p'' \<in> visited - insert u (fst ` set q)"
        with closed edge have "v \<in> visited" by blast
        with fresh v show False by simp
      qed
      ultimately have "last p'' \<in> insert u (fst ` set q)" by blast
      from after_head [OF hw'' hd'' len'' this] have "discovered_before g p p''"
        using diff p' v e_eq by auto
      then have "discovered_before g (p @ [nb]) (p'' @ [v])"
        using p_ne ne'' by (rule discovered_before_snoc)
      then show ?thesis by (simp add: e_eq p')
    qed
  qed
  have 3: "\<forall>e \<in> set q'.
         length (fst (snd e)) = Suc (length (fst (snd (hd q'))))
         \<longrightarrow> discovered_before g (butlast (fst (snd e))) (fst (snd (hd q')))"
  proof (intro ballI impI)
    fix e
    assume e: "e \<in> set q'" and len: "length (fst (snd e)) = Suc (length (fst (snd (hd q'))))"
    have upper: "length (fst (snd e)) \<le> Suc (length p)"
    proof -
      from e consider "e \<in> set q" | "e \<in> set new" unfolding q' by auto
      then show ?thesis
      proof cases
        case 1
        with bound show ?thesis by simp
      next
        case 2
        from new_cases [OF this] show ?thesis by auto
      qed
    qed
    show "discovered_before g (butlast (fst (snd e))) (fst (snd (hd q')))"
    proof (cases q)
      case Nil
      with e q' have "hd q' \<in> set new" by (cases new) simp_all
      from new_cases [OF this] have "length (fst (snd (hd q'))) = Suc (length p)" by auto
      with len upper show ?thesis by simp
    next
      case (Cons h rest)
      then have hq: "hd q' = h" and h: "h \<in> set q" unfolding q' by simp_all
      from lower_q [OF h] len upper hq have len_h: "length (fst (snd h)) = length p"
        and len_e: "length (fst (snd e)) = Suc (length p)" by simp_all
      from o_head h len_h have ph: "discovered_before g p (fst (snd h))" by simp
      from e consider "e \<in> set q" | "e \<in> set new" unfolding q' by auto
      then show ?thesis
      proof cases
        case 1
        with long_q len_e have "discovered_before g (butlast (fst (snd e))) p" by simp
        from this ph show ?thesis unfolding hq by (rule discovered_before_trans)
      next
        case 2
        from new_cases [OF this] have "butlast (fst (snd e)) = p" by auto
        with ph show ?thesis unfolding hq by simp
      qed
    qed
  qed
  show ?thesis by (rule bfs_orderI [OF 1 2 3])
qed

lemma closed_path:
  "hop_weights g p \<noteq> None \<Longrightarrow> hd p \<in> S
     \<Longrightarrow> \<forall>v \<in> S. \<forall>w. edge_weight g v w \<noteq> None \<longrightarrow> w \<in> S \<Longrightarrow> last p \<in> S"
proof (induction g p rule: hop_weights.induct)
  case (1 graph)
  then show ?case by simp
next
  case (2 graph u)
  then show ?case by simp
next
  case (3 graph u v rest)
  from "3.prems"(1) obtain w where w: "edge_weight graph u v = Some w"
    by (auto split: option.splits)
  with "3.prems"(1) have rest: "hop_weights graph (v # rest) \<noteq> None" by auto
  from "3.prems"(2) have "u \<in> S" by simp
  with "3.prems"(3) w have "v \<in> S" by blast
  with "3.IH" [OF w rest] "3.prems"(3) show ?case by simp
qed

lemma bfs_inv_init: "bfs_inv g src t {src} [(src, [src], dec_one)]"
proof (rule bfs_invI)
  show "\<forall>e \<in> set [(src, [src], dec_one)]. entry_ok g src {src} e"
  proof -
    have "length [src] \<le> length p'" if "is_conversion_path g src src p'" for p'
    proof -
      from that have "p' \<noteq> []" unfolding is_conversion_path_def by auto
      then show ?thesis by (cases p') simp_all
    qed
    then show ?thesis
      by (simp add: entry_ok_def is_conversion_path_def compose_rate_def)
  qed
  show "\<forall>p'. [(src, [src], dec_one)] \<noteq> [] \<and> hop_weights g p' \<noteq> None \<and> hd p' = src \<and>
            length p' < length (fst (snd (hd [(src, [src], dec_one)])))
            \<longrightarrow> last p' \<in> {src} - fst ` set [(src, [src], dec_one)]"
    by auto
qed simp_all

lemma bfs_order_init: "bfs_order g src [(src, [src], dec_one)]"
proof (rule bfs_orderI)
  show "\<forall>e \<in> set [(src, [src], dec_one)]. \<forall>p'.
         is_conversion_path g src (fst e) p' \<and> length p' = length (fst (snd e)) \<and>
         p' \<noteq> fst (snd e) \<longrightarrow> discovered_before g (fst (snd e)) p'"
  proof (intro ballI allI impI, elim conjE)
    fix e p'
    assume "e \<in> set [(src, [src], dec_one)]" and "is_conversion_path g src (fst e) p'"
      and "length p' = length (fst (snd e))" and "p' \<noteq> fst (snd e)"
    then have "hd p' = src" and "length p' = 1" and "p' \<noteq> [src]"
      by (simp_all add: is_conversion_path_def)
    then have False by (cases p') simp_all
    then show "discovered_before g (fst (snd e)) p'" ..
  qed
qed simp_all

lemma bfs_loop_correct:
  "bfs_inv g src t visited queue \<Longrightarrow> bfs_order g src queue \<Longrightarrow>
     (bfs_loop g t visited queue = (None, None) \<and> (\<forall>p. \<not> is_conversion_path g src t p)) \<or>
     (\<exists>p ws. bfs_loop g t visited queue = (Some p, Some (compose_rate ws)) \<and>
        is_conversion_path g src t p \<and> hop_weights g p = Some ws \<and>
        (\<forall>p'. is_conversion_path g src t p' \<longrightarrow> length p \<le> length p') \<and>
        (\<forall>p'. is_conversion_path g src t p' \<and> length p' = length p \<and> p' \<noteq> p
              \<longrightarrow> discovered_before g p p'))"
proof (induction g t visited queue rule: bfs_loop.induct)
  case (1 graph to_id visited)
  note D = bfs_invD [OF "1.prems"(1)]
  from D(6) have closed: "\<forall>v \<in> visited. \<forall>w. edge_weight graph v w \<noteq> None \<longrightarrow> w \<in> visited"
    and not_t: "to_id \<notin> visited"
    by auto
  have "\<not> is_conversion_path graph src to_id p" for p
  proof
    assume "is_conversion_path graph src to_id p"
    then have "hop_weights graph p \<noteq> None" "hd p \<in> visited" "last p = to_id"
      using D(1) unfolding is_conversion_path_def by auto
    with closed_path [OF this(1,2) closed] not_t show False by simp
  qed
  then show ?case by (simp add: bfs_loop.simps)
next
  case (2 graph to_id visited current path current_rate queue)
  note D = bfs_invD [OF "2.prems"(1)]
  from D(5) have head: "entry_ok graph src visited (current, path, current_rate)" by simp
  show ?case
  proof (cases "current = to_id")
    case True
    from bfs_orderD(2) [OF "2.prems"(2)]
    have first: "\<forall>p'. is_conversion_path graph src current p' \<and> length p' = length path \<and>
        p' \<noteq> path \<longrightarrow> discovered_before graph path p'"
      by simp
    from head obtain ws where "is_conversion_path graph src current path"
      and "hop_weights graph path = Some ws" and "current_rate = compose_rate ws"
      and "\<forall>p'. is_conversion_path graph src current p' \<longrightarrow> length path \<le> length p'"
      unfolding entry_ok_def by auto
    moreover from True
    have "bfs_loop graph to_id visited ((current, path, current_rate) # queue)
        = (Some path, Some current_rate)"
      by (simp add: bfs_loop.simps)
    ultimately show ?thesis using first True by blast
  next
    case False
    obtain visited' queue' where run:
      "visit_neighbors path current_rate (graph_items graph current) (visited, queue)
         = (visited', queue')"
      by (cases "visit_neighbors path current_rate (graph_items graph current) (visited, queue)")
    have inv': "bfs_inv graph src to_id visited' queue'"
      by (rule bfs_inv_step [OF "2.prems"(1) False run])
    have ord': "bfs_order graph src queue'"
      by (rule bfs_order_step [OF "2.prems" run])
    have "bfs_loop graph to_id visited ((current, path, current_rate) # queue)
            = bfs_loop graph to_id visited' queue'"
      using False run by (simp add: bfs_loop.simps)
    with "2.IH" [OF False run [symmetric] inv' ord'] show ?thesis by simp
  qed
qed

lemma find_conversion_path_cases:
  "(find_conversion_path g a b = (None, None) \<and>
      (a \<notin> fst ` set g \<or> b \<notin> fst ` set g \<or> (\<forall>p. \<not> is_conversion_path g a b p))) \<or>
   (\<exists>p ws. find_conversion_path g a b = (Some p, Some (compose_rate ws)) \<and>
      a \<in> fst ` set g \<and> b \<in> fst ` set g \<and>
      is_conversion_path g a b p \<and> hop_weights g p = Some ws \<and>
      (\<forall>p'. is_conversion_path g a b p' \<longrightarrow> length p \<le> length p') \<and>
      (\<forall>p'. is_conversion_path g a b p' \<and> length p' = length p \<and> p' \<noteq> p
            \<longrightarrow> discovered_before g p p'))"
proof (cases "a \<notin> fst ` set g \<or> b \<notin> fst ` set g")
  case True
  then have "find_conversion_path g a b = (None, None)"
    by (simp add: find_conversion_path_def)
  with True show ?thesis by blast
next
  case False
  then have eq: "find_conversion_path g a b = bfs_loop g b {a} [(a, [a], dec_one)]"
    by (simp add: find_conversion_path_def)
  from bfs_loop_correct [OF bfs_inv_init [of g a b] bfs_order_init [of g a]] False show ?thesis
    unfolding eq by blast
qed

section \<open>The claims\<close>

text \<open>
  C1: during one run of the loop each resolved pair is to be stored at most once. For a
  provider with inverted rates the loop tests the pair as the provider gave it and
  records the pair as swapped, so a second tuple for the same pair passes the test: the
  provider yields (USD, BTC) twice, with the rates 65000 and 65100, and the run creates
  two rows from BTC to USD, each with its rate as the column holds it.
\<close>

theorem duplicate_inverted_pair_stored_twice:
  "fetch_service_rates (\<lambda>n. \<lparr>ordinal = 739000, hour = 10, minute = 0, second = n, microsecond = 0\<rparr>) True
     \<lparr>name = ''coingecko'', service_type = ''coingecko_free'', is_active = True,
      api_key = Some ''key'', interval_type = ''every'', fetch_interval = ''24'',
      last_fetch = None, singleton = False\<rparr>
     [(\<lparr>cid = 1, code = ''USD'', exchange_currency = None\<rparr>, \<lparr>cid = 2, code = ''BTC'', exchange_currency = Some 1\<rparr>, \<lparr>dsign = False, dint = 65000, dexp = 0\<rparr>),
      (\<lparr>cid = 1, code = ''USD'', exchange_currency = None\<rparr>, \<lparr>cid = 2, code = ''BTC'', exchange_currency = Some 1\<rparr>, \<lparr>dsign = False, dint = 65100, dexp = 0\<rparr>)]
     []
   = ([\<lparr>from_currency_id = 2, to_currency_id = 1, rate = \<lparr>dsign = False, dint = 65000000000000000000000000000000000, dexp = - 30\<rparr>,
        date = \<lparr>ordinal = 739000, hour = 10, minute = 0, second = 0, microsecond = 0\<rparr>, automatic = True\<rparr>,
       \<lparr>from_currency_id = 2, to_currency_id = 1, rate = \<lparr>dsign = False, dint = 65100000000000000000000000000000000, dexp = - 30\<rparr>,
        date = \<lparr>ordinal = 739000, hour = 10, minute = 0, second = 1, microsecond = 0\<rparr>, automatic = True\<rparr>],
      \<lparr>name = ''coingecko'', service_type = ''coingecko_free'', is_active = True,
      api_key = Some ''key'', interval_type = ''every'', fetch_interval = ''24'',
      last_fetch = Some \<lparr>ordinal = 739000, hour = 10, minute = 0, second = 2, microsecond = 0\<rparr>, singleton = False\<rparr>)"
proof -
  have prep: "rate_get_db_prep_save \<lparr>dsign = False, dint = 65000, dexp = 0\<rparr>
      = Inr \<lparr>dsign = False, dint = 65000000000000000000000000000000000, dexp = - 30\<rparr>"
    "rate_get_db_prep_save \<lparr>dsign = False, dint = 65100, dexp = 0\<rparr>
      = Inr \<lparr>dsign = False, dint = 65100000000000000000000000000000000, dexp = - 30\<rparr>"
    by (simp_all add: rate_get_db_prep_save_def format_number_def dec_quantize_def
        rate_max_digits_def rate_decimal_places_def ndigits.simps Let_def)
  show ?thesis
    by (simp add: fetch_service_rates_def process_rate_def store_rate_def objects_create_def
        same_key_def to_microseconds_def prep Let_def)
qed


text \<open>
  C2, as the specification has it, does not hold: the row has the swapped currencies,
  but its rate is the rate of the tuple only up to the 30 decimal places of the column.
  The table holds the rate 65000 from BTC (id 2) to USD (id 1). The graph built from it
  has the edge from USD to BTC with the weight 1/65000, a number of 28 significant
  digits and 32 decimal places; the path search returns it as the rate from USD to BTC,
  the transitive provider yields the tuple (USD, BTC, 1/65000), and the row created from
  BTC to USD has the rate rounded to 30 decimal places, another number.
\<close>

theorem inverted_rate_rounded_counterexample:
  "build_currency_graph
     [\<lparr>from_currency_id = 2, to_currency_id = 1,
        rate = \<lparr>dsign = False, dint = 65000000000000000000000000000000000, dexp = - 30\<rparr>,
        date = \<lparr>ordinal = 738999, hour = 9, minute = 0, second = 0, microsecond = 0\<rparr>, automatic = False\<rparr>]
   = Inr [(2, [(1, \<lparr>dsign = False, dint = 65000000000000000000000000000000000, dexp = - 30\<rparr>)]),
      (1, [(2, \<lparr>dsign = False, dint = 1538461538461538461538461538, dexp = - 32\<rparr>)])] \<and>
   find_conversion_path
     [(2, [(1, \<lparr>dsign = False, dint = 65000000000000000000000000000000000, dexp = - 30\<rparr>)]),
      (1, [(2, \<lparr>dsign = False, dint = 1538461538461538461538461538, dexp = - 32\<rparr>)])] 1 2
   = (Some [1, 2], Some \<lparr>dsign = False, dint = 1538461538461538461538461538, dexp = - 32\<rparr>) \<and>
   process_rate (\<lambda>n. \<lparr>ordinal = 739000, hour = 10, minute = 0, second = n, microsecond = 0\<rparr>) True False
     \<lparr>table = [\<lparr>from_currency_id = 2, to_currency_id = 1,
        rate = \<lparr>dsign = False, dint = 65000000000000000000000000000000000, dexp = - 30\<rparr>,
        date = \<lparr>ordinal = 738999, hour = 9, minute = 0, second = 0, microsecond = 0\<rparr>, automatic = False\<rparr>],
      processed_pairs = {}, ticks = 0\<rparr>
     (\<lparr>cid = 1, code = ''USD'', exchange_currency = None\<rparr>, \<lparr>cid = 2, code = ''BTC'', exchange_currency = Some 1\<rparr>,
      \<lparr>dsign = False, dint = 1538461538461538461538461538, dexp = - 32\<rparr>)
   = Inr \<lparr>table = [\<lparr>from_currency_id = 2, to_currency_id = 1,
        rate = \<lparr>dsign = False, dint = 65000000000000000000000000000000000, dexp = - 30\<rparr>,
        date = \<lparr>ordinal = 738999, hour = 9, minute = 0, second = 0, microsecond = 0\<rparr>, automatic = False\<rparr>,
       \<lparr>from_currency_id = 2, to_currency_id = 1,
        rate = \<lparr>dsign = False, dint = 15384615384615384615384615, dexp = - 30\<rparr>,
        date = \<lparr>ordinal = 739000, hour = 10, minute = 0, second = 0, microsecond = 0\<rparr>, automatic = True\<rparr>],
      processed_pairs = {(2, 1)}, ticks = Suc 0\<rparr> \<and>
   dec_val \<lparr>dsign = False, dint = 15384615384615384615384615, dexp = - 30\<rparr>
     \<noteq> dec_val \<lparr>dsign = False, dint = 1538461538461538461538461538, dexp = - 32\<rparr>"
proof -
  have inverse: "dec_truediv dec_one \<lparr>dsign = False, dint = 65000000000000000000000000000000000, dexp = - 30\<rparr>
      = Inr \<lparr>dsign = False, dint = 1538461538461538461538461538, dexp = - 32\<rparr>"
    by (simp add: dec_truediv_def dec_one_def dec_fix_def prec_def ndigits.simps
        strip_exact.simps Let_def)
  have built: "build_currency_graph
     [\<lparr>from_currency_id = 2, to_currency_id = 1,
        rate = \<lparr>dsign = False, dint = 65000000000000000000000000000000000, dexp = - 30\<rparr>,
        date = \<lparr>ordinal = 738999, hour = 9, minute = 0, second = 0, microsecond = 0\<rparr>, automatic = False\<rparr>]
   = Inr [(2, [(1, \<lparr>dsign = False, dint = 65000000000000000000000000000000000, dexp = - 30\<rparr>)]),
      (1, [(2, \<lparr>dsign = False, dint = 1538461538461538461538461538, dexp = - 32\<rparr>)])]"
    by (simp add: build_currency_graph_def set_edge_def inverse)
  have mul: "dec_mul dec_one \<lparr>dsign = False, dint = 1538461538461538461538461538, dexp = - 32\<rparr>
      = \<lparr>dsign = False, dint = 1538461538461538461538461538, dexp = - 32\<rparr>"
    by (simp add: dec_mul_def dec_one_def dec_fix_def prec_def ndigits.simps Let_def)
  have found: "find_conversion_path
     [(2, [(1, \<lparr>dsign = False, dint = 65000000000000000000000000000000000, dexp = - 30\<rparr>)]),
      (1, [(2, \<lparr>dsign = False, dint = 1538461538461538461538461538, dexp = - 32\<rparr>)])] 1 2
   = (Some [1, 2], Some \<lparr>dsign = False, dint = 1538461538461538461538461538, dexp = - 32\<rparr>)"
    by (simp add: find_conversion_path_def bfs_loop.simps graph_items_def mul)
  have prep: "rate_get_db_prep_save \<lparr>dsign = False, dint = 1538461538461538461538461538, dexp = - 32\<rparr>
      = Inr \<lparr>dsign = False, dint = 15384615384615384615384615, dexp = - 30\<rparr>"
    by (simp add: rate_get_db_prep_save_def format_number_def dec_quantize_def round_half_even_def
        rate_max_digits_def rate_decimal_places_def ndigits.simps Let_def)
  have stored: "process_rate (\<lambda>n. \<lparr>ordinal = 739000, hour = 10, minute = 0, second = n, microsecond = 0\<rparr>) True False
     \<lparr>table = [\<lparr>from_currency_id = 2, to_currency_id = 1,
        rate = \<lparr>dsign = False, dint = 65000000000000000000000000000000000, dexp = - 30\<rparr>,
        date = \<lparr>ordinal = 738999, hour = 9, minute = 0, second = 0, microsecond = 0\<rparr>, automatic = False\<rparr>],
      processed_pairs = {}, ticks = 0\<rparr>
     (\<lparr>cid = 1, code = ''USD'', exchange_currency = None\<rparr>, \<lparr>cid = 2, code = ''BTC'', exchange_currency = Some 1\<rparr>,
      \<lparr>dsign = False, dint = 1538461538461538461538461538, dexp = - 32\<rparr>)
   = Inr \<lparr>table = [\<lparr>from_currency_id = 2, to_currency_id = 1,
        rate = \<lparr>dsign = False, dint = 65000000000000000000000000000000000, dexp = - 30\<rparr>,
        date = \<lparr>ordinal = 738999, hour = 9, minute = 0, second = 0, microsecond = 0\<rparr>, automatic = False\<rparr>,
       \<lparr>from_currency_id = 2, to_currency_id = 1,
        rate = \<lparr>dsign = False, dint = 15384615384615384615384615, dexp = - 30\<rparr>,
        date = \<lparr>ordinal = 739000, hour = 10, minute = 0, second = 0, microsecond = 0\<rparr>, automatic = True\<rparr>],
      processed_pairs = {(2, 1)}, ticks = Suc 0\<rparr>"
    by (simp add: process_rate_def store_rate_def objects_create_def same_key_def
        to_microseconds_def prep Let_def)
  have differ: "dec_val \<lparr>dsign = False, dint = 15384615384615384615384615, dexp = - 30\<rparr>
     \<noteq> dec_val \<lparr>dsign = False, dint = 1538461538461538461538461538, dexp = - 32\<rparr>"
    by (simp add: dec_val_def power_int_def field_simps)
  from built found stored differ show ?thesis by simp
qed

text \<open>
  C2, amended: when the provider declares \<^verbatim>\<open>rates_inverted\<close>, a tuple \<open>(A, B, r)\<close> that
  the loop does not skip and stores without an exception changes the table by exactly
  one row, created at the end or overwritten in place. That row has \<^verbatim>\<open>from_currency\<close>
  \<open>B\<close> and \<^verbatim>\<open>to_currency\<close> \<open>A\<close>, and its rate is \<open>r\<close> as the column of the rate holds
  it: with the sign of \<open>r\<close> and 30 decimal places, the same number as \<open>r\<close> when \<open>r\<close>
  has at most 30 decimal places, and the number of 30 decimal places nearest to \<open>r\<close>,
  at most half a unit of the 30th place away, when \<open>r\<close> has more; of two such numbers
  that are equally near it is the one with the even last digit.
\<close>

theorem inverted_rate_stored_swapped_rounded:
  assumes "process_rate clock True service_singleton st (from_currency, to_currency, r) = Inr st'"
    and "(cid from_currency, cid to_currency) \<notin> processed_pairs st"
  shows "\<exists>x. from_currency_id x = cid to_currency \<and> to_currency_id x = cid from_currency \<and>
             rate_get_db_prep_save r = Inr (rate x) \<and>
             dsign (rate x) = dsign r \<and> dexp (rate x) = - 30 \<and>
             (- 30 \<le> dexp r \<longrightarrow> dec_val (rate x) = dec_val r) \<and>
             \<bar>dec_val (rate x) - dec_val r\<bar> \<le> 10 powi (- 30) / 2 \<and>
             (2 * \<bar>dec_val (rate x) - dec_val r\<bar> = 10 powi (- 30) \<longrightarrow> even (dint (rate x))) \<and>
             (table st' = table st @ [x] \<or>
              (\<exists>i. i < length (table st) \<and> table st' = (table st)[i := x]))"
proof -
  from assms have store:
    "store_rate clock service_singleton st (cid to_currency) (cid from_currency) r = Inr st'"
    by (simp add: process_rate_def)
  have "\<exists>x q. rate_get_db_prep_save r = Inr q \<and> rate x = q \<and>
          from_currency_id x = cid to_currency \<and> to_currency_id x = cid from_currency \<and>
          (table st' = table st @ [x] \<or>
           (\<exists>i. i < length (table st) \<and> table st' = (table st)[i := x]))"
  proof (cases service_singleton)
    case False
    with store have "store_rate clock False st (cid to_currency) (cid from_currency) r = Inr st'"
      by simp
    from store_rate_create [OF this]
    obtain q where q: "rate_get_db_prep_save r = Inr q"
      and "table st' = table st @ [\<lparr>from_currency_id = cid to_currency,
          to_currency_id = cid from_currency, rate = q, date = clock (ticks st),
          automatic = True\<rparr>]"
      by blast
    then show ?thesis
      by (intro exI [of _ "\<lparr>from_currency_id = cid to_currency,
          to_currency_id = cid from_currency, rate = q, date = clock (ticks st),
          automatic = True\<rparr>"] exI [of _ q]) simp
  next
    case True
    with store have "store_rate clock True st (cid to_currency) (cid from_currency) r = Inr st'"
      by simp
    from store_rate_singleton [OF this]
    obtain q where q: "rate_get_db_prep_save r = Inr q"
      and alt: "table st' = table st @ [\<lparr>from_currency_id = cid to_currency,
          to_currency_id = cid from_currency, rate = q, date = clock (ticks st),
          automatic = True\<rparr>] \<or>
        (\<exists>i \<in> set (filter_automatic (table st) (cid to_currency) (cid from_currency)).
          table st' = (table st)[i := (table st ! i)\<lparr>rate := q, date := clock (ticks st)\<rparr>])"
      by blast
    from alt show ?thesis
    proof
      assume "table st' = table st @ [\<lparr>from_currency_id = cid to_currency,
          to_currency_id = cid from_currency, rate = q, date = clock (ticks st),
          automatic = True\<rparr>]"
      with q show ?thesis
        by (intro exI [of _ "\<lparr>from_currency_id = cid to_currency,
          to_currency_id = cid from_currency, rate = q, date = clock (ticks st),
          automatic = True\<rparr>"] exI [of _ q]) simp
    next
      assume "\<exists>i \<in> set (filter_automatic (table st) (cid to_currency) (cid from_currency)).
          table st' = (table st)[i := (table st ! i)\<lparr>rate := q, date := clock (ticks st)\<rparr>]"
      then obtain i
        where i: "i \<in> set (filter_automatic (table st) (cid to_currency) (cid from_currency))"
          and upd: "table st' = (table st)[i := (table st ! i)\<lparr>rate := q, date := clock (ticks st)\<rparr>]"
        by blast
      from i have "i < length (table st)"
        and "from_currency_id (table st ! i) = cid to_currency"
        and "to_currency_id (table st ! i) = cid from_currency"
        by (simp_all add: filter_automatic_iff)
      with q upd show ?thesis
        by (intro exI [of _ "(table st ! i)\<lparr>rate := q, date := clock (ticks st)\<rparr>"]
            exI [of _ q]) auto
    qed
  qed
  then obtain x where x: "rate_get_db_prep_save r = Inr (rate x)"
    and swapped: "from_currency_id x = cid to_currency" "to_currency_id x = cid from_currency"
    and written: "table st' = table st @ [x] \<or>
           (\<exists>i. i < length (table st) \<and> table st' = (table st)[i := x])"
    by blast
  from rate_get_db_prep_save_props [OF x] x swapped written show ?thesis
    by blast
qed

text \<open>
  A provider with inverted rates reports 65000 for the pair (USD, BTC): the row stored is
  from BTC to USD, and its rate is 65000 with 30 decimal places. The rates \<^verbatim>\<open>2.5E-30\<close>
  and \<^verbatim>\<open>3.5E-30\<close> lie halfway between two numbers of 30 decimal places and are stored as
  \<^verbatim>\<open>2E-30\<close> and \<^verbatim>\<open>4E-30\<close>; the rate \<^verbatim>\<open>2.51E-30\<close> is stored as \<^verbatim>\<open>3E-30\<close>.
\<close>

theorem inverted_rate_stored_swapped_rounded_witness:
  "process_rate (\<lambda>n. \<lparr>ordinal = 739000, hour = 10, minute = 0, second = n, microsecond = 0\<rparr>) True False
     \<lparr>table = [],
      processed_pairs = {}, ticks = 0\<rparr>
     (\<lparr>cid = 1, code = ''USD'', exchange_currency = None\<rparr>, \<lparr>cid = 2, code = ''BTC'', exchange_currency = Some 1\<rparr>,
      \<lparr>dsign = False, dint = 65000, dexp = 0\<rparr>)
   = Inr \<lparr>table = [\<lparr>from_currency_id = 2, to_currency_id = 1,
        rate = \<lparr>dsign = False, dint = 65000000000000000000000000000000000, dexp = - 30\<rparr>,
        date = \<lparr>ordinal = 739000, hour = 10, minute = 0, second = 0, microsecond = 0\<rparr>, automatic = True\<rparr>],
      processed_pairs = {(2, 1)}, ticks = Suc 0\<rparr> \<and>
   process_rate (\<lambda>n. \<lparr>ordinal = 739000, hour = 10, minute = 0, second = n, microsecond = 0\<rparr>) True False
     \<lparr>table = [],
      processed_pairs = {}, ticks = 0\<rparr>
     (\<lparr>cid = 1, code = ''USD'', exchange_currency = None\<rparr>, \<lparr>cid = 2, code = ''BTC'', exchange_currency = Some 1\<rparr>,
      \<lparr>dsign = False, dint = 25, dexp = - 31\<rparr>)
   = Inr \<lparr>table = [\<lparr>from_currency_id = 2, to_currency_id = 1,
        rate = \<lparr>dsign = False, dint = 2, dexp = - 30\<rparr>,
        date = \<lparr>ordinal = 739000, hour = 10, minute = 0, second = 0, microsecond = 0\<rparr>, automatic = True\<rparr>],
      processed_pairs = {(2, 1)}, ticks = Suc 0\<rparr> \<and>
   process_rate (\<lambda>n. \<lparr>ordinal = 739000, hour = 10, minute = 0, second = n, microsecond = 0\<rparr>) True False
     \<lparr>table = [],
      processed_pairs = {}, ticks = 0\<rparr>
     (\<lparr>cid = 1, code = ''USD'', exchange_currency = None\<rparr>, \<lparr>cid = 2, code = ''BTC'', exchange_currency = Some 1\<rparr>,
      \<lparr>dsign = False, dint = 35, dexp = - 31\<rparr>)
   = Inr \<lparr>table = [\<lparr>from_currency_id = 2, to_currency_id = 1,
        rate = \<lparr>dsign = False, dint = 4, dexp = - 30\<rparr>,
        date = \<lparr>ordinal = 739000, hour = 10, minute = 0, second = 0, microsecond = 0\<rparr>, automatic = True\<rparr>],
      processed_pairs = {(2, 1)}, ticks = Suc 0\<rparr> \<and>
   process_rate (\<lambda>n. \<lparr>ordinal = 739000, hour = 10, minute = 0, second = n, microsecond = 0\<rparr>) True False
     \<lparr>table = [],
      processed_pairs = {}, ticks = 0\<rparr>
     (\<lparr>cid = 1, code = ''USD'', exchange_currency = None\<rparr>, \<lparr>cid = 2, code = ''BTC'', exchange_currency = Some 1\<rparr>,
      \<lparr>dsign = False, dint = 251, dexp = - 32\<rparr>)
   = Inr \<lparr>table = [\<lparr>from_currency_id = 2, to_currency_id = 1,
        rate = \<lparr>dsign = False, dint = 3, dexp = - 30\<rparr>,
        date = \<lparr>ordinal = 739000, hour = 10, minute = 0, second = 0, microsecond = 0\<rparr>, automatic = True\<rparr>],
      processed_pairs = {(2, 1)}, ticks = Suc 0\<rparr> \<and>
   dec_val \<lparr>dsign = False, dint = 65000000000000000000000000000000000, dexp = - 30\<rparr>
     = dec_val \<lparr>dsign = False, dint = 65000, dexp = 0\<rparr> \<and>
   2 * \<bar>dec_val \<lparr>dsign = False, dint = 2, dexp = - 30\<rparr> - dec_val \<lparr>dsign = False, dint = 25, dexp = - 31\<rparr>\<bar>
     = 10 powi (- 30) \<and>
   even (dint \<lparr>dsign = False, dint = 2, dexp = - 30\<rparr>)"
proof -
  have prep: "rate_get_db_prep_save \<lparr>dsign = False, dint = 65000, dexp = 0\<rparr>
      = Inr \<lparr>dsign = False, dint = 65000000000000000000000000000000000, dexp = - 30\<rparr>"
    "rate_get_db_prep_save \<lparr>dsign = False, dint = 25, dexp = - 31\<rparr> = Inr \<lparr>dsign = False, dint = 2, dexp = - 30\<rparr>"
    "rate_get_db_prep_save \<lparr>dsign = False, dint = 35, dexp = - 31\<rparr> = Inr \<lparr>dsign = False, dint = 4, dexp = - 30\<rparr>"
    "rate_get_db_prep_save \<lparr>dsign = False, dint = 251, dexp = - 32\<rparr> = Inr \<lparr>dsign = False, dint = 3, dexp = - 30\<rparr>"
    by (simp_all add: rate_get_db_prep_save_def format_number_def dec_quantize_def round_half_even_def
        rate_max_digits_def rate_decimal_places_def ndigits.simps Let_def)
  have run: "process_rate (\<lambda>n. \<lparr>ordinal = 739000, hour = 10, minute = 0, second = n, microsecond = 0\<rparr>) True False
     \<lparr>table = [],
      processed_pairs = {}, ticks = 0\<rparr>
     (\<lparr>cid = 1, code = ''USD'', exchange_currency = None\<rparr>, \<lparr>cid = 2, code = ''BTC'', exchange_currency = Some 1\<rparr>,
      \<lparr>dsign = False, dint = 65000, dexp = 0\<rparr>)
   = Inr \<lparr>table = [\<lparr>from_currency_id = 2, to_currency_id = 1,
        rate = \<lparr>dsign = False, dint = 65000000000000000000000000000000000, dexp = - 30\<rparr>,
        date = \<lparr>ordinal = 739000, hour = 10, minute = 0, second = 0, microsecond = 0\<rparr>, automatic = True\<rparr>],
      processed_pairs = {(2, 1)}, ticks = Suc 0\<rparr>"
    by (simp add: process_rate_def store_rate_def objects_create_def same_key_def
        to_microseconds_def prep Let_def)
  have tie: "process_rate (\<lambda>n. \<lparr>ordinal = 739000, hour = 10, minute = 0, second = n, microsecond = 0\<rparr>) True False
     \<lparr>table = [],
      processed_pairs = {}, ticks = 0\<rparr>
     (\<lparr>cid = 1, code = ''USD'', exchange_currency = None\<rparr>, \<lparr>cid = 2, code = ''BTC'', exchange_currency = Some 1\<rparr>,
      \<lparr>dsign = False, dint = 25, dexp = - 31\<rparr>)
   = Inr \<lparr>table = [\<lparr>from_currency_id = 2, to_currency_id = 1,
        rate = \<lparr>dsign = False, dint = 2, dexp = - 30\<rparr>,
        date = \<lparr>ordinal = 739000, hour = 10, minute = 0, second = 0, microsecond = 0\<rparr>, automatic = True\<rparr>],
      processed_pairs = {(2, 1)}, ticks = Suc 0\<rparr>"
    by (simp add: process_rate_def store_rate_def objects_create_def same_key_def
        to_microseconds_def prep Let_def)
  have others: "process_rate (\<lambda>n. \<lparr>ordinal = 739000, hour = 10, minute = 0, second = n, microsecond = 0\<rparr>) True False
     \<lparr>table = [],
      processed_pairs = {}, ticks = 0\<rparr>
     (\<lparr>cid = 1, code = ''USD'', exchange_currency = None\<rparr>, \<lparr>cid = 2, code = ''BTC'', exchange_currency = Some 1\<rparr>,
      \<lparr>dsign = False, dint = 35, dexp = - 31\<rparr>)
   = Inr \<lparr>table = [\<lparr>from_currency_id = 2, to_currency_id = 1,
        rate = \<lparr>dsign = False, dint = 4, dexp = - 30\<rparr>,
        date = \<lparr>ordinal = 739000, hour = 10, minute = 0, second = 0, microsecond = 0\<rparr>, automatic = True\<rparr>],
      processed_pairs = {(2, 1)}, ticks = Suc 0\<rparr>"
    "process_rate (\<lambda>n. \<lparr>ordinal = 739000, hour = 10, minute = 0, second = n, microsecond = 0\<rparr>) True False
     \<lparr>table = [],
      processed_pairs = {}, ticks = 0\<rparr>
     (\<lparr>cid = 1, code = ''USD'', exchange_currency = None\<rparr>, \<lparr>cid = 2, code = ''BTC'', exchange_currency = Some 1\<rparr>,
      \<lparr>dsign = False, dint = 251, dexp = - 32\<rparr>)
   = Inr \<lparr>table = [\<lparr>from_currency_id = 2, to_currency_id = 1,
        rate = \<lparr>dsign = False, dint = 3, dexp = - 30\<rparr>,
        date = \<lparr>ordinal = 739000, hour = 10, minute = 0, second = 0, microsecond = 0\<rparr>, automatic = True\<rparr>],
      processed_pairs = {(2, 1)}, ticks = Suc 0\<rparr>"
    by (simp_all add: process_rate_def store_rate_def objects_create_def same_key_def
        to_microseconds_def prep Let_def)
  have half: "2 * \<bar>dec_val \<lparr>dsign = False, dint = 2, dexp = - 30\<rparr> - dec_val \<lparr>dsign = False, dint = 25, dexp = - 31\<rparr>\<bar>
     = 10 powi (- 30)"
    by (simp add: dec_val_def power_int_def field_simps)
  from inverted_rate_stored_swapped_rounded [OF run] prep(1)
  have same: "dec_val \<lparr>dsign = False, dint = 65000000000000000000000000000000000, dexp = - 30\<rparr>
     = dec_val \<lparr>dsign = False, dint = 65000, dexp = 0\<rparr>"
    by auto
  from inverted_rate_stored_swapped_rounded [OF tie] prep(2) half
  have "even (dint \<lparr>dsign = False, dint = 2, dexp = - 30\<rparr>)"
    by auto
  with run tie others half same show ?thesis by simp
qed

text \<open>
  C3: let \<open>(f, t)\<close> be the pair a provider tuple resolves to, and let the loop not skip
  the tuple. Whenever the tuple is stored without an exception, the rate \<open>r\<close> fits its
  column, and with \<open>q\<close> the rate as the column holds it: if the service is a singleton
  and the table holds an automatic row for \<open>(f, t)\<close>, the most recent such row gets the
  rate \<open>q\<close> and the date of the moment, in place, and the number of rows for the pair
  stays as it was; if the service is no singleton, or the table holds no automatic row
  for \<open>(f, t)\<close>, one new row with the rate \<open>q\<close> is created, and the number of rows
  for the pair grows by exactly one. A rate that does
  not fit the column raises the exception of the column, and no state follows. And the
  tuple is stored without an exception whenever the rate fits the column and the moment
  is later than the date of every row the table holds for the pair.
\<close>

theorem singleton_overwrites_else_creates:
  assumes "(cid from_currency, cid to_currency) \<notin> processed_pairs st"
    and "f = (if rates_inverted then cid to_currency else cid from_currency)"
    and "t = (if rates_inverted then cid from_currency else cid to_currency)"
  shows "(\<forall>st'. process_rate clock rates_inverted service_singleton st
                 (from_currency, to_currency, r) = Inr st' \<longrightarrow>
          (\<exists>q. rate_get_db_prep_save r = Inr q \<and>
             (service_singleton \<and> filter_automatic (table st) f t \<noteq> [] \<longrightarrow>
                (\<exists>i \<in> set (filter_automatic (table st) f t).
                   (\<forall>j \<in> set (filter_automatic (table st) f t).
                      to_microseconds (date (table st ! j)) \<le> to_microseconds (date (table st ! i))) \<and>
                   table st' = (table st)[i := (table st ! i)\<lparr>rate := q, date := clock (ticks st)\<rparr>]) \<and>
                pair_count (table st') f t = pair_count (table st) f t) \<and>
             (\<not> service_singleton \<or> filter_automatic (table st) f t = [] \<longrightarrow>
                table st' = table st @ [\<lparr>from_currency_id = f, to_currency_id = t, rate = q,
                                         date = clock (ticks st), automatic = True\<rparr>] \<and>
                pair_count (table st') f t = Suc (pair_count (table st) f t)))) \<and>
         (\<forall>e. rate_get_db_prep_save r = Inl e \<longrightarrow>
            process_rate clock rates_inverted service_singleton st
              (from_currency, to_currency, r) = Inl e) \<and>
         ((\<exists>q. rate_get_db_prep_save r = Inr q) \<and>
          (\<forall>x \<in> set (table st). from_currency_id x = f \<and> to_currency_id x = t
              \<longrightarrow> to_microseconds (date x) < to_microseconds (clock (ticks st))) \<longrightarrow>
          (\<exists>st'. process_rate clock rates_inverted service_singleton st
                  (from_currency, to_currency, r) = Inr st'))"
proof -
  from assms have run: "process_rate clock rates_inverted service_singleton st
      (from_currency, to_currency, r) = store_rate clock service_singleton st f t r"
    by (simp add: process_rate_def)
  have stored: "(\<exists>q. rate_get_db_prep_save r = Inr q \<and>
             (service_singleton \<and> filter_automatic (table st) f t \<noteq> [] \<longrightarrow>
                (\<exists>i \<in> set (filter_automatic (table st) f t).
                   (\<forall>j \<in> set (filter_automatic (table st) f t).
                      to_microseconds (date (table st ! j)) \<le> to_microseconds (date (table st ! i))) \<and>
                   table st' = (table st)[i := (table st ! i)\<lparr>rate := q, date := clock (ticks st)\<rparr>]) \<and>
                pair_count (table st') f t = pair_count (table st) f t) \<and>
             (\<not> service_singleton \<or> filter_automatic (table st) f t = [] \<longrightarrow>
                table st' = table st @ [\<lparr>from_currency_id = f, to_currency_id = t, rate = q,
                                         date = clock (ticks st), automatic = True\<rparr>] \<and>
                pair_count (table st') f t = Suc (pair_count (table st) f t)))"
    if store: "store_rate clock service_singleton st f t r = Inr st'" for st'
  proof (cases service_singleton)
    case False
    with store have "store_rate clock False st f t r = Inr st'" by simp
    from store_rate_create [OF this]
    obtain q where q: "rate_get_db_prep_save r = Inr q"
      and app: "table st' = table st @ [\<lparr>from_currency_id = f, to_currency_id = t,
          rate = q, date = clock (ticks st), automatic = True\<rparr>]"
      by blast
    from app have "pair_count (table st') f t = Suc (pair_count (table st) f t)"
      by (simp add: pair_count_append)
    with False q app show ?thesis by blast
  next
    case True
    with store have store': "store_rate clock True st f t r = Inr st'" by simp
    from store_rate_singleton [OF store']
    obtain q where q: "rate_get_db_prep_save r = Inr q"
      and alt: "(filter_automatic (table st) f t = [] \<and>
           table st' = table st @ [\<lparr>from_currency_id = f, to_currency_id = t, rate = q,
             date = clock (ticks st), automatic = True\<rparr>]) \<or>
          (\<exists>i \<in> set (filter_automatic (table st) f t).
             (\<forall>j \<in> set (filter_automatic (table st) f t).
                to_microseconds (date (table st ! j)) \<le> to_microseconds (date (table st ! i))) \<and>
             table st' = (table st)[i := (table st ! i)\<lparr>rate := q, date := clock (ticks st)\<rparr>])"
      by blast
    have "(\<exists>i \<in> set (filter_automatic (table st) f t).
               (\<forall>j \<in> set (filter_automatic (table st) f t).
                  to_microseconds (date (table st ! j)) \<le> to_microseconds (date (table st ! i))) \<and>
               table st' = (table st)[i := (table st ! i)\<lparr>rate := q, date := clock (ticks st)\<rparr>]) \<and>
            pair_count (table st') f t = pair_count (table st) f t"
      if ne: "filter_automatic (table st) f t \<noteq> []"
    proof -
      from alt ne
      obtain i where i: "i \<in> set (filter_automatic (table st) f t)"
        and latest: "\<forall>j \<in> set (filter_automatic (table st) f t).
               to_microseconds (date (table st ! j)) \<le> to_microseconds (date (table st ! i))"
        and upd: "table st' = (table st)[i := (table st ! i)\<lparr>rate := q, date := clock (ticks st)\<rparr>]"
        by blast
      from i have "i < length (table st)" by (simp add: filter_automatic_iff)
      then have "pair_count (table st') f t = pair_count (table st) f t"
        unfolding upd by (intro pair_count_update) simp_all
      with i latest upd show ?thesis by blast
    qed
    moreover have "table st' = table st @ [\<lparr>from_currency_id = f, to_currency_id = t, rate = q,
             date = clock (ticks st), automatic = True\<rparr>] \<and>
           pair_count (table st') f t = Suc (pair_count (table st) f t)"
      if "filter_automatic (table st) f t = []"
    proof -
      from alt that
      have app: "table st' = table st @ [\<lparr>from_currency_id = f, to_currency_id = t, rate = q,
             date = clock (ticks st), automatic = True\<rparr>]"
        by auto
      then have "pair_count (table st') f t = Suc (pair_count (table st) f t)"
        by (simp add: pair_count_append)
      with app show ?thesis by simp
    qed
    ultimately show ?thesis using True q by blast
  qed
  have unfit: "store_rate clock service_singleton st f t r = Inl e"
    if "rate_get_db_prep_save r = Inl e" for e
    using that by (rule store_rate_unfit)
  have fit: "\<exists>st'. store_rate clock service_singleton st f t r = Inr st'"
    if "\<exists>q. rate_get_db_prep_save r = Inr q"
      and "\<forall>x \<in> set (table st). from_currency_id x = f \<and> to_currency_id x = t
              \<longrightarrow> to_microseconds (date x) < to_microseconds (clock (ticks st))"
    using that store_rate_succeeds by blast
  from stored unfit fit show ?thesis
    unfolding run by blast
qed

text \<open>
  The table holds an automatic row and a later manual row from BTC to USD, and the
  provider reports 65000. A singleton service overwrites the automatic row and leaves
  two rows for the pair; a service that is no singleton adds a third row; on an empty
  table a singleton service creates the first row. The rate
  \<^verbatim>\<open>1E+12\<close> needs 43 digits at 30 decimal places: it is not stored, whether the service
  is a singleton or not. The greatest rate that fits the column has twelve nines before
  the point and thirty after it; half a unit of the 30th place more rounds to
  \<^verbatim>\<open>1E+12\<close> and does not fit.
\<close>

theorem singleton_overwrites_else_creates_witness:
  "process_rate (\<lambda>n. \<lparr>ordinal = 739000, hour = 10, minute = 0, second = n, microsecond = 0\<rparr>) True True
     \<lparr>table = [\<lparr>from_currency_id = 2, to_currency_id = 1,
        rate = \<lparr>dsign = False, dint = 60000000000000000000000000000000000, dexp = - 30\<rparr>,
        date = \<lparr>ordinal = 738999, hour = 10, minute = 0, second = 0, microsecond = 0\<rparr>, automatic = True\<rparr>,
       \<lparr>from_currency_id = 2, to_currency_id = 1,
        rate = \<lparr>dsign = False, dint = 59000000000000000000000000000000000, dexp = - 30\<rparr>,
        date = \<lparr>ordinal = 738999, hour = 18, minute = 30, second = 0, microsecond = 0\<rparr>, automatic = False\<rparr>],
      processed_pairs = {}, ticks = 0\<rparr>
     (\<lparr>cid = 1, code = ''USD'', exchange_currency = None\<rparr>, \<lparr>cid = 2, code = ''BTC'', exchange_currency = Some 1\<rparr>,
      \<lparr>dsign = False, dint = 65000, dexp = 0\<rparr>)
   = Inr \<lparr>table = [\<lparr>from_currency_id = 2, to_currency_id = 1,
        rate = \<lparr>dsign = False, dint = 65000000000000000000000000000000000, dexp = - 30\<rparr>,
        date = \<lparr>ordinal = 739000, hour = 10, minute = 0, second = 0, microsecond = 0\<rparr>, automatic = True\<rparr>,
       \<lparr>from_currency_id = 2, to_currency_id = 1,
        rate = \<lparr>dsign = False, dint = 59000000000000000000000000000000000, dexp = - 30\<rparr>,
        date = \<lparr>ordinal = 738999, hour = 18, minute = 30, second = 0, microsecond = 0\<rparr>, automatic = False\<rparr>],
      processed_pairs = {(2, 1)}, ticks = Suc 0\<rparr> \<and>
   process_rate (\<lambda>n. \<lparr>ordinal = 739000, hour = 10, minute = 0, second = n, microsecond = 0\<rparr>) True False
     \<lparr>table = [\<lparr>from_currency_id = 2, to_currency_id = 1,
        rate = \<lparr>dsign = False, dint = 60000000000000000000000000000000000, dexp = - 30\<rparr>,
        date = \<lparr>ordinal = 738999, hour = 10, minute = 0, second = 0, microsecond = 0\<rparr>, automatic = True\<rparr>,
       \<lparr>from_currency_id = 2, to_currency_id = 1,
        rate = \<lparr>dsign = False, dint = 59000000000000000000000000000000000, dexp = - 30\<rparr>,
        date = \<lparr>ordinal = 738999, hour = 18, minute = 30, second = 0, microsecond = 0\<rparr>, automatic = False\<rparr>],
      processed_pairs = {}, ticks = 0\<rparr>
     (\<lparr>cid = 1, code = ''USD'', exchange_currency = None\<rparr>, \<lparr>cid = 2, code = ''BTC'', exchange_currency = Some 1\<rparr>,
      \<lparr>dsign = False, dint = 65000, dexp = 0\<rparr>)
   = Inr \<lparr>table = [\<lparr>from_currency_id = 2, to_currency_id = 1,
        rate = \<lparr>dsign = False, dint = 60000000000000000000000000000000000, dexp = - 30\<rparr>,
        date = \<lparr>ordinal = 738999, hour = 10, minute = 0, second = 0, microsecond = 0\<rparr>, automatic = True\<rparr>,
       \<lparr>from_currency_id = 2, to_currency_id = 1,
        rate = \<lparr>dsign = False, dint = 59000000000000000000000000000000000, dexp = - 30\<rparr>,
        date = \<lparr>ordinal = 738999, hour = 18, minute = 30, second = 0, microsecond = 0\<rparr>, automatic = False\<rparr>,
       \<lparr>from_currency_id = 2, to_currency_id = 1,
        rate = \<lparr>dsign = False, dint = 65000000000000000000000000000000000, dexp = - 30\<rparr>,
        date = \<lparr>ordinal = 739000, hour = 10, minute = 0, second = 0, microsecond = 0\<rparr>, automatic = True\<rparr>],
      processed_pairs = {(2, 1)}, ticks = Suc 0\<rparr> \<and>
   pair_count
     [\<lparr>from_currency_id = 2, to_currency_id = 1,
        rate = \<lparr>dsign = False, dint = 60000000000000000000000000000000000, dexp = - 30\<rparr>,
        date = \<lparr>ordinal = 738999, hour = 10, minute = 0, second = 0, microsecond = 0\<rparr>, automatic = True\<rparr>,
       \<lparr>from_currency_id = 2, to_currency_id = 1,
        rate = \<lparr>dsign = False, dint = 59000000000000000000000000000000000, dexp = - 30\<rparr>,
        date = \<lparr>ordinal = 738999, hour = 18, minute = 30, second = 0, microsecond = 0\<rparr>, automatic = False\<rparr>] 2 1 = 2 \<and>
   pair_count
     [\<lparr>from_currency_id = 2, to_currency_id = 1,
        rate = \<lparr>dsign = False, dint = 65000000000000000000000000000000000, dexp = - 30\<rparr>,
        date = \<lparr>ordinal = 739000, hour = 10, minute = 0, second = 0, microsecond = 0\<rparr>, automatic = True\<rparr>,
       \<lparr>from_currency_id = 2, to_currency_id = 1,
        rate = \<lparr>dsign = False, dint = 59000000000000000000000000000000000, dexp = - 30\<rparr>,
        date = \<lparr>ordinal = 738999, hour = 18, minute = 30, second = 0, microsecond = 0\<rparr>, automatic = False\<rparr>] 2 1 = 2 \<and>
   pair_count
     [\<lparr>from_currency_id = 2, to_currency_id = 1,
        rate = \<lparr>dsign = False, dint = 60000000000000000000000000000000000, dexp = - 30\<rparr>,
        date = \<lparr>ordinal = 738999, hour = 10, minute = 0, second = 0, microsecond = 0\<rparr>, automatic = True\<rparr>,
       \<lparr>from_currency_id = 2, to_currency_id = 1,
        rate = \<lparr>dsign = False, dint = 59000000000000000000000000000000000, dexp = - 30\<rparr>,
        date = \<lparr>ordinal = 738999, hour = 18, minute = 30, second = 0, microsecond = 0\<rparr>, automatic = False\<rparr>,
       \<lparr>from_currency_id = 2, to_currency_id = 1,
        rate = \<lparr>dsign = False, dint = 65000000000000000000000000000000000, dexp = - 30\<rparr>,
        date = \<lparr>ordinal = 739000, hour = 10, minute = 0, second = 0, microsecond = 0\<rparr>, automatic = True\<rparr>] 2 1 = 3 \<and>
   process_rate (\<lambda>n. \<lparr>ordinal = 739000, hour = 10, minute = 0, second = n, microsecond = 0\<rparr>) True False
     \<lparr>table = [\<lparr>from_currency_id = 2, to_currency_id = 1,
        rate = \<lparr>dsign = False, dint = 60000000000000000000000000000000000, dexp = - 30\<rparr>,
        date = \<lparr>ordinal = 738999, hour = 10, minute = 0, second = 0, microsecond = 0\<rparr>, automatic = True\<rparr>,
       \<lparr>from_currency_id = 2, to_currency_id = 1,
        rate = \<lparr>dsign = False, dint = 59000000000000000000000000000000000, dexp = - 30\<rparr>,
        date = \<lparr>ordinal = 738999, hour = 18, minute = 30, second = 0, microsecond = 0\<rparr>, automatic = False\<rparr>],
      processed_pairs = {}, ticks = 0\<rparr>
     (\<lparr>cid = 1, code = ''USD'', exchange_currency = None\<rparr>, \<lparr>cid = 2, code = ''BTC'', exchange_currency = Some 1\<rparr>,
      \<lparr>dsign = False, dint = 1, dexp = 12\<rparr>)
   = Inl InvalidOperation \<and>
   process_rate (\<lambda>n. \<lparr>ordinal = 739000, hour = 10, minute = 0, second = n, microsecond = 0\<rparr>) True True
     \<lparr>table = [\<lparr>from_currency_id = 2, to_currency_id = 1,
        rate = \<lparr>dsign = False, dint = 60000000000000000000000000000000000, dexp = - 30\<rparr>,
        date = \<lparr>ordinal = 738999, hour = 10, minute = 0, second = 0, microsecond = 0\<rparr>, automatic = True\<rparr>,
       \<lparr>from_currency_id = 2, to_currency_id = 1,
        rate = \<lparr>dsign = False, dint = 59000000000000000000000000000000000, dexp = - 30\<rparr>,
        date = \<lparr>ordinal = 738999, hour = 18, minute = 30, second = 0, microsecond = 0\<rparr>, automatic = False\<rparr>],
      processed_pairs = {}, ticks = 0\<rparr>
     (\<lparr>cid = 1, code = ''USD'', exchange_currency = None\<rparr>, \<lparr>cid = 2, code = ''BTC'', exchange_currency = Some 1\<rparr>,
      \<lparr>dsign = False, dint = 1, dexp = 12\<rparr>)
   = Inl InvalidOperation \<and>
   process_rate (\<lambda>n. \<lparr>ordinal = 739000, hour = 10, minute = 0, second = n, microsecond = 0\<rparr>) True True
     \<lparr>table = [], processed_pairs = {}, ticks = 0\<rparr>
     (\<lparr>cid = 1, code = ''USD'', exchange_currency = None\<rparr>, \<lparr>cid = 2, code = ''BTC'', exchange_currency = Some 1\<rparr>,
      \<lparr>dsign = False, dint = 65000, dexp = 0\<rparr>)
   = Inr \<lparr>table = [\<lparr>from_currency_id = 2, to_currency_id = 1,
        rate = \<lparr>dsign = False, dint = 65000000000000000000000000000000000, dexp = - 30\<rparr>,
        date = \<lparr>ordinal = 739000, hour = 10, minute = 0, second = 0, microsecond = 0\<rparr>, automatic = True\<rparr>],
      processed_pairs = {(2, 1)}, ticks = Suc 0\<rparr> \<and>
   rate_get_db_prep_save \<lparr>dsign = False, dint = 999999999999999999999999999999999999999999, dexp = - 30\<rparr>
   = Inr \<lparr>dsign = False, dint = 999999999999999999999999999999999999999999, dexp = - 30\<rparr> \<and>
   rate_get_db_prep_save \<lparr>dsign = False, dint = 9999999999999999999999999999999999999999995, dexp = - 31\<rparr>
   = Inl InvalidOperation"
proof -
  have bounds: "rate_get_db_prep_save \<lparr>dsign = False, dint = 999999999999999999999999999999999999999999, dexp = - 30\<rparr>
   = Inr \<lparr>dsign = False, dint = 999999999999999999999999999999999999999999, dexp = - 30\<rparr>"
    "rate_get_db_prep_save \<lparr>dsign = False, dint = 9999999999999999999999999999999999999999995, dexp = - 31\<rparr>
   = Inl InvalidOperation"
    by (simp_all add: rate_get_db_prep_save_def format_number_def dec_quantize_def
        round_half_even_def rate_max_digits_def rate_decimal_places_def ndigits.simps Let_def)
  have prep: "rate_get_db_prep_save \<lparr>dsign = False, dint = 65000, dexp = 0\<rparr>
      = Inr \<lparr>dsign = False, dint = 65000000000000000000000000000000000, dexp = - 30\<rparr>"
    "rate_get_db_prep_save \<lparr>dsign = False, dint = 1, dexp = 12\<rparr> = Inl InvalidOperation"
    by (simp_all add: rate_get_db_prep_save_def format_number_def dec_quantize_def round_half_even_def
        rate_max_digits_def rate_decimal_places_def ndigits.simps Let_def)
  have upd: "process_rate (\<lambda>n. \<lparr>ordinal = 739000, hour = 10, minute = 0, second = n, microsecond = 0\<rparr>) True True
     \<lparr>table = [\<lparr>from_currency_id = 2, to_currency_id = 1,
        rate = \<lparr>dsign = False, dint = 60000000000000000000000000000000000, dexp = - 30\<rparr>,
        date = \<lparr>ordinal = 738999, hour = 10, minute = 0, second = 0, microsecond = 0\<rparr>, automatic = True\<rparr>,
       \<lparr>from_currency_id = 2, to_currency_id = 1,
        rate = \<lparr>dsign = False, dint = 59000000000000000000000000000000000, dexp = - 30\<rparr>,
        date = \<lparr>ordinal = 738999, hour = 18, minute = 30, second = 0, microsecond = 0\<rparr>, automatic = False\<rparr>],
      processed_pairs = {}, ticks = 0\<rparr>
     (\<lparr>cid = 1, code = ''USD'', exchange_currency = None\<rparr>, \<lparr>cid = 2, code = ''BTC'', exchange_currency = Some 1\<rparr>,
      \<lparr>dsign = False, dint = 65000, dexp = 0\<rparr>)
   = Inr \<lparr>table = [\<lparr>from_currency_id = 2, to_currency_id = 1,
        rate = \<lparr>dsign = False, dint = 65000000000000000000000000000000000, dexp = - 30\<rparr>,
        date = \<lparr>ordinal = 739000, hour = 10, minute = 0, second = 0, microsecond = 0\<rparr>, automatic = True\<rparr>,
       \<lparr>from_currency_id = 2, to_currency_id = 1,
        rate = \<lparr>dsign = False, dint = 59000000000000000000000000000000000, dexp = - 30\<rparr>,
        date = \<lparr>ordinal = 738999, hour = 18, minute = 30, second = 0, microsecond = 0\<rparr>, automatic = False\<rparr>],
      processed_pairs = {(2, 1)}, ticks = Suc 0\<rparr>"
    by (simp add: process_rate_def store_rate_def save_row_def same_key_def
        to_microseconds_def filter_automatic_def order_by_date_desc_first_def prep Let_def)
  have new: "process_rate (\<lambda>n. \<lparr>ordinal = 739000, hour = 10, minute = 0, second = n, microsecond = 0\<rparr>) True False
     \<lparr>table = [\<lparr>from_currency_id = 2, to_currency_id = 1,
        rate = \<lparr>dsign = False, dint = 60000000000000000000000000000000000, dexp = - 30\<rparr>,
        date = \<lparr>ordinal = 738999, hour = 10, minute = 0, second = 0, microsecond = 0\<rparr>, automatic = True\<rparr>,
       \<lparr>from_currency_id = 2, to_currency_id = 1,
        rate = \<lparr>dsign = False, dint = 59000000000000000000000000000000000, dexp = - 30\<rparr>,
        date = \<lparr>ordinal = 738999, hour = 18, minute = 30, second = 0, microsecond = 0\<rparr>, automatic = False\<rparr>],
      processed_pairs = {}, ticks = 0\<rparr>
     (\<lparr>cid = 1, code = ''USD'', exchange_currency = None\<rparr>, \<lparr>cid = 2, code = ''BTC'', exchange_currency = Some 1\<rparr>,
      \<lparr>dsign = False, dint = 65000, dexp = 0\<rparr>)
   = Inr \<lparr>table = [\<lparr>from_currency_id = 2, to_currency_id = 1,
        rate = \<lparr>dsign = False, dint = 60000000000000000000000000000000000, dexp = - 30\<rparr>,
        date = \<lparr>ordinal = 738999, hour = 10, minute = 0, second = 0, microsecond = 0\<rparr>, automatic = True\<rparr>,
       \<lparr>from_currency_id = 2, to_currency_id = 1,
        rate = \<lparr>dsign = False, dint = 59000000000000000000000000000000000, dexp = - 30\<rparr>,
        date = \<lparr>ordinal = 738999, hour = 18, minute = 30, second = 0, microsecond = 0\<rparr>, automatic = False\<rparr>,
       \<lparr>from_currency_id = 2, to_currency_id = 1,
        rate = \<lparr>dsign = False, dint = 65000000000000000000000000000000000, dexp = - 30\<rparr>,
        date = \<lparr>ordinal = 739000, hour = 10, minute = 0, second = 0, microsecond = 0\<rparr>, automatic = True\<rparr>],
      processed_pairs = {(2, 1)}, ticks = Suc 0\<rparr>"
    by (simp add: process_rate_def store_rate_def objects_create_def same_key_def
        to_microseconds_def prep Let_def)
  have first: "process_rate (\<lambda>n. \<lparr>ordinal = 739000, hour = 10, minute = 0, second = n, microsecond = 0\<rparr>) True True
     \<lparr>table = [], processed_pairs = {}, ticks = 0\<rparr>
     (\<lparr>cid = 1, code = ''USD'', exchange_currency = None\<rparr>, \<lparr>cid = 2, code = ''BTC'', exchange_currency = Some 1\<rparr>,
      \<lparr>dsign = False, dint = 65000, dexp = 0\<rparr>)
   = Inr \<lparr>table = [\<lparr>from_currency_id = 2, to_currency_id = 1,
        rate = \<lparr>dsign = False, dint = 65000000000000000000000000000000000, dexp = - 30\<rparr>,
        date = \<lparr>ordinal = 739000, hour = 10, minute = 0, second = 0, microsecond = 0\<rparr>, automatic = True\<rparr>],
      processed_pairs = {(2, 1)}, ticks = Suc 0\<rparr>"
    by (simp add: process_rate_def store_rate_def objects_create_def same_key_def
        to_microseconds_def filter_automatic_def order_by_date_desc_first_def prep Let_def)
  have counts: "pair_count
     [\<lparr>from_currency_id = 2, to_currency_id = 1,
        rate = \<lparr>dsign = False, dint = 60000000000000000000000000000000000, dexp = - 30\<rparr>,
        date = \<lparr>ordinal = 738999, hour = 10, minute = 0, second = 0, microsecond = 0\<rparr>, automatic = True\<rparr>,
       \<lparr>from_currency_id = 2, to_currency_id = 1,
        rate = \<lparr>dsign = False, dint = 59000000000000000000000000000000000, dexp = - 30\<rparr>,
        date = \<lparr>ordinal = 738999, hour = 18, minute = 30, second = 0, microsecond = 0\<rparr>, automatic = False\<rparr>] 2 1 = 2"
    "pair_count
     [\<lparr>from_currency_id = 2, to_currency_id = 1,
        rate = \<lparr>dsign = False, dint = 65000000000000000000000000000000000, dexp = - 30\<rparr>,
        date = \<lparr>ordinal = 739000, hour = 10, minute = 0, second = 0, microsecond = 0\<rparr>, automatic = True\<rparr>,
       \<lparr>from_currency_id = 2, to_currency_id = 1,
        rate = \<lparr>dsign = False, dint = 59000000000000000000000000000000000, dexp = - 30\<rparr>,
        date = \<lparr>ordinal = 738999, hour = 18, minute = 30, second = 0, microsecond = 0\<rparr>, automatic = False\<rparr>] 2 1 = 2"
    "pair_count
     [\<lparr>from_currency_id = 2, to_currency_id = 1,
        rate = \<lparr>dsign = False, dint = 60000000000000000000000000000000000, dexp = - 30\<rparr>,
        date = \<lparr>ordinal = 738999, hour = 10, minute = 0, second = 0, microsecond = 0\<rparr>, automatic = True\<rparr>,
       \<lparr>from_currency_id = 2, to_currency_id = 1,
        rate = \<lparr>dsign = False, dint = 59000000000000000000000000000000000, dexp = - 30\<rparr>,
        date = \<lparr>ordinal = 738999, hour = 18, minute = 30, second = 0, microsecond = 0\<rparr>, automatic = False\<rparr>,
       \<lparr>from_currency_id = 2, to_currency_id = 1,
        rate = \<lparr>dsign = False, dint = 65000000000000000000000000000000000, dexp = - 30\<rparr>,
        date = \<lparr>ordinal = 739000, hour = 10, minute = 0, second = 0, microsecond = 0\<rparr>, automatic = True\<rparr>] 2 1 = 3"
    by (simp_all add: pair_count_def)
  let ?st = "\<lparr>table = [\<lparr>from_currency_id = 2, to_currency_id = 1,
        rate = \<lparr>dsign = False, dint = 60000000000000000000000000000000000, dexp = - 30\<rparr>,
        date = \<lparr>ordinal = 738999, hour = 10, minute = 0, second = 0, microsecond = 0\<rparr>, automatic = True\<rparr>,
       \<lparr>from_currency_id = 2, to_currency_id = 1,
        rate = \<lparr>dsign = False, dint = 59000000000000000000000000000000000, dexp = - 30\<rparr>,
        date = \<lparr>ordinal = 738999, hour = 18, minute = 30, second = 0, microsecond = 0\<rparr>, automatic = False\<rparr>],
      processed_pairs = {}, ticks = 0\<rparr>"
  from singleton_overwrites_else_creates [where st = ?st and f = 2 and t = 1
      and rates_inverted = True and service_singleton = True
      and from_currency = "\<lparr>cid = 1, code = ''USD'', exchange_currency = None\<rparr>"
      and to_currency = "\<lparr>cid = 2, code = ''BTC'', exchange_currency = Some 1\<rparr>"
      and r = "\<lparr>dsign = False, dint = 1, dexp = 12\<rparr>"] prep(2)
  have unfit_singleton: "process_rate (\<lambda>n. \<lparr>ordinal = 739000, hour = 10, minute = 0, second = n, microsecond = 0\<rparr>) True True
     \<lparr>table = [\<lparr>from_currency_id = 2, to_currency_id = 1,
        rate = \<lparr>dsign = False, dint = 60000000000000000000000000000000000, dexp = - 30\<rparr>,
        date = \<lparr>ordinal = 738999, hour = 10, minute = 0, second = 0, microsecond = 0\<rparr>, automatic = True\<rparr>,
       \<lparr>from_currency_id = 2, to_currency_id = 1,
        rate = \<lparr>dsign = False, dint = 59000000000000000000000000000000000, dexp = - 30\<rparr>,
        date = \<lparr>ordinal = 738999, hour = 18, minute = 30, second = 0, microsecond = 0\<rparr>, automatic = False\<rparr>],
      processed_pairs = {}, ticks = 0\<rparr>
     (\<lparr>cid = 1, code = ''USD'', exchange_currency = None\<rparr>, \<lparr>cid = 2, code = ''BTC'', exchange_currency = Some 1\<rparr>,
      \<lparr>dsign = False, dint = 1, dexp = 12\<rparr>)
   = Inl InvalidOperation"
    by simp
  from singleton_overwrites_else_creates [where st = ?st and f = 2 and t = 1
      and rates_inverted = True and service_singleton = False
      and from_currency = "\<lparr>cid = 1, code = ''USD'', exchange_currency = None\<rparr>"
      and to_currency = "\<lparr>cid = 2, code = ''BTC'', exchange_currency = Some 1\<rparr>"
      and r = "\<lparr>dsign = False, dint = 1, dexp = 12\<rparr>"] prep(2)
  have unfit_new: "process_rate (\<lambda>n. \<lparr>ordinal = 739000, hour = 10, minute = 0, second = n, microsecond = 0\<rparr>) True False
     \<lparr>table = [\<lparr>from_currency_id = 2, to_currency_id = 1,
        rate = \<lparr>dsign = False, dint = 60000000000000000000000000000000000, dexp = - 30\<rparr>,
        date = \<lparr>ordinal = 738999, hour = 10, minute = 0, second = 0, microsecond = 0\<rparr>, automatic = True\<rparr>,
       \<lparr>from_currency_id = 2, to_currency_id = 1,
        rate = \<lparr>dsign = False, dint = 59000000000000000000000000000000000, dexp = - 30\<rparr>,
        date = \<lparr>ordinal = 738999, hour = 18, minute = 30, second = 0, microsecond = 0\<rparr>, automatic = False\<rparr>],
      processed_pairs = {}, ticks = 0\<rparr>
     (\<lparr>cid = 1, code = ''USD'', exchange_currency = None\<rparr>, \<lparr>cid = 2, code = ''BTC'', exchange_currency = Some 1\<rparr>,
      \<lparr>dsign = False, dint = 1, dexp = 12\<rparr>)
   = Inl InvalidOperation"
    by simp
  from singleton_overwrites_else_creates [where st = ?st and f = 2 and t = 1
      and rates_inverted = True and service_singleton = True
      and from_currency = "\<lparr>cid = 1, code = ''USD'', exchange_currency = None\<rparr>"
      and to_currency = "\<lparr>cid = 2, code = ''BTC'', exchange_currency = Some 1\<rparr>"
      and r = "\<lparr>dsign = False, dint = 65000, dexp = 0\<rparr>" and clock = "(\<lambda>n. \<lparr>ordinal = 739000, hour = 10, minute = 0, second = n, microsecond = 0\<rparr>)"] upd prep(1)
  have "pair_count
     [\<lparr>from_currency_id = 2, to_currency_id = 1,
        rate = \<lparr>dsign = False, dint = 65000000000000000000000000000000000, dexp = - 30\<rparr>,
        date = \<lparr>ordinal = 739000, hour = 10, minute = 0, second = 0, microsecond = 0\<rparr>, automatic = True\<rparr>,
       \<lparr>from_currency_id = 2, to_currency_id = 1,
        rate = \<lparr>dsign = False, dint = 59000000000000000000000000000000000, dexp = - 30\<rparr>,
        date = \<lparr>ordinal = 738999, hour = 18, minute = 30, second = 0, microsecond = 0\<rparr>, automatic = False\<rparr>] 2 1
    = pair_count
     [\<lparr>from_currency_id = 2, to_currency_id = 1,
        rate = \<lparr>dsign = False, dint = 60000000000000000000000000000000000, dexp = - 30\<rparr>,
        date = \<lparr>ordinal = 738999, hour = 10, minute = 0, second = 0, microsecond = 0\<rparr>, automatic = True\<rparr>,
       \<lparr>from_currency_id = 2, to_currency_id = 1,
        rate = \<lparr>dsign = False, dint = 59000000000000000000000000000000000, dexp = - 30\<rparr>,
        date = \<lparr>ordinal = 738999, hour = 18, minute = 30, second = 0, microsecond = 0\<rparr>, automatic = False\<rparr>] 2 1"
    by (simp add: filter_automatic_def)
  moreover
  from singleton_overwrites_else_creates [where st = ?st and f = 2 and t = 1
      and rates_inverted = True and service_singleton = False
      and from_currency = "\<lparr>cid = 1, code = ''USD'', exchange_currency = None\<rparr>"
      and to_currency = "\<lparr>cid = 2, code = ''BTC'', exchange_currency = Some 1\<rparr>"
      and r = "\<lparr>dsign = False, dint = 65000, dexp = 0\<rparr>" and clock = "(\<lambda>n. \<lparr>ordinal = 739000, hour = 10, minute = 0, second = n, microsecond = 0\<rparr>)"] new prep(1)
  have "pair_count
     [\<lparr>from_currency_id = 2, to_currency_id = 1,
        rate = \<lparr>dsign = False, dint = 60000000000000000000000000000000000, dexp = - 30\<rparr>,
        date = \<lparr>ordinal = 738999, hour = 10, minute = 0, second = 0, microsecond = 0\<rparr>, automatic = True\<rparr>,
       \<lparr>from_currency_id = 2, to_currency_id = 1,
        rate = \<lparr>dsign = False, dint = 59000000000000000000000000000000000, dexp = - 30\<rparr>,
        date = \<lparr>ordinal = 738999, hour = 18, minute = 30, second = 0, microsecond = 0\<rparr>, automatic = False\<rparr>,
       \<lparr>from_currency_id = 2, to_currency_id = 1,
        rate = \<lparr>dsign = False, dint = 65000000000000000000000000000000000, dexp = - 30\<rparr>,
        date = \<lparr>ordinal = 739000, hour = 10, minute = 0, second = 0, microsecond = 0\<rparr>, automatic = True\<rparr>] 2 1
    = Suc (pair_count
     [\<lparr>from_currency_id = 2, to_currency_id = 1,
        rate = \<lparr>dsign = False, dint = 60000000000000000000000000000000000, dexp = - 30\<rparr>,
        date = \<lparr>ordinal = 738999, hour = 10, minute = 0, second = 0, microsecond = 0\<rparr>, automatic = True\<rparr>,
       \<lparr>from_currency_id = 2, to_currency_id = 1,
        rate = \<lparr>dsign = False, dint = 59000000000000000000000000000000000, dexp = - 30\<rparr>,
        date = \<lparr>ordinal = 738999, hour = 18, minute = 30, second = 0, microsecond = 0\<rparr>, automatic = False\<rparr>] 2 1)"
    by simp
  ultimately show ?thesis
    using upd new first counts unfit_singleton unfit_new bounds by simp
qed

text \<open>
  C4, as stated, says that the composed rate is the exact product of the edge weights.
  The weights are \<^verbatim>\<open>Decimal\<close> values and are multiplied in the default context, which
  rounds every product to 28 significant digits. For the rates 0.9123456789012345 and
  0.8123456789012345 the search returns 0.7411400699196310366912056240, and the exact
  product is 0.74114006991963103669120562399025.
\<close>

theorem composed_rate_rounded_counterexample:
  "build_currency_graph
     [\<lparr>from_currency_id = 1, to_currency_id = 2, rate = \<lparr>dsign = False, dint = 9123456789012345, dexp = - 16\<rparr>,
        date = \<lparr>ordinal = 739000, hour = 8, minute = 0, second = 0, microsecond = 0\<rparr>, automatic = True\<rparr>,
      \<lparr>from_currency_id = 2, to_currency_id = 3, rate = \<lparr>dsign = False, dint = 8123456789012345, dexp = - 16\<rparr>,
        date = \<lparr>ordinal = 739000, hour = 8, minute = 0, second = 0, microsecond = 0\<rparr>, automatic = True\<rparr>]
   = Inr [(1, [(2, \<lparr>dsign = False, dint = 9123456789012345, dexp = - 16\<rparr>)]),
      (2, [(1, \<lparr>dsign = False, dint = 1096075778211971421276380554, dexp = - 27\<rparr>),
           (3, \<lparr>dsign = False, dint = 8123456789012345, dexp = - 16\<rparr>)]),
      (3, [(2, \<lparr>dsign = False, dint = 1231003039682052190389896474, dexp = - 27\<rparr>)])] \<and>
   find_conversion_path
     [(1, [(2, \<lparr>dsign = False, dint = 9123456789012345, dexp = - 16\<rparr>)]),
      (2, [(1, \<lparr>dsign = False, dint = 1096075778211971421276380554, dexp = - 27\<rparr>),
           (3, \<lparr>dsign = False, dint = 8123456789012345, dexp = - 16\<rparr>)]),
      (3, [(2, \<lparr>dsign = False, dint = 1231003039682052190389896474, dexp = - 27\<rparr>)])] 1 3
   = (Some [1, 2, 3], Some \<lparr>dsign = False, dint = 7411400699196310366912056240, dexp = - 28\<rparr>) \<and>
   hop_weights
     [(1, [(2, \<lparr>dsign = False, dint = 9123456789012345, dexp = - 16\<rparr>)]),
      (2, [(1, \<lparr>dsign = False, dint = 1096075778211971421276380554, dexp = - 27\<rparr>),
           (3, \<lparr>dsign = False, dint = 8123456789012345, dexp = - 16\<rparr>)]),
      (3, [(2, \<lparr>dsign = False, dint = 1231003039682052190389896474, dexp = - 27\<rparr>)])] [1, 2, 3]
   = Some [\<lparr>dsign = False, dint = 9123456789012345, dexp = - 16\<rparr>,
           \<lparr>dsign = False, dint = 8123456789012345, dexp = - 16\<rparr>] \<and>
   dec_val \<lparr>dsign = False, dint = 7411400699196310366912056240, dexp = - 28\<rparr>
     \<noteq> 1 * dec_val \<lparr>dsign = False, dint = 9123456789012345, dexp = - 16\<rparr>
         * dec_val \<lparr>dsign = False, dint = 8123456789012345, dexp = - 16\<rparr>"
proof -
  have inv1: "dec_truediv dec_one \<lparr>dsign = False, dint = 9123456789012345, dexp = - 16\<rparr>
      = Inr \<lparr>dsign = False, dint = 1096075778211971421276380554, dexp = - 27\<rparr>"
    and inv2: "dec_truediv dec_one \<lparr>dsign = False, dint = 8123456789012345, dexp = - 16\<rparr>
      = Inr \<lparr>dsign = False, dint = 1231003039682052190389896474, dexp = - 27\<rparr>"
    by (simp_all add: dec_truediv_def dec_one_def dec_fix_def prec_def ndigits.simps
        strip_exact.simps Let_def)
  have built: "build_currency_graph
     [\<lparr>from_currency_id = 1, to_currency_id = 2, rate = \<lparr>dsign = False, dint = 9123456789012345, dexp = - 16\<rparr>,
        date = \<lparr>ordinal = 739000, hour = 8, minute = 0, second = 0, microsecond = 0\<rparr>, automatic = True\<rparr>,
      \<lparr>from_currency_id = 2, to_currency_id = 3, rate = \<lparr>dsign = False, dint = 8123456789012345, dexp = - 16\<rparr>,
        date = \<lparr>ordinal = 739000, hour = 8, minute = 0, second = 0, microsecond = 0\<rparr>, automatic = True\<rparr>]
   = Inr [(1, [(2, \<lparr>dsign = False, dint = 9123456789012345, dexp = - 16\<rparr>)]),
      (2, [(1, \<lparr>dsign = False, dint = 1096075778211971421276380554, dexp = - 27\<rparr>),
           (3, \<lparr>dsign = False, dint = 8123456789012345, dexp = - 16\<rparr>)]),
      (3, [(2, \<lparr>dsign = False, dint = 1231003039682052190389896474, dexp = - 27\<rparr>)])]"
    by (simp add: build_currency_graph_def set_edge_def inv1 inv2)
  have mul1: "dec_mul dec_one \<lparr>dsign = False, dint = 9123456789012345, dexp = - 16\<rparr>
      = \<lparr>dsign = False, dint = 9123456789012345, dexp = - 16\<rparr>"
    and mul2: "dec_mul \<lparr>dsign = False, dint = 9123456789012345, dexp = - 16\<rparr>
        \<lparr>dsign = False, dint = 8123456789012345, dexp = - 16\<rparr>
      = \<lparr>dsign = False, dint = 7411400699196310366912056240, dexp = - 28\<rparr>"
    by (simp_all add: dec_mul_def dec_one_def dec_fix_def prec_def ndigits.simps Let_def)
  have found: "find_conversion_path
     [(1, [(2, \<lparr>dsign = False, dint = 9123456789012345, dexp = - 16\<rparr>)]),
      (2, [(1, \<lparr>dsign = False, dint = 1096075778211971421276380554, dexp = - 27\<rparr>),
           (3, \<lparr>dsign = False, dint = 8123456789012345, dexp = - 16\<rparr>)]),
      (3, [(2, \<lparr>dsign = False, dint = 1231003039682052190389896474, dexp = - 27\<rparr>)])] 1 3
   = (Some [1, 2, 3], Some \<lparr>dsign = False, dint = 7411400699196310366912056240, dexp = - 28\<rparr>)"
    by (simp add: find_conversion_path_def bfs_loop.simps graph_items_def mul1 mul2)
  have weights: "hop_weights
     [(1, [(2, \<lparr>dsign = False, dint = 9123456789012345, dexp = - 16\<rparr>)]),
      (2, [(1, \<lparr>dsign = False, dint = 1096075778211971421276380554, dexp = - 27\<rparr>),
           (3, \<lparr>dsign = False, dint = 8123456789012345, dexp = - 16\<rparr>)]),
      (3, [(2, \<lparr>dsign = False, dint = 1231003039682052190389896474, dexp = - 27\<rparr>)])] [1, 2, 3]
   = Some [\<lparr>dsign = False, dint = 9123456789012345, dexp = - 16\<rparr>,
           \<lparr>dsign = False, dint = 8123456789012345, dexp = - 16\<rparr>]"
    by (simp add: edge_weight_def graph_items_def)
  have "dec_val \<lparr>dsign = False, dint = 7411400699196310366912056240, dexp = - 28\<rparr>
     \<noteq> 1 * dec_val \<lparr>dsign = False, dint = 9123456789012345, dexp = - 16\<rparr>
         * dec_val \<lparr>dsign = False, dint = 8123456789012345, dexp = - 16\<rparr>"
    by (simp add: dec_val_def power_int_def field_simps)
  with built found weights show ?thesis by simp
qed

text \<open>
  C4, amended: for every graph, source id and target id, the path search either finds no
  path, and then an endpoint is no key of the graph or no chain of edges leads from the
  source to the target, or it returns a path from the source to the target along edges
  of the graph such that no path between the two is shorter and every other path of the
  same length comes later in the order of discovery; with the path it returns the rate
  composed along it, the edge weights multiplied one after the other onto
  \<^verbatim>\<open>Decimal("1")\<close> in the arithmetic of the default decimal context, each product
  rounded to 28 significant digits. That rate is the exact product of the weights
  whenever no product of the run has more than 28 digits.
\<close>

theorem find_conversion_path_first_shortest:
  "(find_conversion_path graph from_id to_id = (None, None) \<and>
      (from_id \<notin> fst ` set graph \<or> to_id \<notin> fst ` set graph \<or>
       (\<forall>p. \<not> is_conversion_path graph from_id to_id p))) \<or>
   (\<exists>path ws.
      find_conversion_path graph from_id to_id = (Some path, Some (compose_rate ws)) \<and>
      from_id \<in> fst ` set graph \<and> to_id \<in> fst ` set graph \<and>
      is_conversion_path graph from_id to_id path \<and> hop_weights graph path = Some ws \<and>
      (\<forall>p'. is_conversion_path graph from_id to_id p' \<longrightarrow> length path \<le> length p') \<and>
      (\<forall>p'. is_conversion_path graph from_id to_id p' \<and> length p' = length path \<and> p' \<noteq> path
            \<longrightarrow> discovered_before graph path p') \<and>
      (unrounded dec_one ws \<longrightarrow> dec_val (compose_rate ws) = prod_list (map dec_val ws)))"
  using find_conversion_path_cases [of graph from_id to_id] compose_rate_exact by blast

text \<open>
  The graph built from the rates USD to EUR 0.9 and EUR to GBP 0.8 (ids 1, 2, 3) gives
  the path [USD, EUR, GBP] with the rate 0.72, which is the exact product of the two
  weights, no product being rounded; the longer path that first goes back to USD is a
  path of the graph too; and for a currency that the graph does not hold the search
  finds no path. In a graph with the two shortest paths [1, 2, 4] and [1, 3, 4] the
  search returns the first, since 2 comes before 3 among the items of 1.
\<close>

theorem find_conversion_path_first_shortest_witness:
  "build_currency_graph
     [\<lparr>from_currency_id = 1, to_currency_id = 2, rate = \<lparr>dsign = False, dint = 9, dexp = - 1\<rparr>,
        date = \<lparr>ordinal = 739000, hour = 8, minute = 0, second = 0, microsecond = 0\<rparr>, automatic = True\<rparr>,
      \<lparr>from_currency_id = 2, to_currency_id = 3, rate = \<lparr>dsign = False, dint = 8, dexp = - 1\<rparr>,
        date = \<lparr>ordinal = 739000, hour = 8, minute = 0, second = 0, microsecond = 0\<rparr>, automatic = True\<rparr>]
   = Inr [(1, [(2, \<lparr>dsign = False, dint = 9, dexp = - 1\<rparr>)]),
      (2, [(1, \<lparr>dsign = False, dint = 1111111111111111111111111111, dexp = - 27\<rparr>),
           (3, \<lparr>dsign = False, dint = 8, dexp = - 1\<rparr>)]),
      (3, [(2, \<lparr>dsign = False, dint = 125, dexp = - 2\<rparr>)])] \<and>
   find_conversion_path
     [(1, [(2, \<lparr>dsign = False, dint = 9, dexp = - 1\<rparr>)]),
      (2, [(1, \<lparr>dsign = False, dint = 1111111111111111111111111111, dexp = - 27\<rparr>),
           (3, \<lparr>dsign = False, dint = 8, dexp = - 1\<rparr>)]),
      (3, [(2, \<lparr>dsign = False, dint = 125, dexp = - 2\<rparr>)])] 1 3
   = (Some [1, 2, 3], Some \<lparr>dsign = False, dint = 72, dexp = - 2\<rparr>) \<and>
   unrounded dec_one [\<lparr>dsign = False, dint = 9, dexp = - 1\<rparr>, \<lparr>dsign = False, dint = 8, dexp = - 1\<rparr>] \<and>
   dec_val \<lparr>dsign = False, dint = 72, dexp = - 2\<rparr>
     = dec_val \<lparr>dsign = False, dint = 9, dexp = - 1\<rparr> * dec_val \<lparr>dsign = False, dint = 8, dexp = - 1\<rparr> \<and>
   dec_val \<lparr>dsign = False, dint = 72, dexp = - 2\<rparr> = 72 / 100 \<and>
   is_conversion_path
     [(1, [(2, \<lparr>dsign = False, dint = 9, dexp = - 1\<rparr>)]),
      (2, [(1, \<lparr>dsign = False, dint = 1111111111111111111111111111, dexp = - 27\<rparr>),
           (3, \<lparr>dsign = False, dint = 8, dexp = - 1\<rparr>)]),
      (3, [(2, \<lparr>dsign = False, dint = 125, dexp = - 2\<rparr>)])] 1 3 [1, 2, 1, 2, 3] \<and>
   length [1, 2, 3 :: nat] \<le> length [1, 2, 1, 2, 3 :: nat] \<and>
   find_conversion_path
     [(1, [(2, \<lparr>dsign = False, dint = 9, dexp = - 1\<rparr>)]),
      (2, [(1, \<lparr>dsign = False, dint = 1111111111111111111111111111, dexp = - 27\<rparr>),
           (3, \<lparr>dsign = False, dint = 8, dexp = - 1\<rparr>)]),
      (3, [(2, \<lparr>dsign = False, dint = 125, dexp = - 2\<rparr>)])] 1 7
   = (None, None) \<and>
   find_conversion_path
     [(1, [(2, \<lparr>dsign = False, dint = 2, dexp = 0\<rparr>), (3, \<lparr>dsign = False, dint = 3, dexp = 0\<rparr>)]),
      (2, [(1, \<lparr>dsign = False, dint = 5, dexp = - 1\<rparr>), (4, \<lparr>dsign = False, dint = 6, dexp = 0\<rparr>)]),
      (3, [(1, \<lparr>dsign = False, dint = 5, dexp = - 1\<rparr>), (4, \<lparr>dsign = False, dint = 5, dexp = 0\<rparr>)]),
      (4, [(2, \<lparr>dsign = False, dint = 5, dexp = - 1\<rparr>), (3, \<lparr>dsign = False, dint = 5, dexp = - 1\<rparr>)])] 1 4
   = (Some [1, 2, 4], Some \<lparr>dsign = False, dint = 12, dexp = 0\<rparr>) \<and>
   is_conversion_path
     [(1, [(2, \<lparr>dsign = False, dint = 2, dexp = 0\<rparr>), (3, \<lparr>dsign = False, dint = 3, dexp = 0\<rparr>)]),
      (2, [(1, \<lparr>dsign = False, dint = 5, dexp = - 1\<rparr>), (4, \<lparr>dsign = False, dint = 6, dexp = 0\<rparr>)]),
      (3, [(1, \<lparr>dsign = False, dint = 5, dexp = - 1\<rparr>), (4, \<lparr>dsign = False, dint = 5, dexp = 0\<rparr>)]),
      (4, [(2, \<lparr>dsign = False, dint = 5, dexp = - 1\<rparr>), (3, \<lparr>dsign = False, dint = 5, dexp = - 1\<rparr>)])] 1 4 [1, 3, 4] \<and>
   discovered_before
     [(1, [(2, \<lparr>dsign = False, dint = 2, dexp = 0\<rparr>), (3, \<lparr>dsign = False, dint = 3, dexp = 0\<rparr>)]),
      (2, [(1, \<lparr>dsign = False, dint = 5, dexp = - 1\<rparr>), (4, \<lparr>dsign = False, dint = 6, dexp = 0\<rparr>)]),
      (3, [(1, \<lparr>dsign = False, dint = 5, dexp = - 1\<rparr>), (4, \<lparr>dsign = False, dint = 5, dexp = 0\<rparr>)]),
      (4, [(2, \<lparr>dsign = False, dint = 5, dexp = - 1\<rparr>), (3, \<lparr>dsign = False, dint = 5, dexp = - 1\<rparr>)])] [1, 2, 4] [1, 3, 4]"
proof -
  let ?g = "[(1, [(2, \<lparr>dsign = False, dint = 9, dexp = - 1\<rparr>)]),
      (2, [(1, \<lparr>dsign = False, dint = 1111111111111111111111111111, dexp = - 27\<rparr>),
           (3, \<lparr>dsign = False, dint = 8, dexp = - 1\<rparr>)]),
      (3, [(2, \<lparr>dsign = False, dint = 125, dexp = - 2\<rparr>)])] :: currency_graph"
  let ?d = "[(1, [(2, \<lparr>dsign = False, dint = 2, dexp = 0\<rparr>), (3, \<lparr>dsign = False, dint = 3, dexp = 0\<rparr>)]),
      (2, [(1, \<lparr>dsign = False, dint = 5, dexp = - 1\<rparr>), (4, \<lparr>dsign = False, dint = 6, dexp = 0\<rparr>)]),
      (3, [(1, \<lparr>dsign = False, dint = 5, dexp = - 1\<rparr>), (4, \<lparr>dsign = False, dint = 5, dexp = 0\<rparr>)]),
      (4, [(2, \<lparr>dsign = False, dint = 5, dexp = - 1\<rparr>), (3, \<lparr>dsign = False, dint = 5, dexp = - 1\<rparr>)])] :: currency_graph"
  have inv1: "dec_truediv dec_one \<lparr>dsign = False, dint = 9, dexp = - 1\<rparr> = Inr \<lparr>dsign = False, dint = 1111111111111111111111111111, dexp = - 27\<rparr>"
    and inv2: "dec_truediv dec_one \<lparr>dsign = False, dint = 8, dexp = - 1\<rparr> = Inr \<lparr>dsign = False, dint = 125, dexp = - 2\<rparr>"
    by (simp_all add: dec_truediv_def dec_one_def dec_fix_def prec_def ndigits.simps
        strip_exact.simps Let_def)
  have built: "build_currency_graph
     [\<lparr>from_currency_id = 1, to_currency_id = 2, rate = \<lparr>dsign = False, dint = 9, dexp = - 1\<rparr>,
        date = \<lparr>ordinal = 739000, hour = 8, minute = 0, second = 0, microsecond = 0\<rparr>, automatic = True\<rparr>,
      \<lparr>from_currency_id = 2, to_currency_id = 3, rate = \<lparr>dsign = False, dint = 8, dexp = - 1\<rparr>,
        date = \<lparr>ordinal = 739000, hour = 8, minute = 0, second = 0, microsecond = 0\<rparr>, automatic = True\<rparr>]
   = Inr ?g"
    by (simp add: build_currency_graph_def set_edge_def inv1 inv2)
  have mul: "dec_mul dec_one \<lparr>dsign = False, dint = 9, dexp = - 1\<rparr> = \<lparr>dsign = False, dint = 9, dexp = - 1\<rparr>"
    "dec_mul \<lparr>dsign = False, dint = 9, dexp = - 1\<rparr> \<lparr>dsign = False, dint = 8, dexp = - 1\<rparr> = \<lparr>dsign = False, dint = 72, dexp = - 2\<rparr>"
    "dec_mul dec_one \<lparr>dsign = False, dint = 2, dexp = 0\<rparr> = \<lparr>dsign = False, dint = 2, dexp = 0\<rparr>"
    "dec_mul dec_one \<lparr>dsign = False, dint = 3, dexp = 0\<rparr> = \<lparr>dsign = False, dint = 3, dexp = 0\<rparr>"
    "dec_mul \<lparr>dsign = False, dint = 2, dexp = 0\<rparr> \<lparr>dsign = False, dint = 6, dexp = 0\<rparr> = \<lparr>dsign = False, dint = 12, dexp = 0\<rparr>"
    by (simp_all add: dec_mul_def dec_one_def dec_fix_def prec_def ndigits.simps Let_def)
  have found: "find_conversion_path ?g 1 3 = (Some [1, 2, 3], Some \<lparr>dsign = False, dint = 72, dexp = - 2\<rparr>)"
    by (simp add: find_conversion_path_def bfs_loop.simps graph_items_def mul)
  have found': "find_conversion_path ?d 1 4 = (Some [1, 2, 4], Some \<lparr>dsign = False, dint = 12, dexp = 0\<rparr>)"
    by (simp add: find_conversion_path_def bfs_loop.simps graph_items_def mul)
  have weights: "hop_weights ?g [1, 2, 3] = Some [\<lparr>dsign = False, dint = 9, dexp = - 1\<rparr>, \<lparr>dsign = False, dint = 8, dexp = - 1\<rparr>]"
    by (simp add: edge_weight_def graph_items_def)
  have exact: "unrounded dec_one [\<lparr>dsign = False, dint = 9, dexp = - 1\<rparr>, \<lparr>dsign = False, dint = 8, dexp = - 1\<rparr>]"
    by (simp add: mul) (simp add: dec_one_def prec_def ndigits.simps)
  have product: "compose_rate [\<lparr>dsign = False, dint = 9, dexp = - 1\<rparr>, \<lparr>dsign = False, dint = 8, dexp = - 1\<rparr>] = \<lparr>dsign = False, dint = 72, dexp = - 2\<rparr>"
    by (simp add: compose_rate_def mul)
  have longer: "is_conversion_path ?g 1 3 [1, 2, 1, 2, 3]"
    and other: "is_conversion_path ?d 1 4 [1, 3, 4]"
    by (simp_all add: is_conversion_path_def edge_weight_def graph_items_def)
  from find_conversion_path_first_shortest [of ?g 1 3] found weights
  have "(\<forall>p'. is_conversion_path ?g 1 3 p' \<longrightarrow> length [1, 2, 3 :: nat] \<le> length p') \<and>
      (unrounded dec_one [\<lparr>dsign = False, dint = 9, dexp = - 1\<rparr>, \<lparr>dsign = False, dint = 8, dexp = - 1\<rparr>]
        \<longrightarrow> dec_val (compose_rate [\<lparr>dsign = False, dint = 9, dexp = - 1\<rparr>, \<lparr>dsign = False, dint = 8, dexp = - 1\<rparr>])
          = prod_list (map dec_val [\<lparr>dsign = False, dint = 9, dexp = - 1\<rparr>, \<lparr>dsign = False, dint = 8, dexp = - 1\<rparr>]))"
    by auto
  with longer exact product
  have "length [1, 2, 3 :: nat] \<le> length [1, 2, 1, 2, 3 :: nat]"
    and "dec_val \<lparr>dsign = False, dint = 72, dexp = - 2\<rparr> = dec_val \<lparr>dsign = False, dint = 9, dexp = - 1\<rparr> * dec_val \<lparr>dsign = False, dint = 8, dexp = - 1\<rparr>"
    by simp_all
  moreover from find_conversion_path_first_shortest [of ?g 1 7]
  have "find_conversion_path ?g 1 7 = (None, None)"
    by auto
  moreover from find_conversion_path_first_shortest [of ?d 1 4] found' other
  have "discovered_before ?d [1, 2, 4] [1, 3, 4]"
    by auto
  moreover have "dec_val \<lparr>dsign = False, dint = 72, dexp = - 2\<rparr> = 72 / 100"
    by (simp add: dec_val_def power_int_def power_divide)
  ultimately show ?thesis using built found found' longer other exact by simp
qed

text \<open>
  C5: when graph construction over a list of rate records returns a graph, the graph has,
  for every record from \<open>A\<close> to \<open>B\<close>, an edge from \<open>A\<close> to \<open>B\<close> and an edge from \<open>B\<close> to
  \<open>A\<close>; and the weight of every edge is the one given by the last record of the list
  that gives that edge a weight, a record giving its rate to the edge from its source to
  its target and the reciprocal \<^verbatim>\<open>Decimal("1") / rate\<close> to the edge back.
\<close>

theorem build_currency_graph_last_wins:
  assumes "build_currency_graph rates = Inr graph"
  shows "(\<forall>r \<in> set rates.
            edge_weight graph (from_currency_id r) (to_currency_id r) \<noteq> None \<and>
            edge_weight graph (to_currency_id r) (from_currency_id r) \<noteq> None) \<and>
         (\<forall>x y. edge_weight graph x y = last_edge rates x y)"
proof -
  have eq: "edge_weight graph x y = last_edge rates x y" for x y
    using build_graph_loop_edges [OF assms [unfolded build_currency_graph_def], of x y]
    by (simp add: edge_weight_def graph_items_def split: option.splits)
  have "edge_weight graph (from_currency_id r) (to_currency_id r) \<noteq> None \<and>
        edge_weight graph (to_currency_id r) (from_currency_id r) \<noteq> None"
    if r: "r \<in> set rates" for r
  proof -
    have "dint (rate r) \<noteq> 0"
    proof
      assume "dint (rate r) = 0"
      with r have "build_graph_loop [] rates = Inl DivisionByZero"
        by (intro build_graph_loop_zero) blast
      with assms show False by (simp add: build_currency_graph_def)
    qed
    then obtain w where "dec_truediv dec_one (rate r) = Inr w"
      using dec_truediv_one [of "rate r"] by (cases "dec_truediv dec_one (rate r)") auto
    from record_edge_own [OF this] r show ?thesis
      unfolding eq by (simp add: last_edge_member)
  qed
  with eq show ?thesis by blast
qed

text \<open>
  Two records for the same pair of currencies, the second in the opposite direction:
  both edges carry the weights of the second record, 4 and its reciprocal 0.25.
\<close>

theorem build_currency_graph_last_wins_witness:
  "build_currency_graph
     [\<lparr>from_currency_id = 1, to_currency_id = 2, rate = \<lparr>dsign = False, dint = 2, dexp = 0\<rparr>,
       date = \<lparr>ordinal = 739000, hour = 8, minute = 0, second = 0, microsecond = 0\<rparr>,
       automatic = True\<rparr>,
      \<lparr>from_currency_id = 2, to_currency_id = 1, rate = \<lparr>dsign = False, dint = 4, dexp = 0\<rparr>,
       date = \<lparr>ordinal = 739000, hour = 9, minute = 0, second = 0, microsecond = 0\<rparr>,
       automatic = False\<rparr>]
     = Inr [(1, [(2, \<lparr>dsign = False, dint = 25, dexp = - 2\<rparr>)]),
            (2, [(1, \<lparr>dsign = False, dint = 4, dexp = 0\<rparr>)])] \<and>
   edge_weight [(1, [(2, \<lparr>dsign = False, dint = 25, dexp = - 2\<rparr>)]),
                (2, [(1, \<lparr>dsign = False, dint = 4, dexp = 0\<rparr>)])] 1 2
     = Some \<lparr>dsign = False, dint = 25, dexp = - 2\<rparr> \<and>
   edge_weight [(1, [(2, \<lparr>dsign = False, dint = 25, dexp = - 2\<rparr>)]),
                (2, [(1, \<lparr>dsign = False, dint = 4, dexp = 0\<rparr>)])] 2 1
     = Some \<lparr>dsign = False, dint = 4, dexp = 0\<rparr>"
proof -
  let ?rates = "[\<lparr>from_currency_id = 1, to_currency_id = 2,
       rate = \<lparr>dsign = False, dint = 2, dexp = 0\<rparr>,
       date = \<lparr>ordinal = 739000, hour = 8, minute = 0, second = 0, microsecond = 0\<rparr>,
       automatic = True\<rparr>,
      \<lparr>from_currency_id = 2, to_currency_id = 1, rate = \<lparr>dsign = False, dint = 4, dexp = 0\<rparr>,
       date = \<lparr>ordinal = 739000, hour = 9, minute = 0, second = 0, microsecond = 0\<rparr>,
       automatic = False\<rparr>]"
  let ?graph = "[(1, [(2, \<lparr>dsign = False, dint = 25, dexp = - 2\<rparr>)]),
            (2, [(1, \<lparr>dsign = False, dint = 4, dexp = 0\<rparr>)])] :: currency_graph"
  have half: "dec_truediv dec_one \<lparr>dsign = False, dint = 2, dexp = 0\<rparr>
      = Inr \<lparr>dsign = False, dint = 5, dexp = - 1\<rparr>"
    and quarter: "dec_truediv dec_one \<lparr>dsign = False, dint = 4, dexp = 0\<rparr>
      = Inr \<lparr>dsign = False, dint = 25, dexp = - 2\<rparr>"
    by (simp_all add: dec_truediv_def dec_one_def dec_fix_def prec_def ndigits.simps
        strip_exact.simps Let_def)
  have built: "build_currency_graph ?rates = Inr ?graph"
    by (simp add: build_currency_graph_def set_edge_def half quarter)
  have "last_edge ?rates 1 2 = Some \<lparr>dsign = False, dint = 25, dexp = - 2\<rparr>"
    and "last_edge ?rates 2 1 = Some \<lparr>dsign = False, dint = 4, dexp = 0\<rparr>"
    by (simp_all add: last_edge_def record_edge_def half quarter)
  with build_currency_graph_last_wins [OF built] built show ?thesis by simp
qed

text \<open>
  C6: under the interval type \<^verbatim>\<open>EVERY\<close>, if \<^verbatim>\<open>fetch_interval\<close> parses as the integer
  \<open>n\<close>, the schedule check returns true when \<^verbatim>\<open>last_fetch\<close> is unset, and otherwise
  returns true if and only if the number of whole hours between \<^verbatim>\<open>last_fetch\<close> and the
  current time, both truncated to the start of their hour, is at least \<open>n\<close>. The number
  of whole hours is counted on the time line, from the start of the hour in which
  \<^verbatim>\<open>last_fetch\<close> lies to the start of the hour in which the current time lies; the time
  fields of both are in their ranges, as those of every \<^verbatim>\<open>datetime\<close> are.
\<close>

theorem should_fetch_every:
  assumes "interval_type service = IntervalType_EVERY"
    and "py_int (fetch_interval service) = Inr n"
    and "valid_datetime timezone_now"
    and "\<forall>fetched. last_fetch service = Some fetched \<longrightarrow> valid_datetime fetched"
  shows "should_fetch_at_hour timezone_now service current_hour =
           Inr (case last_fetch service of
                  None \<Rightarrow> True
                | Some fetched \<Rightarrow> n \<le> whole_hours_between fetched timezone_now)"
proof (cases "last_fetch service")
  case None
  with assms(1,2) show ?thesis
    by (simp add: should_fetch_at_hour_def except_ValueError_def interval_types_distinct)
next
  case (Some fetched)
  with assms(4) have "valid_datetime fetched" by simp
  from hours_since_last_eq [OF this assms(3)]
  have "total_seconds (dt_sub (replace_to_hour timezone_now) (replace_to_hour fetched)) / 3600
      = of_int (whole_hours_between fetched timezone_now)" .
  with assms(1,2) Some show ?thesis
    by (simp add: should_fetch_at_hour_def except_ValueError_def interval_types_distinct Let_def)
qed

text \<open>
  With \<^verbatim>\<open>last_fetch\<close> three hours before the current time, an interval of 2 is due and
  an interval of 4 is not; with \<^verbatim>\<open>last_fetch\<close> unset an interval of 24 is due. With
  \<^verbatim>\<open>last_fetch\<close> at 22:50:30.75 and the current time 01:10:05.0005 of the next day,
  less than two hours and twenty minutes later, three whole hours lie between the starts
  of the two hours: an interval of 3 is due and an interval of 4 is not. With \<^verbatim>\<open>last_fetch\<close> at 22:10 and the
  current time 00:50, two hours and forty minutes later, there are two: an interval of 3
  is not due and an interval of 2 is.
\<close>

theorem should_fetch_every_witness:
  "should_fetch_at_hour \<lparr>ordinal = 739000, hour = 15, minute = 42, second = 7, microsecond = 123\<rparr>
     \<lparr>name = ''ecb'', service_type = ''frankfurter'', is_active = True, api_key = None,
      interval_type = ''every'', fetch_interval = ''2'',
      last_fetch = Some \<lparr>ordinal = 739000, hour = 12, minute = 42, second = 7, microsecond = 123\<rparr>,
      singleton = False\<rparr> 15 = Inr True \<and>
   should_fetch_at_hour \<lparr>ordinal = 739000, hour = 15, minute = 42, second = 7, microsecond = 123\<rparr>
     \<lparr>name = ''ecb'', service_type = ''frankfurter'', is_active = True, api_key = None,
      interval_type = ''every'', fetch_interval = ''4'',
      last_fetch = Some \<lparr>ordinal = 739000, hour = 12, minute = 42, second = 7, microsecond = 123\<rparr>,
      singleton = False\<rparr> 15 = Inr False \<and>
   should_fetch_at_hour \<lparr>ordinal = 739000, hour = 15, minute = 42, second = 7, microsecond = 123\<rparr>
     \<lparr>name = ''ecb'', service_type = ''frankfurter'', is_active = True, api_key = None,
      interval_type = ''every'', fetch_interval = ''24'',
      last_fetch = None,
      singleton = False\<rparr> 15 = Inr True \<and>
   should_fetch_at_hour \<lparr>ordinal = 739000, hour = 1, minute = 10, second = 5, microsecond = 500\<rparr>
     \<lparr>name = ''ecb'', service_type = ''frankfurter'', is_active = True, api_key = None,
      interval_type = ''every'', fetch_interval = ''3'',
      last_fetch = Some \<lparr>ordinal = 738999, hour = 22, minute = 50, second = 30, microsecond = 750000\<rparr>,
      singleton = False\<rparr> 1 = Inr True \<and>
   should_fetch_at_hour \<lparr>ordinal = 739000, hour = 1, minute = 10, second = 5, microsecond = 500\<rparr>
     \<lparr>name = ''ecb'', service_type = ''frankfurter'', is_active = True, api_key = None,
      interval_type = ''every'', fetch_interval = ''4'',
      last_fetch = Some \<lparr>ordinal = 738999, hour = 22, minute = 50, second = 30, microsecond = 750000\<rparr>,
      singleton = False\<rparr> 1 = Inr False \<and>
   should_fetch_at_hour \<lparr>ordinal = 739000, hour = 0, minute = 50, second = 0, microsecond = 0\<rparr>
     \<lparr>name = ''ecb'', service_type = ''frankfurter'', is_active = True, api_key = None,
      interval_type = ''every'', fetch_interval = ''3'',
      last_fetch = Some \<lparr>ordinal = 738999, hour = 22, minute = 10, second = 0, microsecond = 0\<rparr>,
      singleton = False\<rparr> 0 = Inr False \<and>
   should_fetch_at_hour \<lparr>ordinal = 739000, hour = 0, minute = 50, second = 0, microsecond = 0\<rparr>
     \<lparr>name = ''ecb'', service_type = ''frankfurter'', is_active = True, api_key = None,
      interval_type = ''every'', fetch_interval = ''2'',
      last_fetch = Some \<lparr>ordinal = 738999, hour = 22, minute = 10, second = 0, microsecond = 0\<rparr>,
      singleton = False\<rparr> 0 = Inr True \<and>
   whole_hours_between \<lparr>ordinal = 738999, hour = 22, minute = 50, second = 30, microsecond = 750000\<rparr>
     \<lparr>ordinal = 739000, hour = 1, minute = 10, second = 5, microsecond = 500\<rparr> = 3 \<and>
   whole_hours_between \<lparr>ordinal = 738999, hour = 22, minute = 10, second = 0, microsecond = 0\<rparr>
     \<lparr>ordinal = 739000, hour = 0, minute = 50, second = 0, microsecond = 0\<rparr> = 2"
proof -
  have ints: "py_int ''2'' = Inr 2" "py_int ''3'' = Inr 3" "py_int ''4'' = Inr 4"
    "py_int ''24'' = Inr 24"
    by (simp_all add: py_int_def is_space_int_def is_digit_def digit_value_def)
  have hours: "whole_hours_between \<lparr>ordinal = 738999, hour = 22, minute = 50, second = 30, microsecond = 750000\<rparr>
     \<lparr>ordinal = 739000, hour = 1, minute = 10, second = 5, microsecond = 500\<rparr> = 3"
    "whole_hours_between \<lparr>ordinal = 738999, hour = 22, minute = 10, second = 0, microsecond = 0\<rparr>
     \<lparr>ordinal = 739000, hour = 0, minute = 50, second = 0, microsecond = 0\<rparr> = 2"
    by (simp_all add: whole_hours_between_def start_of_hour_def hour_number_def
        to_microseconds_def)
  show ?thesis
    using should_fetch_every [where n = 2 and current_hour = 15
        and timezone_now = "\<lparr>ordinal = 739000, hour = 15, minute = 42, second = 7, microsecond = 123\<rparr>"
        and service = "\<lparr>name = ''ecb'', service_type = ''frankfurter'', is_active = True, api_key = None,
      interval_type = ''every'', fetch_interval = ''2'',
      last_fetch = Some \<lparr>ordinal = 739000, hour = 12, minute = 42, second = 7, microsecond = 123\<rparr>,
      singleton = False\<rparr>"]
      should_fetch_every [where n = 4 and current_hour = 15
        and timezone_now = "\<lparr>ordinal = 739000, hour = 15, minute = 42, second = 7, microsecond = 123\<rparr>"
        and service = "\<lparr>name = ''ecb'', service_type = ''frankfurter'', is_active = True, api_key = None,
      interval_type = ''every'', fetch_interval = ''4'',
      last_fetch = Some \<lparr>ordinal = 739000, hour = 12, minute = 42, second = 7, microsecond = 123\<rparr>,
      singleton = False\<rparr>"]
      should_fetch_every [where n = 24 and current_hour = 15
        and timezone_now = "\<lparr>ordinal = 739000, hour = 15, minute = 42, second = 7, microsecond = 123\<rparr>"
        and service = "\<lparr>name = ''ecb'', service_type = ''frankfurter'', is_active = True, api_key = None,
      interval_type = ''every'', fetch_interval = ''24'',
      last_fetch = None,
      singleton = False\<rparr>"]
      should_fetch_every [where n = 3 and current_hour = 1
        and timezone_now = "\<lparr>ordinal = 739000, hour = 1, minute = 10, second = 5, microsecond = 500\<rparr>"
        and service = "\<lparr>name = ''ecb'', service_type = ''frankfurter'', is_active = True, api_key = None,
      interval_type = ''every'', fetch_interval = ''3'',
      last_fetch = Some \<lparr>ordinal = 738999, hour = 22, minute = 50, second = 30, microsecond = 750000\<rparr>,
      singleton = False\<rparr>"]
      should_fetch_every [where n = 4 and current_hour = 1
        and timezone_now = "\<lparr>ordinal = 739000, hour = 1, minute = 10, second = 5, microsecond = 500\<rparr>"
        and service = "\<lparr>name = ''ecb'', service_type = ''frankfurter'', is_active = True, api_key = None,
      interval_type = ''every'', fetch_interval = ''4'',
      last_fetch = Some \<lparr>ordinal = 738999, hour = 22, minute = 50, second = 30, microsecond = 750000\<rparr>,
      singleton = False\<rparr>"]
      should_fetch_every [where n = 3 and current_hour = 0
        and timezone_now = "\<lparr>ordinal = 739000, hour = 0, minute = 50, second = 0, microsecond = 0\<rparr>"
        and service = "\<lparr>name = ''ecb'', service_type = ''frankfurter'', is_active = True, api_key = None,
      interval_type = ''every'', fetch_interval = ''3'',
      last_fetch = Some \<lparr>ordinal = 738999, hour = 22, minute = 10, second = 0, microsecond = 0\<rparr>,
      singleton = False\<rparr>"]
      should_fetch_every [where n = 2 and current_hour = 0
        and timezone_now = "\<lparr>ordinal = 739000, hour = 0, minute = 50, second = 0, microsecond = 0\<rparr>"
        and service = "\<lparr>name = ''ecb'', service_type = ''frankfurter'', is_active = True, api_key = None,
      interval_type = ''every'', fetch_interval = ''2'',
      last_fetch = Some \<lparr>ordinal = 738999, hour = 22, minute = 10, second = 0, microsecond = 0\<rparr>,
      singleton = False\<rparr>"]
    by (simp add: ints IntervalType_EVERY_def valid_datetime_def whole_hours_between_def
        start_of_hour_def hour_number_def to_microseconds_def)
qed

text \<open>
  C7: for every service configuration, current time and current hour, the schedule check
  returns a truth value and never an exception; and when \<^verbatim>\<open>fetch_interval\<close> is
  malformed for the interval type (the hour parser fails under \<^verbatim>\<open>ON\<close> or
  \<^verbatim>\<open>NOT_ON\<close>, \<^verbatim>\<open>int()\<close> fails under \<^verbatim>\<open>EVERY\<close>) that value is false.
\<close>

theorem should_fetch_never_raises:
  "(\<exists>due. should_fetch_at_hour timezone_now service current_hour = Inr due) \<and>
   (((interval_type service = IntervalType_ON \<or> interval_type service = IntervalType_NOT_ON) \<and>
       (\<exists>e. parse_hour_ranges (fetch_interval service) = Inl e)) \<or>
      (interval_type service = IntervalType_EVERY \<and>
       (\<exists>e. py_int (fetch_interval service) = Inl e))
     \<longrightarrow> should_fetch_at_hour timezone_now service current_hour = Inr False)"
proof -
  have hours: "parse_hour_ranges (fetch_interval service) = Inl ValueError"
    if "parse_hour_ranges (fetch_interval service) = Inl e" for e
    using that parse_hour_ranges_error by blast
  have int: "py_int (fetch_interval service) = Inl ValueError"
    if "py_int (fetch_interval service) = Inl e" for e
    using that py_int_error by blast
  have total: "\<exists>due. should_fetch_at_hour timezone_now service current_hour = Inr due"
  proof -
    have caught: "\<exists>v. except_ValueError body False = Inr v"
      if "\<And>e. body = Inl e \<Longrightarrow> e = ValueError" for body :: "py_error + bool"
      using that by (cases body) (auto simp: except_ValueError_def)
    show ?thesis
      unfolding should_fetch_at_hour_def
      by (rule caught)
        (auto simp: except_ValueError_def split: if_splits sum.splits option.splits
          dest: parse_hour_ranges_error py_int_error)
  qed
  have malformed: "should_fetch_at_hour timezone_now service current_hour = Inr False"
    if "((interval_type service = IntervalType_ON \<or> interval_type service = IntervalType_NOT_ON) \<and>
       (\<exists>e. parse_hour_ranges (fetch_interval service) = Inl e)) \<or>
      (interval_type service = IntervalType_EVERY \<and>
       (\<exists>e. py_int (fetch_interval service) = Inl e))"
    using that
  proof (elim disjE conjE exE)
    fix e
    assume "interval_type service = IntervalType_ON"
      and "parse_hour_ranges (fetch_interval service) = Inl e"
    with hours show ?thesis
      by (simp add: should_fetch_at_hour_def except_ValueError_def interval_types_distinct)
  next
    fix e
    assume "interval_type service = IntervalType_NOT_ON"
      and "parse_hour_ranges (fetch_interval service) = Inl e"
    with hours show ?thesis
      by (simp add: should_fetch_at_hour_def except_ValueError_def)
  next
    fix e
    assume "interval_type service = IntervalType_EVERY"
      and "py_int (fetch_interval service) = Inl e"
    with int show ?thesis
      by (simp add: should_fetch_at_hour_def except_ValueError_def interval_types_distinct)
  qed
  from total malformed show ?thesis by blast
qed

text \<open>
  An unparseable token, an hour out of bounds, an inverted range, and a string that is no
  integer under \<^verbatim>\<open>EVERY\<close>: each is reported as not due.
\<close>

theorem should_fetch_never_raises_witness:
  "should_fetch_at_hour \<lparr>ordinal = 739000, hour = 10, minute = 5, second = 0, microsecond = 0\<rparr>
     \<lparr>name = ''ecb'', service_type = ''frankfurter'', is_active = True, api_key = None,
      interval_type = ''on'', fetch_interval = ''9-x'', last_fetch = None,
      singleton = False\<rparr> 10 = Inr False \<and>
   should_fetch_at_hour \<lparr>ordinal = 739000, hour = 10, minute = 5, second = 0, microsecond = 0\<rparr>
     \<lparr>name = ''ecb'', service_type = ''frankfurter'', is_active = True, api_key = None,
      interval_type = ''not_on'', fetch_interval = ''25'', last_fetch = None,
      singleton = False\<rparr> 10 = Inr False \<and>
   should_fetch_at_hour \<lparr>ordinal = 739000, hour = 10, minute = 5, second = 0, microsecond = 0\<rparr>
     \<lparr>name = ''ecb'', service_type = ''frankfurter'', is_active = True, api_key = None,
      interval_type = ''on'', fetch_interval = ''5-2'', last_fetch = None,
      singleton = False\<rparr> 10 = Inr False \<and>
   should_fetch_at_hour \<lparr>ordinal = 739000, hour = 10, minute = 5, second = 0, microsecond = 0\<rparr>
     \<lparr>name = ''ecb'', service_type = ''frankfurter'', is_active = True, api_key = None,
      interval_type = ''every'', fetch_interval = ''2.5'', last_fetch = None,
      singleton = False\<rparr> 10 = Inr False"
proof -
  have bad: "parse_hour_ranges ''9-x'' = Inl ValueError" "parse_hour_ranges ''25'' = Inl ValueError"
    "parse_hour_ranges ''5-2'' = Inl ValueError" "py_int ''2.5'' = Inl ValueError"
    by (simp_all add: parse_hour_ranges_def parse_hour_part_def py_strip_def py_int_def
        is_space_strip_def is_space_int_def is_digit_def digit_value_def)
  show ?thesis
    using should_fetch_never_raises [where current_hour = 10
        and timezone_now = "\<lparr>ordinal = 739000, hour = 10, minute = 5, second = 0, microsecond = 0\<rparr>"
        and service = "\<lparr>name = ''ecb'', service_type = ''frankfurter'', is_active = True, api_key = None,
      interval_type = ''on'', fetch_interval = ''9-x'', last_fetch = None,
      singleton = False\<rparr>"]
      should_fetch_never_raises [where current_hour = 10
        and timezone_now = "\<lparr>ordinal = 739000, hour = 10, minute = 5, second = 0, microsecond = 0\<rparr>"
        and service = "\<lparr>name = ''ecb'', service_type = ''frankfurter'', is_active = True, api_key = None,
      interval_type = ''not_on'', fetch_interval = ''25'', last_fetch = None,
      singleton = False\<rparr>"]
      should_fetch_never_raises [where current_hour = 10
        and timezone_now = "\<lparr>ordinal = 739000, hour = 10, minute = 5, second = 0, microsecond = 0\<rparr>"
        and service = "\<lparr>name = ''ecb'', service_type = ''frankfurter'', is_active = True, api_key = None,
      interval_type = ''on'', fetch_interval = ''5-2'', last_fetch = None,
      singleton = False\<rparr>"]
      should_fetch_never_raises [where current_hour = 10
        and timezone_now = "\<lparr>ordinal = 739000, hour = 10, minute = 5, second = 0, microsecond = 0\<rparr>"
        and service = "\<lparr>name = ''ecb'', service_type = ''frankfurter'', is_active = True, api_key = None,
      interval_type = ''every'', fetch_interval = ''2.5'', last_fetch = None,
      singleton = False\<rparr>"]
    by (simp add: bad IntervalType_ON_def IntervalType_NOT_ON_def IntervalType_EVERY_def)
qed

text \<open>
  C8: the hour-set parser maps an interval string whose tokens are all free of faults to
  the set of all hours its tokens cover, and fails with \<^verbatim>\<open>ValueError\<close> exactly when
  some token does not parse as an integer or a range, or holds an integer outside 0 to
  23, or is a range with its start greater than its end. The parser is a function of its
  argument alone.
\<close>

theorem parse_hour_ranges_spec:
  "parse_hour_ranges s =
     (if \<exists>t \<in> set (hour_tokens s). token_fault (read_token t) then Inl ValueError
      else Inr (\<Union>t \<in> set (hour_tokens s). token_hours (read_token t)))"
  by (simp add: parse_hour_ranges_def hour_tokens_def parse_hour_parts_eq)

theorem parse_hour_ranges_spec_witness:
  "parse_hour_ranges ''1-3,5'' = Inr {1, 2, 3, 5} \<and>
   parse_hour_ranges ''25'' = Inl ValueError \<and>
   parse_hour_ranges ''5-2'' = Inl ValueError"
proof -
  have "{1..3} = {1, 2, 3::int}" by auto
  then show ?thesis
    using parse_hour_ranges_spec [of "''1-3,5''"] parse_hour_ranges_spec [of "''25''"]
      parse_hour_ranges_spec [of "''5-2''"]
    by (simp add: hour_tokens_def read_token_def py_strip_def py_int_def is_space_strip_def
        is_space_int_def is_digit_def digit_value_def in_bounds_def insert_commute)
qed

text \<open>
  C9: for every source and target currency id, if either endpoint is not a key of the
  graph, or no chain of edges leads from the source to the target, the path search
  returns \<^verbatim>\<open>(None, None)\<close>. The search has no error result: it is a total function
  into pairs of optional values.
\<close>

theorem find_conversion_path_no_path:
  assumes "from_id \<notin> fst ` set graph \<or> to_id \<notin> fst ` set graph \<or>
           (\<forall>p. \<not> is_conversion_path graph from_id to_id p)"
  shows "find_conversion_path graph from_id to_id = (None, None)"
  using find_conversion_path_cases [of graph from_id to_id] assms by blast

theorem find_conversion_path_no_path_witness:
  "find_conversion_path
     [(1, [(2, \<lparr>dsign = False, dint = 9, dexp = - 1\<rparr>)]),
      (2, [(1, \<lparr>dsign = False, dint = 1111111111111111111111111111, dexp = - 27\<rparr>)]),
      (3, [(4, \<lparr>dsign = False, dint = 8, dexp = - 1\<rparr>)]),
      (4, [(3, \<lparr>dsign = False, dint = 125, dexp = - 2\<rparr>)])] 1 4 = (None, None)"
proof -
  let ?g = "[(1, [(2, \<lparr>dsign = False, dint = 9, dexp = - 1\<rparr>)]),
      (2, [(1, \<lparr>dsign = False, dint = 1111111111111111111111111111, dexp = - 27\<rparr>)]),
      (3, [(4, \<lparr>dsign = False, dint = 8, dexp = - 1\<rparr>)]),
      (4, [(3, \<lparr>dsign = False, dint = 125, dexp = - 2\<rparr>)])] :: currency_graph"
  have closed: "\<forall>v \<in> {1, 2}. \<forall>w. edge_weight ?g v w \<noteq> None \<longrightarrow> w \<in> {1, 2}"
    by (simp add: edge_weight_def graph_items_def)
  have "\<not> is_conversion_path ?g 1 4 p" for p
  proof
    assume p: "is_conversion_path ?g 1 4 p"
    then have "hop_weights ?g p \<noteq> None" and "hd p \<in> {1, 2}" and l: "last p = 4"
      by (simp_all add: is_conversion_path_def)
    from closed_path [OF this(1,2) closed] l show False by simp
  qed
  then show ?thesis
    by (intro find_conversion_path_no_path) blast
qed

text \<open>
  C10: graph construction returns a graph for every list of rate records whose rates are
  all different from zero, and for every list that holds a record with a rate of zero
  the reciprocal \<^verbatim>\<open>Decimal("1") / rate\<close> raises \<^verbatim>\<open>decimal.DivisionByZero\<close>, which leaves
  the construction without a graph.
\<close>

theorem build_currency_graph_total_iff_nonzero:
  "((\<forall>r \<in> set rates. dint (rate r) \<noteq> 0) \<longrightarrow> (\<exists>graph. build_currency_graph rates = Inr graph)) \<and>
   ((\<exists>r \<in> set rates. dint (rate r) = 0) \<longrightarrow> build_currency_graph rates = Inl DivisionByZero)"
  unfolding build_currency_graph_def
  using build_graph_loop_total [of rates "[]"] build_graph_loop_zero [of rates "[]"]
  by blast

theorem build_currency_graph_total_iff_nonzero_witness:
  "(\<exists>graph. build_currency_graph
      [\<lparr>from_currency_id = 1, to_currency_id = 2, rate = \<lparr>dsign = False, dint = 9, dexp = - 1\<rparr>,
        date = \<lparr>ordinal = 739000, hour = 8, minute = 0, second = 0, microsecond = 0\<rparr>,
        automatic = True\<rparr>] = Inr graph) \<and>
   build_currency_graph
      [\<lparr>from_currency_id = 1, to_currency_id = 2, rate = \<lparr>dsign = False, dint = 9, dexp = - 1\<rparr>,
        date = \<lparr>ordinal = 739000, hour = 8, minute = 0, second = 0, microsecond = 0\<rparr>,
        automatic = True\<rparr>,
       \<lparr>from_currency_id = 2, to_currency_id = 3, rate = \<lparr>dsign = False, dint = 0, dexp = - 30\<rparr>,
        date = \<lparr>ordinal = 739000, hour = 8, minute = 0, second = 0, microsecond = 0\<rparr>,
        automatic = True\<rparr>] = Inl DivisionByZero"
  using build_currency_graph_total_iff_nonzero
     [of "[\<lparr>from_currency_id = 1, to_currency_id = 2,
        rate = \<lparr>dsign = False, dint = 9, dexp = - 1\<rparr>,
        date = \<lparr>ordinal = 739000, hour = 8, minute = 0, second = 0, microsecond = 0\<rparr>,
        automatic = True\<rparr>]"]
    build_currency_graph_total_iff_nonzero
     [of "[\<lparr>from_currency_id = 1, to_currency_id = 2,
        rate = \<lparr>dsign = False, dint = 9, dexp = - 1\<rparr>,
        date = \<lparr>ordinal = 739000, hour = 8, minute = 0, second = 0, microsecond = 0\<rparr>,
        automatic = True\<rparr>,
       \<lparr>from_currency_id = 2, to_currency_id = 3, rate = \<lparr>dsign = False, dint = 0, dexp = - 30\<rparr>,
        date = \<lparr>ordinal = 739000, hour = 8, minute = 0, second = 0, microsecond = 0\<rparr>,
        automatic = True\<rparr>]"]
  by simp

end
